(* ===== verification/Supra_Prelude.thy ===== *)
theory Supra_Prelude
  imports Main "HOL-Library.Word"
begin

text \<open>
  What the components share: names for the machine types, the guard combinator behind the
  \<^verbatim>\<open>ensure!\<close> macro, runs of dispatched calls, and the locales that lift one-call facts
  (an invariant, atomicity of failures) to whole runs and to reachable states.
\<close>

section \<open>Types\<close>

type_synonym u8 = "8 word"
type_synonym u32 = "32 word"
type_synonym u64 = "64 word"
type_synonym u128 = "128 word"
type_synonym bytes = "u8 list"

text \<open>
  A dispatchable works on the pallet's storage and answers with a result; the storage it
  leaves behind is returned on the error branch too, so that "a failing call changes
  nothing" is a statement about the model and not a consequence of its type.
\<close>

type_synonym ('e, 'a, 's) dispatchable = "'s \<Rightarrow> ('e + 'a) \<times> 's"

named_theorems guard_simps "unfolding of the guards of a dispatchable"
named_theorems handler_defs "definitions of the dispatchables"

section \<open>Guards\<close>

text \<open>
  \<^verbatim>\<open>ensure!(b, e); rest\<close> leaves the function with the error \<open>e\<close> when \<open>b\<close> is false.
\<close>

definition ensure :: "bool \<Rightarrow> 'e \<Rightarrow> ('e, 'a, 's) dispatchable \<Rightarrow> ('e, 'a, 's) dispatchable" where
  "ensure b e rest s = (if b then rest s else (Inl e, s))"

text \<open>\<^verbatim>\<open>let x = m?; rest\<close> for a computation \<open>m\<close> that does not touch the storage.\<close>

definition try_let :: "'e \<Rightarrow> 'b option \<Rightarrow> ('b \<Rightarrow> ('e, 'a, 's) dispatchable) \<Rightarrow> ('e, 'a, 's) dispatchable" where
  "try_let e m rest s = (case m of None \<Rightarrow> (Inl e, s) | Some x \<Rightarrow> rest x s)"

declare ensure_def [guard_simps] try_let_def [guard_simps]

lemma ensure_True [simp]: "ensure True e rest s = rest s"
  by (simp add: ensure_def)

lemma ensure_False [simp]: "ensure False e rest s = (Inl e, s)"
  by (simp add: ensure_def)

lemma try_let_Some [simp]: "try_let e (Some x) rest s = rest x s"
  by (simp add: try_let_def)

lemma try_let_None [simp]: "try_let e None rest s = (Inl e, s)"
  by (simp add: try_let_def)

text \<open>
  The two rules that split a goal about a guarded handler into the failing and the
  passing branch, and their counterparts for an assumption that the handler succeeded.
\<close>

lemma ensure_split: "P (ensure b e rest s) \<longleftrightarrow> (b \<longrightarrow> P (rest s)) \<and> (\<not> b \<longrightarrow> P (Inl e, s))"
  by (simp add: ensure_def)

lemma try_let_split:
  "P (try_let e m rest s) \<longleftrightarrow> (\<forall>x. m = Some x \<longrightarrow> P (rest x s)) \<and> (m = None \<longrightarrow> P (Inl e, s))"
  by (simp add: try_let_def split: option.split)

lemma ensure_ok_iff [simp]:
  "ensure b e rest s = (Inr x, s') \<longleftrightarrow> b \<and> rest s = (Inr x, s')"
  by (simp add: ensure_def)

lemma try_let_ok_iff [simp]:
  "try_let e m rest s = (Inr x, s') \<longleftrightarrow> (\<exists>y. m = Some y \<and> rest y s = (Inr x, s'))"
  by (simp add: try_let_def split: option.split)

lemma ensure_err_iff:
  "ensure b e rest s = (Inl e', s') \<longleftrightarrow> (b \<and> rest s = (Inl e', s') \<or> \<not> b \<and> e' = e \<and> s' = s)"
  by (auto simp: ensure_def)

text \<open>
  The outcome of a handler started in \<open>s\<close> keeps \<open>s\<close> when it is an error. Guards around
  a body that cannot fail have this property.
\<close>

definition keeps_on_error :: "('e + 'a) \<times> 's \<Rightarrow> 's \<Rightarrow> bool" where
  "keeps_on_error r s \<longleftrightarrow> (\<forall>e s'. r = (Inl e, s') \<longrightarrow> s' = s)"

named_theorems keeps_intros "introduction rules for the guards of a dispatchable"

lemma keeps_ensure [keeps_intros]:
  "(b \<Longrightarrow> keeps_on_error (rest s) s) \<Longrightarrow> keeps_on_error (ensure b e rest s) s"
  by (auto simp: keeps_on_error_def ensure_def)

lemma keeps_try_let [keeps_intros]:
  "(\<And>x. m = Some x \<Longrightarrow> keeps_on_error (rest x s) s) \<Longrightarrow> keeps_on_error (try_let e m rest s) s"
  by (auto simp: keeps_on_error_def try_let_def split: option.splits)

lemma keeps_ok [keeps_intros]: "keeps_on_error (Inr x, s') s"
  by (simp add: keeps_on_error_def)

lemma keeps_if [keeps_intros]:
  "(b \<Longrightarrow> keeps_on_error r s) \<Longrightarrow> (\<not> b \<Longrightarrow> keeps_on_error r' s) \<Longrightarrow>
     keeps_on_error (if b then r else r') s"
  by simp

lemma keeps_on_errorD: "keeps_on_error r s \<Longrightarrow> r = (Inl e, s') \<Longrightarrow> s' = s"
  by (simp add: keeps_on_error_def)

section \<open>Storage maps\<close>

text \<open>
  \<open>swap\<close> of a storage map exchanges the entries of two keys, presence included.
\<close>

definition map_swap :: "('k \<rightharpoonup> 'v) \<Rightarrow> 'k \<Rightarrow> 'k \<Rightarrow> ('k \<rightharpoonup> 'v)" where
  "map_swap m k1 k2 = m(k1 := m k2, k2 := m k1)"

lemma map_swap_left [simp]: "map_swap m k1 k2 k1 = m k2"
  by (simp add: map_swap_def)

lemma map_swap_right [simp]: "map_swap m k1 k2 k2 = m k1"
  by (simp add: map_swap_def)

lemma map_swap_other [simp]: "k \<noteq> k1 \<Longrightarrow> k \<noteq> k2 \<Longrightarrow> map_swap m k1 k2 k = m k"
  by (simp add: map_swap_def)

lemma map_swap_twice [simp]: "map_swap (map_swap m k1 k2) k2 k1 = m"
  by (simp add: map_swap_def fun_eq_iff)

lemma map_swap_same [simp]: "map_swap m k k = m"
  by (simp add: map_swap_def)

text \<open>Filling a map from a list of pairs, in order: a later pair overrides an earlier one.\<close>

fun insert_all :: "('k \<times> 'v) list \<Rightarrow> ('k \<rightharpoonup> 'v) \<Rightarrow> ('k \<rightharpoonup> 'v)" where
  "insert_all [] m = m"
| "insert_all ((k, v) # kvs) m = insert_all kvs (m(k \<mapsto> v))"

lemma insert_all_eq: "insert_all kvs m = m ++ map_of (rev kvs)"
  by (induction kvs arbitrary: m) (auto simp: map_add_def fun_eq_iff split: option.splits)

lemma dom_insert_all [simp]: "dom (insert_all kvs m) = dom m \<union> fst ` set kvs"
  by (simp add: insert_all_eq dom_map_of_conv_image_fst Un_commute)

section \<open>Runs of calls\<close>

text \<open>
  A run dispatches a list of calls, each with its origin, one after the other; a failing
  call does not stop the run (an extrinsic that fails stays in its block).
\<close>

fun run_calls :: "('o \<Rightarrow> 'c \<Rightarrow> ('e, 'a, 's) dispatchable) \<Rightarrow> ('o \<times> 'c) list \<Rightarrow> 's \<Rightarrow> 's" where
  "run_calls f [] s = s"
| "run_calls f ((org, c) # cs) s = run_calls f cs (snd (f org c s))"

text \<open>The calls of a run that succeed, in order.\<close>

fun successful :: "('o \<Rightarrow> 'c \<Rightarrow> ('e, 'a, 's) dispatchable) \<Rightarrow> ('o \<times> 'c) list \<Rightarrow> 's \<Rightarrow> ('o \<times> 'c) list" where
  "successful f [] s = []"
| "successful f ((org, c) # cs) s =
     (case f org c s of (Inl e, s') \<Rightarrow> successful f cs s'
      | (Inr x, s') \<Rightarrow> (org, c) # successful f cs s')"

inductive reachable :: "('o \<Rightarrow> 'c \<Rightarrow> ('e, 'a, 's) dispatchable) \<Rightarrow> ('s \<Rightarrow> bool) \<Rightarrow> 's \<Rightarrow> bool"
  for f :: "'o \<Rightarrow> 'c \<Rightarrow> ('e, 'a, 's) dispatchable" and init :: "'s \<Rightarrow> bool" where
  start: "init s \<Longrightarrow> reachable f init s"
| step: "reachable f init s \<Longrightarrow> f org c s = (r, s') \<Longrightarrow> reachable f init s'"

lemma run_calls_append [simp]: "run_calls f (xs @ ys) s = run_calls f ys (run_calls f xs s)"
  by (induction f xs s rule: run_calls.induct) auto

lemma reachable_run: "reachable f init s \<Longrightarrow> reachable f init (run_calls f cs s)"
proof (induction f cs s rule: run_calls.induct)
  case (2 f org c cs s)
  have "reachable f init (snd (f org c s))"
    using 2(2) by (metis reachable.step prod.collapse)
  then show ?case using 2(1) by simp
qed simp

text \<open>A pallet's calls keep an invariant: runs and reachable states then have it.\<close>

locale dispatch_machine =
  fixes dispatch :: "'o \<Rightarrow> 'c \<Rightarrow> ('e, 'a, 's) dispatchable"
    and inv :: "'s \<Rightarrow> bool"
  assumes dispatch_inv: "inv s \<Longrightarrow> inv (snd (dispatch org c s))"
begin

lemma run_inv: "inv s \<Longrightarrow> inv (run_calls dispatch cs s)"
  by (induction cs arbitrary: s) (auto simp: dispatch_inv)

lemma reachable_inv:
  assumes "reachable dispatch init s" and "\<And>s. init s \<Longrightarrow> inv s"
  shows "inv s"
  using assms(1)
proof (induction rule: reachable.induct)
  case (step s org c r s')
  from dispatch_inv [OF step.IH, of org c] show ?case by (simp add: step.hyps)
qed (rule assms(2))

end

text \<open>A pallet whose failing calls change nothing: a run is the run of its successes.\<close>

locale atomic_machine =
  fixes dispatch :: "'o \<Rightarrow> 'c \<Rightarrow> ('e, 'a, 's) dispatchable"
  assumes dispatch_error: "dispatch org c s = (Inl e, s') \<Longrightarrow> s' = s"
begin

lemma run_successful: "run_calls dispatch (successful dispatch cs s) s = run_calls dispatch cs s"
proof (induction cs arbitrary: s)
  case (Cons oc cs)
  obtain org c where oc: "oc = (org, c)" by (cases oc)
  show ?case
  proof (cases "dispatch org c s")
    case (Pair r s')
    then show ?thesis
      using Cons.IH by (cases r) (auto simp: oc dest: dispatch_error)
  qed
qed simp

lemma error_keeps: "fst (dispatch org c s) = Inl e \<Longrightarrow> snd (dispatch org c s) = s"
  by (metis dispatch_error prod.collapse)

end

text \<open>
  A pallet whose events record every change: the storage after a run is the storage
  before it with the events deposited since applied one by one.
\<close>

locale event_log =
  fixes dispatch :: "'o \<Rightarrow> 'c \<Rightarrow> ('e, 'a, 's) dispatchable"
    and log :: "'s \<Rightarrow> 'ev list"
    and storage :: "'s \<Rightarrow> 't"
    and apply_event :: "'ev \<Rightarrow> 't \<Rightarrow> 't"
  assumes logged: "\<exists>evs. log (snd (dispatch org c s)) = log s @ evs \<and>
      storage (snd (dispatch org c s)) = fold apply_event evs (storage s)"
begin

lemma run_logged:
  "\<exists>evs. log (run_calls dispatch cs s) = log s @ evs \<and>
     storage (run_calls dispatch cs s) = fold apply_event evs (storage s)"
proof (induction cs arbitrary: s)
  case (Cons oc cs)
  obtain org c where oc: "oc = (org, c)" by (cases oc)
  obtain evs where evs: "log (snd (dispatch org c s)) = log s @ evs"
      "storage (snd (dispatch org c s)) = fold apply_event evs (storage s)"
    using logged by blast
  obtain evs' where evs': "log (run_calls dispatch cs (snd (dispatch org c s))) = (log s @ evs) @ evs'"
      "storage (run_calls dispatch cs (snd (dispatch org c s))) =
         fold apply_event evs' (fold apply_event evs (storage s))"
    using Cons.IH [of "snd (dispatch org c s)"] evs by auto
  then have "log (run_calls dispatch (oc # cs) s) = log s @ (evs @ evs') \<and>
      storage (run_calls dispatch (oc # cs) s) = fold apply_event (evs @ evs') (storage s)"
    by (simp add: oc)
  then show ?case by blast
qed simp

lemma run_from_empty_log:
  assumes "log s = []"
  shows "storage (run_calls dispatch cs s) = fold apply_event (log (run_calls dispatch cs s)) (storage s)"
  using run_logged [of cs s] assms by auto

end

end
