(* ===== verification/BTree_Set.thy ===== *)
theory BTree_Set
  imports Supra_Prelude "HOL-Library.List_Lexorder"
begin

text \<open>
  The standard library's \<^verbatim>\<open>BTreeSet\<close>, as far as the pallets use it: a set that is kept
  in ascending order and iterates in that order. The model is the list of its elements;
  \<open>btree_ok\<close> is the type's invariant. The locale \<open>ordered_set\<close> is the interface the pallets
  rely on, with the loops over a vector (\<^verbatim>\<open>for x in v { set.insert(x) }\<close> and its
  relatives) proved once inside it.
\<close>

section \<open>The set operations\<close>

type_synonym 'a btree_set = "'a list"

definition btree_ok :: "'a::linorder btree_set \<Rightarrow> bool" where
  "btree_ok s \<longleftrightarrow> sorted s \<and> distinct s"

definition btree_new :: "'a btree_set" where
  "btree_new = []"

definition btree_contains :: "'a \<Rightarrow> 'a btree_set \<Rightarrow> bool" where
  "btree_contains x s \<longleftrightarrow> x \<in> set s"

definition btree_len :: "'a btree_set \<Rightarrow> nat" where
  "btree_len s = length s"

definition btree_insert :: "'a::linorder \<Rightarrow> 'a btree_set \<Rightarrow> 'a btree_set" where
  "btree_insert x s = insort_insert x s"

definition btree_remove :: "'a \<Rightarrow> 'a btree_set \<Rightarrow> 'a btree_set" where
  "btree_remove x s = removeAll x s"

text \<open>\<^verbatim>\<open>extend\<close> and \<^verbatim>\<open>collect\<close> insert the elements of an iterator one by one.\<close>

fun btree_extend :: "'a::linorder list \<Rightarrow> 'a btree_set \<Rightarrow> 'a btree_set" where
  "btree_extend [] s = s"
| "btree_extend (x # xs) s = btree_extend xs (btree_insert x s)"

definition btree_from_iter :: "'a::linorder list \<Rightarrow> 'a btree_set" where
  "btree_from_iter xs = btree_extend xs btree_new"

text \<open>\<^verbatim>\<open>Vec::from_iter(set)\<close>: the elements in iteration order.\<close>

definition btree_into_vec :: "'a btree_set \<Rightarrow> 'a list" where
  "btree_into_vec s = s"

section \<open>The interface\<close>

locale ordered_set =
  fixes ok :: "'s \<Rightarrow> bool"
    and elems :: "'s \<Rightarrow> 'a set"
    and ins :: "'a \<Rightarrow> 's \<Rightarrow> 's"
    and rem :: "'a \<Rightarrow> 's \<Rightarrow> 's"
    and contains :: "'a \<Rightarrow> 's \<Rightarrow> bool"
    and len :: "'s \<Rightarrow> nat"
  assumes ok_ins: "ok s \<Longrightarrow> ok (ins x s)"
    and ok_rem: "ok s \<Longrightarrow> ok (rem x s)"
    and elems_ins: "elems (ins x s) = insert x (elems s)"
    and elems_rem: "elems (rem x s) = elems s - {x}"
    and contains_iff: "contains x s \<longleftrightarrow> x \<in> elems s"
    and len_card: "ok s \<Longrightarrow> len s = card (elems s)"
    and finite_elems: "finite (elems s)"
    and ext: "ok s \<Longrightarrow> ok t \<Longrightarrow> elems s = elems t \<Longrightarrow> s = t"
begin

lemma fold_ins_ok: "ok s \<Longrightarrow> ok (fold ins xs s)"
  by (induction xs arbitrary: s) (auto simp: ok_ins)

lemma elems_fold_ins: "elems (fold ins xs s) = elems s \<union> set xs"
  by (induction xs arbitrary: s) (auto simp: elems_ins)

lemma fold_rem_ok: "ok s \<Longrightarrow> ok (fold rem xs s)"
  by (induction xs arbitrary: s) (auto simp: ok_rem)

lemma elems_fold_rem: "elems (fold rem xs s) = elems s - set xs"
  by (induction xs arbitrary: s) (auto simp: elems_rem)

lemma ins_absent_len: "ok s \<Longrightarrow> x \<notin> elems s \<Longrightarrow> len (ins x s) = Suc (len s)"
  by (simp add: len_card ok_ins elems_ins finite_elems)

lemma rem_present_len: "ok s \<Longrightarrow> x \<in> elems s \<Longrightarrow> Suc (len (rem x s)) = len s"
  by (metis len_card ok_rem elems_rem finite_elems card_Suc_Diff1)

lemma exchange_len:
  "ok s \<Longrightarrow> x \<in> elems s \<Longrightarrow> y \<notin> elems s \<Longrightarrow> len (ins y (rem x s)) = len s"
  by (simp add: ins_absent_len rem_present_len ok_rem elems_rem)

lemma exchange_back:
  assumes "ok s" "x \<in> elems s" "y \<notin> elems s"
  shows "ins x (rem y (ins y (rem x s))) = s"
proof (rule ext)
  show "ok (ins x (rem y (ins y (rem x s))))"
    using assms(1) by (intro ok_ins ok_rem)
  show "elems (ins x (rem y (ins y (rem x s)))) = elems s"
    using assms(2,3) by (auto simp: elems_ins elems_rem)
qed (rule assms(1))

end

section \<open>The list model implements the interface\<close>

lemma btree_ok_new [simp]: "btree_ok btree_new"
  by (simp add: btree_ok_def btree_new_def)

lemma btree_ok_insert: "btree_ok s \<Longrightarrow> btree_ok (btree_insert x s)"
  by (simp add: btree_ok_def btree_insert_def sorted_insort_insert distinct_insort_insert)

lemma btree_ok_remove: "btree_ok s \<Longrightarrow> btree_ok (btree_remove x s)"
  by (simp add: btree_ok_def btree_remove_def removeAll_filter_not_eq sorted_wrt_filter)

lemma set_btree_insert [simp]: "set (btree_insert x s) = insert x (set s)"
  by (simp add: btree_insert_def set_insort_insert)

lemma set_btree_remove [simp]: "set (btree_remove x s) = set s - {x}"
  by (simp add: btree_remove_def)

interpretation bt: ordered_set
  where ok = btree_ok and elems = set and ins = btree_insert and rem = btree_remove
    and contains = btree_contains and len = btree_len
proof unfold_locales
  fix s t :: "'a::linorder list" and x :: 'a
  show "btree_len s = card (set s)" if "btree_ok s"
    using that by (simp add: btree_len_def btree_ok_def distinct_card)
  show "s = t" if "btree_ok s" "btree_ok t" "set s = set t"
    using that by (simp add: btree_ok_def sorted_distinct_set_unique)
qed (simp_all add: btree_ok_insert btree_ok_remove btree_contains_def)

lemma btree_extend_fold: "btree_extend xs s = fold btree_insert xs s"
  by (induction xs s rule: btree_extend.induct) auto

lemma btree_ok_extend: "btree_ok s \<Longrightarrow> btree_ok (btree_extend xs s)"
  by (simp add: btree_extend_fold bt.fold_ins_ok)

lemma set_btree_extend [simp]: "set (btree_extend xs s) = set s \<union> set xs"
  by (simp add: btree_extend_fold bt.elems_fold_ins)

lemma btree_ok_from_iter [simp]: "btree_ok (btree_from_iter xs)"
  by (simp add: btree_from_iter_def btree_ok_extend)

lemma set_btree_from_iter [simp]: "set (btree_from_iter xs) = set xs"
  by (simp add: btree_from_iter_def btree_new_def)

lemma btree_from_iter_len: "btree_len (btree_from_iter xs) \<le> length xs"
  by (simp add: bt.len_card card_length)

end
