(* ===== verification/Authorization.thy ===== *)
theory Authorization
  imports BTree_Set
begin

text \<open>
  The node authorization pallet, \<^verbatim>\<open>authorization/src/lib.rs\<close>: the set of well known
  nodes, the owner of each claimed node and the additional connections an owner allows.
  The storage is a record with one field per item of \<^verbatim>\<open>decl_storage!\<close> and the list of
  deposited events; every dispatchable of \<^verbatim>\<open>decl_module!\<close> is one definition, with its
  guards in the source's order. The associated items of the pallet's \<^verbatim>\<open>Config\<close> trait
  (limits, the four governance origins) and \<^verbatim>\<open>frame_system::ensure_signed\<close> are fields
  of a configuration record that every dispatchable takes as an argument.
\<close>

section \<open>Data\<close>

text \<open>
  \<^verbatim>\<open>OpaquePeerId(Vec<u8>)\<close>, ordered like its byte vector.
\<close>

datatype peer_id = PeerId (peer_bytes: bytes)

instantiation peer_id :: linorder
begin

definition less_eq_peer_id :: "peer_id \<Rightarrow> peer_id \<Rightarrow> bool" where
  "less_eq_peer_id p q \<longleftrightarrow> peer_bytes p \<le> peer_bytes q"

definition less_peer_id :: "peer_id \<Rightarrow> peer_id \<Rightarrow> bool" where
  "less_peer_id p q \<longleftrightarrow> peer_bytes p < peer_bytes q"

instance
  by standard (auto simp: less_eq_peer_id_def less_peer_id_def peer_id.expand)

end

text \<open>The trait \<^verbatim>\<open>WeightInfo\<close> and its default implementation for \<^verbatim>\<open>()\<close>.\<close>

record weight_info =
  w_add_well_known_node :: u64
  w_remove_well_known_node :: u64
  w_swap_well_known_node :: u64
  w_reset_well_known_nodes :: u64
  w_claim_node :: u64
  w_remove_claim :: u64
  w_transfer_node :: u64
  w_add_connections :: u64
  w_remove_connections :: u64

definition unit_weight_info :: weight_info where
  "unit_weight_info = \<lparr>
     w_add_well_known_node = 50000000,
     w_remove_well_known_node = 50000000,
     w_swap_well_known_node = 50000000,
     w_reset_well_known_nodes = 50000000,
     w_claim_node = 50000000,
     w_remove_claim = 50000000,
     w_transfer_node = 50000000,
     w_add_connections = 50000000,
     w_remove_connections = 50000000\<rparr>"

text \<open>
  The trait \<^verbatim>\<open>Config\<close>. An \<^verbatim>\<open>EnsureOrigin\<close> is the predicate of the origins it
  accepts; \<open>ensure_signed\<close> gives the signer of a signed origin. \<open>default_account\<close> is
  the value a read of \<^verbatim>\<open>Owners\<close> gives for a missing key.
\<close>

record ('o, 'acc) auth_config =
  MaxWellKnownNodes :: u32
  MaxPeerIdLength :: u32
  AddOrigin :: "'o \<Rightarrow> bool"
  RemoveOrigin :: "'o \<Rightarrow> bool"
  SwapOrigin :: "'o \<Rightarrow> bool"
  ResetOrigin :: "'o \<Rightarrow> bool"
  WeightInfo :: weight_info
  ensure_signed :: "'o \<Rightarrow> 'acc option"
  default_account :: 'acc

datatype 'acc auth_event =
    NodeAdded peer_id 'acc
  | NodeRemoved peer_id
  | NodeSwapped peer_id peer_id
  | NodesReset "(peer_id \<times> 'acc) list"
  | NodeClaimed peer_id 'acc
  | ClaimRemoved peer_id 'acc
  | NodeTransferred peer_id 'acc
  | ConnectionsAdded peer_id "peer_id list"
  | ConnectionsRemoved peer_id "peer_id list"

text \<open>The pallet's errors, and the origin error that \<^verbatim>\<open>?\<close> passes on.\<close>

datatype auth_error =
    BadOrigin
  | PeerIdTooLong
  | TooManyNodes
  | AlreadyJoined
  | NotExist
  | AlreadyClaimed
  | NotClaimed
  | NotOwner
  | PermissionDenied

record 'acc auth_state =
  WellKnownNodes :: "peer_id btree_set"
  Owners :: "peer_id \<rightharpoonup> 'acc"
  AdditionalConnections :: "peer_id \<rightharpoonup> peer_id btree_set"
  auth_events :: "'acc auth_event list"

type_synonym 'acc auth_handler = "(auth_error, unit, 'acc auth_state) dispatchable"

section \<open>Storage access\<close>

definition deposit_event :: "'acc auth_event \<Rightarrow> 'acc auth_state \<Rightarrow> 'acc auth_state" where
  "deposit_event ev st = st\<lparr>auth_events := auth_events st @ [ev]\<rparr>"

definition owners_get :: "('o, 'acc) auth_config \<Rightarrow> 'acc auth_state \<Rightarrow> peer_id \<Rightarrow> 'acc" where
  "owners_get cfg st node = (case Owners st node of Some a \<Rightarrow> a | None \<Rightarrow> default_account cfg)"

definition additional_get :: "'acc auth_state \<Rightarrow> peer_id \<Rightarrow> peer_id btree_set" where
  "additional_get st node = (case AdditionalConnections st node of Some s \<Rightarrow> s | None \<Rightarrow> btree_new)"

definition peer_id_fits :: "('o, 'acc) auth_config \<Rightarrow> peer_id \<Rightarrow> bool" where
  "peer_id_fits cfg node \<longleftrightarrow> length (peer_bytes node) < unat (MaxPeerIdLength cfg)"

section \<open>Initialisation\<close>

definition initialize_nodes :: "(peer_id \<times> 'acc) list \<Rightarrow> 'acc auth_state \<Rightarrow> 'acc auth_state" where
  "initialize_nodes nodes st =
     (let peer_ids = btree_from_iter (map fst nodes)
      in st\<lparr>WellKnownNodes := peer_ids, Owners := insert_all nodes (Owners st)\<rparr>)"

definition empty_auth_state :: "'acc auth_state" where
  "empty_auth_state = \<lparr>WellKnownNodes = btree_new, Owners = Map.empty,
     AdditionalConnections = Map.empty, auth_events = []\<rparr>"

text \<open>The \<^verbatim>\<open>build\<close> function of the genesis configuration.\<close>

definition auth_genesis :: "(peer_id \<times> 'acc) list \<Rightarrow> 'acc auth_state" where
  "auth_genesis nodes = initialize_nodes nodes empty_auth_state"

section \<open>Governance calls\<close>

definition add_well_known_node ::
  "('o, 'acc) auth_config \<Rightarrow> 'o \<Rightarrow> peer_id \<Rightarrow> 'acc \<Rightarrow> 'acc auth_handler" where
  "add_well_known_node cfg org node owner =
     ensure (AddOrigin cfg org) BadOrigin (
     ensure (peer_id_fits cfg node) PeerIdTooLong (\<lambda>st.
       let nodes = WellKnownNodes st in
       ensure (btree_len nodes < unat (MaxWellKnownNodes cfg)) TooManyNodes (
       ensure (\<not> btree_contains node nodes) AlreadyJoined (\<lambda>st.
         let nodes = btree_insert node nodes;
             st = st\<lparr>WellKnownNodes := nodes\<rparr>;
             st = st\<lparr>Owners := (Owners st)(node \<mapsto> owner)\<rparr>
         in (Inr (), deposit_event (NodeAdded node owner) st))) st))"

definition remove_well_known_node ::
  "('o, 'acc) auth_config \<Rightarrow> 'o \<Rightarrow> peer_id \<Rightarrow> 'acc auth_handler" where
  "remove_well_known_node cfg org node =
     ensure (RemoveOrigin cfg org) BadOrigin (
     ensure (peer_id_fits cfg node) PeerIdTooLong (\<lambda>st.
       let nodes = WellKnownNodes st in
       ensure (btree_contains node nodes) NotExist (\<lambda>st.
         let nodes = btree_remove node nodes;
             st = st\<lparr>WellKnownNodes := nodes\<rparr>;
             st = st\<lparr>Owners := (Owners st)(node := None)\<rparr>;
             st = st\<lparr>AdditionalConnections := (AdditionalConnections st)(node := None)\<rparr>
         in (Inr (), deposit_event (NodeRemoved node) st)) st))"

definition swap_well_known_node ::
  "('o, 'acc) auth_config \<Rightarrow> 'o \<Rightarrow> peer_id \<Rightarrow> peer_id \<Rightarrow> 'acc auth_handler" where
  "swap_well_known_node cfg org remove add =
     ensure (SwapOrigin cfg org) BadOrigin (
     ensure (peer_id_fits cfg remove) PeerIdTooLong (
     ensure (peer_id_fits cfg add) PeerIdTooLong (\<lambda>st.
       if remove = add then (Inr (), st)
       else
         let nodes = WellKnownNodes st in
         ensure (btree_contains remove nodes) NotExist (
         ensure (\<not> btree_contains add nodes) AlreadyJoined (\<lambda>st.
           let nodes = btree_remove remove nodes;
               nodes = btree_insert add nodes;
               st = st\<lparr>WellKnownNodes := nodes\<rparr>;
               st = st\<lparr>Owners := map_swap (Owners st) remove add\<rparr>;
               st = st\<lparr>AdditionalConnections := map_swap (AdditionalConnections st) remove add\<rparr>
           in (Inr (), deposit_event (NodeSwapped remove add) st))) st)))"

definition reset_well_known_nodes ::
  "('o, 'acc) auth_config \<Rightarrow> 'o \<Rightarrow> (peer_id \<times> 'acc) list \<Rightarrow> 'acc auth_handler" where
  "reset_well_known_nodes cfg org nodes =
     ensure (ResetOrigin cfg org) BadOrigin (
     ensure (length nodes < unat (MaxWellKnownNodes cfg)) TooManyNodes (\<lambda>st.
       let st = initialize_nodes nodes st
       in (Inr (), deposit_event (NodesReset nodes) st)))"

section \<open>Calls of node owners\<close>

definition claim_node :: "('o, 'acc) auth_config \<Rightarrow> 'o \<Rightarrow> peer_id \<Rightarrow> 'acc auth_handler" where
  "claim_node cfg org node =
     try_let BadOrigin (ensure_signed cfg org) (\<lambda>sender.
     ensure (peer_id_fits cfg node) PeerIdTooLong (\<lambda>st.
     ensure (Owners st node = None) AlreadyClaimed (\<lambda>st.
       let st = st\<lparr>Owners := (Owners st)(node \<mapsto> sender)\<rparr>
       in (Inr (), deposit_event (NodeClaimed node sender) st)) st))"

definition remove_claim :: "('o, 'acc) auth_config \<Rightarrow> 'o \<Rightarrow> peer_id \<Rightarrow> 'acc auth_handler" where
  "remove_claim cfg org node =
     try_let BadOrigin (ensure_signed cfg org) (\<lambda>sender.
     ensure (peer_id_fits cfg node) PeerIdTooLong (\<lambda>st.
     ensure (Owners st node \<noteq> None) NotClaimed (
     ensure (owners_get cfg st node = sender) NotOwner (
     ensure (\<not> btree_contains node (WellKnownNodes st)) PermissionDenied (\<lambda>st.
       let st = st\<lparr>Owners := (Owners st)(node := None)\<rparr>;
           st = st\<lparr>AdditionalConnections := (AdditionalConnections st)(node := None)\<rparr>
       in (Inr (), deposit_event (ClaimRemoved node sender) st)))) st))"

definition transfer_node ::
  "('o, 'acc) auth_config \<Rightarrow> 'o \<Rightarrow> peer_id \<Rightarrow> 'acc \<Rightarrow> 'acc auth_handler" where
  "transfer_node cfg org node owner =
     try_let BadOrigin (ensure_signed cfg org) (\<lambda>sender.
     ensure (peer_id_fits cfg node) PeerIdTooLong (\<lambda>st.
     ensure (Owners st node \<noteq> None) NotClaimed (
     ensure (owners_get cfg st node = sender) NotOwner (\<lambda>st.
       let st = st\<lparr>Owners := (Owners st)(node \<mapsto> owner)\<rparr>
       in (Inr (), deposit_event (NodeTransferred node owner) st))) st))"

text \<open>The loop of \<open>add_connections\<close>, which skips the node itself.\<close>

fun add_connections_loop :: "peer_id \<Rightarrow> peer_id list \<Rightarrow> peer_id btree_set \<Rightarrow> peer_id btree_set" where
  "add_connections_loop node [] nodes = nodes"
| "add_connections_loop node (add_node # rest) nodes =
     (if add_node = node then add_connections_loop node rest nodes
      else add_connections_loop node rest (btree_insert add_node nodes))"

fun remove_connections_loop :: "peer_id list \<Rightarrow> peer_id btree_set \<Rightarrow> peer_id btree_set" where
  "remove_connections_loop [] nodes = nodes"
| "remove_connections_loop (remove_node # rest) nodes =
     remove_connections_loop rest (btree_remove remove_node nodes)"

definition add_connections ::
  "('o, 'acc) auth_config \<Rightarrow> 'o \<Rightarrow> peer_id \<Rightarrow> peer_id list \<Rightarrow> 'acc auth_handler" where
  "add_connections cfg org node connections =
     try_let BadOrigin (ensure_signed cfg org) (\<lambda>sender.
     ensure (peer_id_fits cfg node) PeerIdTooLong (\<lambda>st.
     ensure (Owners st node \<noteq> None) NotClaimed (
     ensure (owners_get cfg st node = sender) NotOwner (\<lambda>st.
       let nodes = add_connections_loop node connections (additional_get st node);
           st = st\<lparr>AdditionalConnections := (AdditionalConnections st)(node \<mapsto> nodes)\<rparr>
       in (Inr (), deposit_event (ConnectionsAdded node connections) st))) st))"

definition remove_connections ::
  "('o, 'acc) auth_config \<Rightarrow> 'o \<Rightarrow> peer_id \<Rightarrow> peer_id list \<Rightarrow> 'acc auth_handler" where
  "remove_connections cfg org node connections =
     try_let BadOrigin (ensure_signed cfg org) (\<lambda>sender.
     ensure (peer_id_fits cfg node) PeerIdTooLong (\<lambda>st.
     ensure (Owners st node \<noteq> None) NotClaimed (
     ensure (owners_get cfg st node = sender) NotOwner (\<lambda>st.
       let nodes = remove_connections_loop connections (additional_get st node);
           st = st\<lparr>AdditionalConnections := (AdditionalConnections st)(node \<mapsto> nodes)\<rparr>
       in (Inr (), deposit_event (ConnectionsRemoved node connections) st))) st))"

section \<open>The off-chain worker\<close>

definition get_authorized_nodes :: "'acc auth_state \<Rightarrow> peer_id \<Rightarrow> peer_id list" where
  "get_authorized_nodes st node =
     (let nodes = additional_get st node;
          well_known_nodes = WellKnownNodes st;
          nodes = (if btree_contains node well_known_nodes
                   then btree_extend (btree_remove node well_known_nodes) nodes
                   else nodes)
      in btree_into_vec nodes)"

text \<open>
  What the worker does on the host: it logs one of its two errors, or calls
  \<^verbatim>\<open>set_authorized_nodes\<close> with a list of nodes and the flag \<^verbatim>\<open>authorized_only\<close>. The
  host's \<^verbatim>\<open>network_state\<close> (the encoded peer id, or an error) and the codec's
  \<^verbatim>\<open>Decode\<close> are arguments.
\<close>

datatype 'bn auth_worker_effect =
    NetworkStateFailed 'bn
  | PeerIdDecodeFailed 'bn
  | SetAuthorizedNodes "peer_id list" bool

definition auth_offchain_worker ::
  "bytes option \<Rightarrow> (bytes \<Rightarrow> bytes option) \<Rightarrow> 'bn \<Rightarrow> 'acc auth_state \<Rightarrow> 'bn auth_worker_effect" where
  "auth_offchain_worker network_state decode now st =
     (case network_state of
        None \<Rightarrow> NetworkStateFailed now
      | Some encoded_peer \<Rightarrow>
          (case decode encoded_peer of
             None \<Rightarrow> PeerIdDecodeFailed now
           | Some node \<Rightarrow> SetAuthorizedNodes (get_authorized_nodes st (PeerId node)) True))"

section \<open>Dispatch\<close>

text \<open>The \<^verbatim>\<open>Call\<close> enum that \<^verbatim>\<open>decl_module!\<close> derives from the dispatchables.\<close>

datatype 'acc auth_call =
    Call_add_well_known_node peer_id 'acc
  | Call_remove_well_known_node peer_id
  | Call_swap_well_known_node peer_id peer_id
  | Call_reset_well_known_nodes "(peer_id \<times> 'acc) list"
  | Call_claim_node peer_id
  | Call_remove_claim peer_id
  | Call_transfer_node peer_id 'acc
  | Call_add_connections peer_id "peer_id list"
  | Call_remove_connections peer_id "peer_id list"

fun auth_dispatch :: "('o, 'acc) auth_config \<Rightarrow> 'o \<Rightarrow> 'acc auth_call \<Rightarrow> 'acc auth_handler" where
  "auth_dispatch cfg org (Call_add_well_known_node node owner) = add_well_known_node cfg org node owner"
| "auth_dispatch cfg org (Call_remove_well_known_node node) = remove_well_known_node cfg org node"
| "auth_dispatch cfg org (Call_swap_well_known_node remove add) = swap_well_known_node cfg org remove add"
| "auth_dispatch cfg org (Call_reset_well_known_nodes nodes) = reset_well_known_nodes cfg org nodes"
| "auth_dispatch cfg org (Call_claim_node node) = claim_node cfg org node"
| "auth_dispatch cfg org (Call_remove_claim node) = remove_claim cfg org node"
| "auth_dispatch cfg org (Call_transfer_node node owner) = transfer_node cfg org node owner"
| "auth_dispatch cfg org (Call_add_connections node connections) = add_connections cfg org node connections"
| "auth_dispatch cfg org (Call_remove_connections node connections) = remove_connections cfg org node connections"

text \<open>The \<^verbatim>\<open>#[weight]\<close> attributes: the governance calls are operational.\<close>

datatype dispatch_class = Normal | Operational

fun auth_weight :: "('o, 'acc) auth_config \<Rightarrow> 'acc auth_call \<Rightarrow> u64 \<times> dispatch_class" where
  "auth_weight cfg (Call_add_well_known_node _ _) = (w_add_well_known_node (WeightInfo cfg), Operational)"
| "auth_weight cfg (Call_remove_well_known_node _) = (w_remove_well_known_node (WeightInfo cfg), Operational)"
| "auth_weight cfg (Call_swap_well_known_node _ _) = (w_swap_well_known_node (WeightInfo cfg), Operational)"
| "auth_weight cfg (Call_reset_well_known_nodes _) = (w_reset_well_known_nodes (WeightInfo cfg), Operational)"
| "auth_weight cfg (Call_claim_node _) = (w_claim_node (WeightInfo cfg), Normal)"
| "auth_weight cfg (Call_remove_claim _) = (w_remove_claim (WeightInfo cfg), Normal)"
| "auth_weight cfg (Call_transfer_node _ _) = (w_transfer_node (WeightInfo cfg), Normal)"
| "auth_weight cfg (Call_add_connections _ _) = (w_add_connections (WeightInfo cfg), Normal)"
| "auth_weight cfg (Call_remove_connections _ _) = (w_remove_connections (WeightInfo cfg), Normal)"

lemmas auth_handler_defs =
  add_well_known_node_def remove_well_known_node_def swap_well_known_node_def
  reset_well_known_nodes_def claim_node_def remove_claim_def transfer_node_def
  add_connections_def remove_connections_def

section \<open>What a successful call does\<close>

lemma owners_get_eq_iff:
  "Owners st node \<noteq> None \<Longrightarrow> owners_get cfg st node = a \<longleftrightarrow> Owners st node = Some a"
  by (auto simp: owners_get_def)

lemma add_well_known_node_ok:
  "add_well_known_node cfg org node owner st = (Inr (), st') \<longleftrightarrow>
     AddOrigin cfg org \<and> peer_id_fits cfg node \<and>
     btree_len (WellKnownNodes st) < unat (MaxWellKnownNodes cfg) \<and>
     node \<notin> set (WellKnownNodes st) \<and>
     st' = st\<lparr>WellKnownNodes := btree_insert node (WellKnownNodes st),
              Owners := (Owners st)(node \<mapsto> owner),
              auth_events := auth_events st @ [NodeAdded node owner]\<rparr>"
  by (auto simp: add_well_known_node_def deposit_event_def btree_contains_def Let_def)

lemma remove_well_known_node_ok:
  "remove_well_known_node cfg org node st = (Inr (), st') \<longleftrightarrow>
     RemoveOrigin cfg org \<and> peer_id_fits cfg node \<and> node \<in> set (WellKnownNodes st) \<and>
     st' = st\<lparr>WellKnownNodes := btree_remove node (WellKnownNodes st),
              Owners := (Owners st)(node := None),
              AdditionalConnections := (AdditionalConnections st)(node := None),
              auth_events := auth_events st @ [NodeRemoved node]\<rparr>"
  by (auto simp: remove_well_known_node_def deposit_event_def btree_contains_def Let_def)

lemma swap_well_known_node_ok:
  "swap_well_known_node cfg org remove add st = (Inr (), st') \<longleftrightarrow>
     SwapOrigin cfg org \<and> peer_id_fits cfg remove \<and> peer_id_fits cfg add \<and>
     (if remove = add then st' = st
      else remove \<in> set (WellKnownNodes st) \<and> add \<notin> set (WellKnownNodes st) \<and>
        st' = st\<lparr>WellKnownNodes := btree_insert add (btree_remove remove (WellKnownNodes st)),
                 Owners := map_swap (Owners st) remove add,
                 AdditionalConnections := map_swap (AdditionalConnections st) remove add,
                 auth_events := auth_events st @ [NodeSwapped remove add]\<rparr>)"
  by (auto simp: swap_well_known_node_def deposit_event_def btree_contains_def Let_def)

lemma reset_well_known_nodes_ok:
  "reset_well_known_nodes cfg org nodes st = (Inr (), st') \<longleftrightarrow>
     ResetOrigin cfg org \<and> length nodes < unat (MaxWellKnownNodes cfg) \<and>
     st' = st\<lparr>WellKnownNodes := btree_from_iter (map fst nodes),
              Owners := insert_all nodes (Owners st),
              auth_events := auth_events st @ [NodesReset nodes]\<rparr>"
  by (auto simp: reset_well_known_nodes_def initialize_nodes_def deposit_event_def Let_def)

lemma claim_node_ok:
  "claim_node cfg org node st = (Inr (), st') \<longleftrightarrow>
     (\<exists>sender. ensure_signed cfg org = Some sender \<and> peer_id_fits cfg node \<and> Owners st node = None \<and>
       st' = st\<lparr>Owners := (Owners st)(node \<mapsto> sender),
                auth_events := auth_events st @ [NodeClaimed node sender]\<rparr>)"
  by (auto simp: claim_node_def deposit_event_def Let_def)

lemma remove_claim_ok:
  "remove_claim cfg org node st = (Inr (), st') \<longleftrightarrow>
     (\<exists>sender. ensure_signed cfg org = Some sender \<and> peer_id_fits cfg node \<and>
       Owners st node = Some sender \<and> node \<notin> set (WellKnownNodes st) \<and>
       st' = st\<lparr>Owners := (Owners st)(node := None),
                AdditionalConnections := (AdditionalConnections st)(node := None),
                auth_events := auth_events st @ [ClaimRemoved node sender]\<rparr>)"
  by (auto simp: remove_claim_def deposit_event_def owners_get_def btree_contains_def Let_def)

lemma transfer_node_ok:
  "transfer_node cfg org node owner st = (Inr (), st') \<longleftrightarrow>
     (\<exists>sender. ensure_signed cfg org = Some sender \<and> peer_id_fits cfg node \<and>
       Owners st node = Some sender \<and>
       st' = st\<lparr>Owners := (Owners st)(node \<mapsto> owner),
                auth_events := auth_events st @ [NodeTransferred node owner]\<rparr>)"
  by (auto simp: transfer_node_def deposit_event_def owners_get_def Let_def)

lemma add_connections_ok:
  "add_connections cfg org node connections st = (Inr (), st') \<longleftrightarrow>
     (\<exists>sender. ensure_signed cfg org = Some sender \<and> peer_id_fits cfg node \<and>
       Owners st node = Some sender \<and>
       st' = st\<lparr>AdditionalConnections := (AdditionalConnections st)
                  (node \<mapsto> add_connections_loop node connections (additional_get st node)),
                auth_events := auth_events st @ [ConnectionsAdded node connections]\<rparr>)"
  by (auto simp: add_connections_def deposit_event_def owners_get_def Let_def)

lemma remove_connections_ok:
  "remove_connections cfg org node connections st = (Inr (), st') \<longleftrightarrow>
     (\<exists>sender. ensure_signed cfg org = Some sender \<and> peer_id_fits cfg node \<and>
       Owners st node = Some sender \<and>
       st' = st\<lparr>AdditionalConnections := (AdditionalConnections st)
                  (node \<mapsto> remove_connections_loop connections (additional_get st node)),
                auth_events := auth_events st @ [ConnectionsRemoved node connections]\<rparr>)"
  by (auto simp: remove_connections_def deposit_event_def owners_get_def Let_def)

lemmas auth_handler_ok =
  add_well_known_node_ok remove_well_known_node_ok swap_well_known_node_ok
  reset_well_known_nodes_ok claim_node_ok remove_claim_ok transfer_node_ok
  add_connections_ok remove_connections_ok

section \<open>The loops over connection lists\<close>

lemma add_connections_loop_fold:
  "add_connections_loop node xs s = fold btree_insert (filter (\<lambda>x. x \<noteq> node) xs) s"
  by (induction node xs s rule: add_connections_loop.induct) auto

lemma remove_connections_loop_fold: "remove_connections_loop xs s = fold btree_remove xs s"
  by (induction xs s rule: remove_connections_loop.induct) auto

lemma btree_ok_add_connections_loop: "btree_ok s \<Longrightarrow> btree_ok (add_connections_loop node xs s)"
  by (simp add: add_connections_loop_fold bt.fold_ins_ok)

lemma set_add_connections_loop [simp]:
  "set (add_connections_loop node xs s) = set s \<union> (set xs - {node})"
  by (auto simp: add_connections_loop_fold bt.elems_fold_ins)

lemma btree_ok_remove_connections_loop: "btree_ok s \<Longrightarrow> btree_ok (remove_connections_loop xs s)"
  by (simp add: remove_connections_loop_fold bt.fold_rem_ok)

lemma set_remove_connections_loop [simp]: "set (remove_connections_loop xs s) = set s - set xs"
  by (simp add: remove_connections_loop_fold bt.elems_fold_rem)

lemma remove_connections_loop_empty [simp]: "remove_connections_loop xs [] = []"
  using set_remove_connections_loop [of xs "[]"] by (simp del: set_remove_connections_loop)

section \<open>Failing calls\<close>

lemma auth_dispatch_keeps: "keeps_on_error (auth_dispatch cfg org c st) st"
  by (cases c) (auto simp: auth_handler_defs Let_def intro!: keeps_intros)

lemmas auth_dispatch_error_keeps = keeps_on_errorD [OF auth_dispatch_keeps]

interpretation auth_atomic: atomic_machine "auth_dispatch cfg"
  for cfg :: "('o, 'acc) auth_config"
  by unfold_locales (rule auth_dispatch_error_keeps)

text \<open>
  Every fact about the storage after a call has two cases: the call failed and nothing
  changed, or it succeeded as its lemma above says.
\<close>

lemma auth_dispatch_cases:
  assumes "auth_dispatch cfg org c st = (r, st')"
  obtains (failed) e where "r = Inl e" "st' = st"
    | (ok) "auth_dispatch cfg org c st = (Inr (), st')" "r = Inr ()"
proof (cases r)
  case (Inl e)
  with assms have "st' = st" by (auto intro: auth_dispatch_error_keeps)
  with Inl show ?thesis by (rule failed)
next
  case (Inr x)
  with assms show ?thesis using ok by simp
qed

lemma auth_dispatch_preserve:
  assumes "P st" and "\<And>st'. auth_dispatch cfg org c st = (Inr (), st') \<Longrightarrow> P st'"
  shows "P (snd (auth_dispatch cfg org c st))"
proof (cases "auth_dispatch cfg org c st")
  case (Pair r st')
  then show ?thesis
    using assms by (cases rule: auth_dispatch_cases [OF Pair]) auto
qed

end
