(* ===== verification/Ownership.thy ===== *)
theory Ownership
  imports Supra_Prelude
begin

text \<open>
  The contract that two pallets of the runtime share: keys (node ids, proofs) are claimed
  by a signer who finds them free, belong to that signer, and are given up by their owner
  only. The locale states it over the calls and an ownership view of the storage; its
  lemmas are the consequences both pallets rely on.
\<close>

locale ownership_registry =
  fixes owner_of :: "'s \<Rightarrow> 'k \<Rightarrow> 'a option"
    and signer :: "'o \<Rightarrow> 'a option"
    and claim :: "'o \<Rightarrow> 'k \<Rightarrow> ('e, 'r, 's) dispatchable"
    and release :: "'o \<Rightarrow> 'k \<Rightarrow> ('e, 'r, 's) dispatchable"
    and admissible :: "'k \<Rightarrow> bool"
    and held :: "'s \<Rightarrow> 'k \<Rightarrow> bool"
  assumes claim_ok: "claim org k s = (Inr x, s') \<Longrightarrow>
      signer org \<noteq> None \<and> owner_of s k = None \<and> owner_of s' = (owner_of s)(k := signer org)"
    and claim_error: "claim org k s = (Inl e, s') \<Longrightarrow> s' = s"
    and claim_free: "signer org \<noteq> None \<Longrightarrow> owner_of s k = None \<Longrightarrow> admissible k \<Longrightarrow>
      \<exists>x s'. claim org k s = (Inr x, s')"
    and claim_held: "claim org k s = (Inr x, s') \<Longrightarrow> held s' k \<longleftrightarrow> held s k"
    and release_ok: "release org k s = (Inr x, s') \<Longrightarrow>
      signer org \<noteq> None \<and> owner_of s k = signer org \<and> owner_of s' = (owner_of s)(k := None)"
    and release_error: "release org k s = (Inl e, s') \<Longrightarrow> s' = s"
    and release_own: "signer org \<noteq> None \<Longrightarrow> owner_of s k = signer org \<Longrightarrow> admissible k \<Longrightarrow> \<not> held s k \<Longrightarrow>
      \<exists>x s'. release org k s = (Inr x, s')"
begin

lemma claim_taken: "owner_of s k \<noteq> None \<Longrightarrow> \<exists>e. claim org k s = (Inl e, s)"
  by (metis claim_error claim_ok obj_sumE prod.collapse)

lemma release_stranger: "owner_of s k \<noteq> signer org \<Longrightarrow> \<exists>e. release org k s = (Inl e, s)"
  by (metis release_error release_ok obj_sumE prod.collapse)

lemma claimed_owner: "claim org k s = (Inr x, s') \<Longrightarrow> owner_of s' k = signer org \<and> signer org \<noteq> None"
  by (auto dest: claim_ok)

lemma claimed_exclusive:
  assumes "claim org k s = (Inr x, s')"
  shows "\<exists>e. claim org' k s' = (Inl e, s')"
    and "signer org' \<noteq> signer org \<Longrightarrow> \<exists>e. release org' k s' = (Inl e, s')"
  using claimed_owner [OF assms] by (auto intro: claim_taken release_stranger)

lemma claim_release:
  assumes "claim org k s = (Inr x, s')" "admissible k" "\<not> held s k"
  shows "\<exists>y s''. release org k s' = (Inr y, s'') \<and> owner_of s'' = owner_of s"
proof -
  obtain y s'' where r: "release org k s' = (Inr y, s'')"
    using assms release_own [of org s' k] claimed_owner [OF assms(1)] claim_held [OF assms(1)] by auto
  have "owner_of s'' = owner_of s"
    using claim_ok [OF assms(1)] release_ok [OF r] by auto
  with r show ?thesis by blast
qed

end

end
