(* ===== verification/Authorization_Policy.thy ===== *)
theory Authorization_Policy
  imports Authorization Ownership
begin

text \<open>
  The theorems of the node authorization pallet: its storage invariant and the bound on
  the well known nodes in every reachable state; the isolation of owners from each other;
  the policy (sets and maps instead of ordered vectors) that the pallet refines; the event
  log as a complete record of the storage; and what the off-chain worker authorizes.
\<close>

section \<open>The storage invariant\<close>

definition auth_inv :: "'acc auth_state \<Rightarrow> bool" where
  "auth_inv st \<longleftrightarrow>
     btree_ok (WellKnownNodes st) \<and>
     (\<forall>n s. AdditionalConnections st n = Some s \<longrightarrow> btree_ok s) \<and>
     set (WellKnownNodes st) \<subseteq> dom (Owners st) \<and>
     dom (AdditionalConnections st) \<subseteq> dom (Owners st)"

definition auth_bounded :: "('o, 'acc) auth_config \<Rightarrow> 'acc auth_state \<Rightarrow> bool" where
  "auth_bounded cfg st \<longleftrightarrow> btree_len (WellKnownNodes st) \<le> unat (MaxWellKnownNodes cfg)"

text \<open>The states a chain starts from: a genesis list that respects the limit.\<close>

definition genesis_within :: "('o, 'acc) auth_config \<Rightarrow> 'acc auth_state \<Rightarrow> bool" where
  "genesis_within cfg st \<longleftrightarrow>
     (\<exists>nodes. length nodes \<le> unat (MaxWellKnownNodes cfg) \<and> st = auth_genesis nodes)"

lemma auth_inv_additional: "auth_inv st \<Longrightarrow> btree_ok (additional_get st n)"
  by (auto simp: auth_inv_def additional_get_def split: option.splits)

lemma auth_inv_genesis: "auth_inv (auth_genesis nodes)"
  by (auto simp: auth_inv_def auth_genesis_def initialize_nodes_def empty_auth_state_def Let_def)

lemma auth_bounded_genesis: "genesis_within cfg st \<Longrightarrow> auth_bounded cfg st"
  using btree_from_iter_len [of "map fst _"]
  by (fastforce simp: genesis_within_def auth_bounded_def auth_genesis_def initialize_nodes_def Let_def
      intro: order_trans)

lemma map_swap_dom_mono:
  "dom m \<subseteq> dom m' \<Longrightarrow> dom (map_swap m a b) \<subseteq> dom (map_swap m' a b)"
  by (auto simp: map_swap_def split: if_splits)

lemma map_swap_SomeD:
  "map_swap m a b n = Some v \<Longrightarrow> \<exists>n'. m n' = Some v"
  by (auto simp: map_swap_def split: if_splits)

lemma auth_inv_swap:
  assumes "auth_inv st" "remove \<in> set (WellKnownNodes st)" "add \<notin> set (WellKnownNodes st)"
  shows "auth_inv (st\<lparr>WellKnownNodes := btree_insert add (btree_remove remove (WellKnownNodes st)),
           Owners := map_swap (Owners st) remove add,
           AdditionalConnections := map_swap (AdditionalConnections st) remove add,
           auth_events := evs\<rparr>)"
proof -
  have "set (btree_insert add (btree_remove remove (WellKnownNodes st)))
          \<subseteq> dom (map_swap (Owners st) remove add)"
    using assms by (auto simp: auth_inv_def map_swap_def)
  moreover have "dom (map_swap (AdditionalConnections st) remove add) \<subseteq> dom (map_swap (Owners st) remove add)"
    using assms(1) by (intro map_swap_dom_mono) (simp add: auth_inv_def)
  moreover have "btree_ok s" if "map_swap (AdditionalConnections st) remove add n = Some s" for n s
    using assms(1) map_swap_SomeD [OF that] by (auto simp: auth_inv_def)
  ultimately show ?thesis
    using assms(1) by (simp add: auth_inv_def btree_ok_insert btree_ok_remove)
qed

lemma auth_inv_connect:
  assumes "auth_inv st" "Owners st node = Some a" "btree_ok s"
  shows "auth_inv (st\<lparr>AdditionalConnections := (AdditionalConnections st)(node \<mapsto> s), auth_events := evs\<rparr>)"
  using assms by (simp add: auth_inv_def domIff)

lemma auth_dispatch_ok_inv:
  assumes "auth_inv st" and "auth_dispatch cfg org c st = (Inr (), st')"
  shows "auth_inv st'"
proof (cases c)
  case (Call_swap_well_known_node remove add)
  then show ?thesis
    using assms auth_inv_swap [of st remove add]
    by (auto simp: swap_well_known_node_ok split: if_splits)
next
  case (Call_add_connections node xs)
  then show ?thesis
    using assms by (auto simp: add_connections_ok btree_ok_add_connections_loop
        auth_inv_additional intro!: auth_inv_connect)
next
  case (Call_remove_connections node xs)
  then show ?thesis
    using assms by (auto simp: remove_connections_ok btree_ok_remove_connections_loop
        auth_inv_additional intro!: auth_inv_connect)
qed (use assms in \<open>auto simp: auth_handler_ok auth_inv_def btree_ok_insert btree_ok_remove
       subset_iff domIff split: if_splits\<close>)

lemma auth_dispatch_ok_bounded:
  assumes "auth_inv st" "auth_bounded cfg st" "auth_dispatch cfg org c st = (Inr (), st')"
  shows "auth_bounded cfg st'"
proof -
  have ok: "btree_ok (WellKnownNodes st)" using assms(1) by (simp add: auth_inv_def)
  show ?thesis
  proof (cases c)
    case (Call_reset_well_known_nodes nodes)
    then show ?thesis
      using assms(3) btree_from_iter_len [of "map fst nodes"]
      by (auto simp: reset_well_known_nodes_ok auth_bounded_def)
  next
    case (Call_remove_well_known_node node)
    then show ?thesis
      using assms(2,3) bt.rem_present_len [OF ok]
      by (fastforce simp: remove_well_known_node_ok auth_bounded_def)
  qed (use assms(2,3) ok in \<open>auto simp: auth_handler_ok auth_bounded_def
         bt.ins_absent_len bt.exchange_len split: if_splits\<close>)
qed

interpretation auth_machine: dispatch_machine "auth_dispatch cfg"
    "\<lambda>st. auth_inv st \<and> auth_bounded cfg st"
  for cfg :: "('o, 'acc) auth_config"
  by unfold_locales
    (rule auth_dispatch_preserve, auto intro: auth_dispatch_ok_inv auth_dispatch_ok_bounded)

section \<open>A concrete configuration\<close>

text \<open>
  The configuration of the mock runtime in \<^verbatim>\<open>authorization/src/tests.rs\<close>: accounts are
  numbers, an origin is the account that signed, the accounts 1 to 4 may add, remove, swap
  and reset, at most 4 nodes, peer ids of fewer than 2 bytes.
\<close>

definition test_config :: "(nat, nat) auth_config" where
  "test_config = \<lparr>MaxWellKnownNodes = 4, MaxPeerIdLength = 2,
     AddOrigin = (\<lambda>org. org = 1), RemoveOrigin = (\<lambda>org. org = 2),
     SwapOrigin = (\<lambda>org. org = 3), ResetOrigin = (\<lambda>org. org = 4),
     WeightInfo = unit_weight_info, ensure_signed = Some, default_account = 0\<rparr>"

definition test_node :: "u8 \<Rightarrow> peer_id" where
  "test_node n = PeerId [n]"

definition new_test_ext :: "nat auth_state" where
  "new_test_ext = auth_genesis [(test_node 10, 10), (test_node 20, 20), (test_node 30, 30)]"

lemma test_config_simps [simp]:
  "MaxWellKnownNodes test_config = 4" "MaxPeerIdLength test_config = 2"
  "AddOrigin test_config org \<longleftrightarrow> org = 1" "RemoveOrigin test_config org \<longleftrightarrow> org = 2"
  "SwapOrigin test_config org \<longleftrightarrow> org = 3" "ResetOrigin test_config org \<longleftrightarrow> org = 4"
  "ensure_signed test_config org = Some org" "peer_id_fits test_config (test_node n)"
  by (simp_all add: test_config_def peer_id_fits_def test_node_def)

lemma test_node_inject [simp]: "test_node m = test_node n \<longleftrightarrow> m = n"
  by (simp add: test_node_def)

lemma test_node_order [simp]: "test_node m \<le> test_node n \<longleftrightarrow> m \<le> n" "test_node m < test_node n \<longleftrightarrow> m < n"
  by (auto simp: test_node_def less_eq_peer_id_def less_peer_id_def)

lemma new_test_ext_simps [simp]:
  "WellKnownNodes new_test_ext = [test_node 10, test_node 20, test_node 30]"
  "Owners new_test_ext = [test_node 10 \<mapsto> 10, test_node 20 \<mapsto> 20, test_node 30 \<mapsto> 30]"
  "AdditionalConnections new_test_ext = Map.empty"
  "auth_events new_test_ext = []"
  by (simp_all add: new_test_ext_def auth_genesis_def initialize_nodes_def empty_auth_state_def Let_def
      btree_from_iter_def btree_insert_def btree_new_def insort_insert_key_def)

lemma auth_inv_new_test_ext [simp]: "auth_inv new_test_ext"
  by (simp add: new_test_ext_def auth_inv_genesis)

lemma genesis_within_test: "genesis_within test_config new_test_ext"
  unfolding genesis_within_def new_test_ext_def
  by (rule exI [where x = "[(test_node 10, 10), (test_node 20, 20), (test_node 30, 30)]"]) simp

section \<open>Invariant and bound in every reachable state\<close>

text \<open>
  C1. In every state reachable from a genesis within the limit, by any calls from any
  origins: the stored sets are well formed, every well known node and every node with
  additional connections has an owner, and there are at most \<open>MaxWellKnownNodes\<close> well
  known nodes.
\<close>

theorem auth_reachable_invariant:
  assumes "reachable (auth_dispatch cfg) (genesis_within cfg) st"
  shows "auth_inv st \<and> auth_bounded cfg st"
  using assms
  by (rule auth_machine.reachable_inv) (auto simp: genesis_within_def auth_inv_genesis
      intro: auth_bounded_genesis [unfolded genesis_within_def])

theorem auth_reachable_invariant_witness:
  "auth_inv (run_calls (auth_dispatch test_config)
      [(1, Call_add_well_known_node (test_node 15) 15), (20, Call_add_connections (test_node 20) [test_node 5]),
       (3, Call_swap_well_known_node (test_node 20) (test_node 5))] new_test_ext) \<and>
   auth_bounded test_config (run_calls (auth_dispatch test_config)
      [(1, Call_add_well_known_node (test_node 15) 15), (20, Call_add_connections (test_node 20) [test_node 5]),
       (3, Call_swap_well_known_node (test_node 20) (test_node 5))] new_test_ext)"
  by (rule auth_reachable_invariant, rule reachable_run, rule reachable.start) (rule genesis_within_test)

section \<open>Failing calls\<close>

text \<open>
  C22. A run of calls leaves the storage that the run of its successful calls alone leaves:
  a failing call, whatever the reason, has no effect on the storage or the events.
\<close>

theorem auth_failures_have_no_effect:
  "run_calls (auth_dispatch cfg) (successful (auth_dispatch cfg) cs st) st =
     run_calls (auth_dispatch cfg) cs st"
  by (rule auth_atomic.run_successful)

section \<open>Owners are isolated from each other\<close>

definition governance_origin :: "('o, 'acc) auth_config \<Rightarrow> 'o \<Rightarrow> bool" where
  "governance_origin cfg org \<longleftrightarrow>
     AddOrigin cfg org \<or> RemoveOrigin cfg org \<or> SwapOrigin cfg org \<or> ResetOrigin cfg org"

lemma owner_isolation_step:
  assumes "Owners st n = Some a" "\<not> governance_origin cfg org" "ensure_signed cfg org \<noteq> Some a"
  shows "Owners (snd (auth_dispatch cfg org c st)) n = Some a \<and>
    AdditionalConnections (snd (auth_dispatch cfg org c st)) n = AdditionalConnections st n \<and>
    WellKnownNodes (snd (auth_dispatch cfg org c st)) = WellKnownNodes st"
proof (rule auth_dispatch_preserve)
  fix st' assume "auth_dispatch cfg org c st = (Inr (), st')"
  then show "Owners st' n = Some a \<and> AdditionalConnections st' n = AdditionalConnections st n \<and>
      WellKnownNodes st' = WellKnownNodes st"
    using assms by (cases c) (auto simp: auth_handler_ok governance_origin_def)
qed (use assms in simp)

text \<open>
  C9. Whatever accounts without a governance origin do, however many calls they make: a
  node claimed by \<open>a\<close> stays claimed by \<open>a\<close>, its additional connections stay the same, and
  the well known nodes do not change, as long as \<open>a\<close> signs none of the calls.
\<close>

theorem auth_owner_isolation:
  assumes "Owners st n = Some a"
    and "\<forall>(org, c) \<in> set cs. \<not> governance_origin cfg org \<and> ensure_signed cfg org \<noteq> Some a"
  shows "Owners (run_calls (auth_dispatch cfg) cs st) n = Some a \<and>
    AdditionalConnections (run_calls (auth_dispatch cfg) cs st) n = AdditionalConnections st n \<and>
    WellKnownNodes (run_calls (auth_dispatch cfg) cs st) = WellKnownNodes st"
  using assms
proof (induction cs arbitrary: st)
  case (Cons oc cs)
  obtain org c where oc: "oc = (org, c)" by (cases oc)
  have step: "Owners (snd (auth_dispatch cfg org c st)) n = Some a \<and>
      AdditionalConnections (snd (auth_dispatch cfg org c st)) n = AdditionalConnections st n \<and>
      WellKnownNodes (snd (auth_dispatch cfg org c st)) = WellKnownNodes st"
    using Cons.prems oc by (intro owner_isolation_step) auto
  then show ?case
    using Cons.IH [of "snd (auth_dispatch cfg org c st)"] Cons.prems(2) by (simp add: oc)
qed simp

theorem auth_owner_isolation_witness:
  "Owners (run_calls (auth_dispatch test_config)
     [(15, Call_remove_claim (test_node 20)), (15, Call_transfer_node (test_node 20) 15),
      (15, Call_claim_node (test_node 40))] new_test_ext) (test_node 20) = Some 20"
  using auth_owner_isolation [of new_test_ext "test_node 20" 20
      "[(15, Call_remove_claim (test_node 20)), (15, Call_transfer_node (test_node 20) 15),
        (15, Call_claim_node (test_node 40))]" test_config]
  by (simp add: governance_origin_def)

section \<open>The policy the pallet implements\<close>

text \<open>
  The abstract view: which nodes are well known, who owns which node, and which peers each
  node additionally allows. A call has a list of conditions, checked in order, and an
  effect; nothing is said of vectors, their order or missing map entries.
\<close>

record 'acc policy =
  known :: "peer_id set"
  owner :: "peer_id \<rightharpoonup> 'acc"
  allowed :: "peer_id \<Rightarrow> peer_id set"

definition policy_of :: "'acc auth_state \<Rightarrow> 'acc policy" where
  "policy_of st = \<lparr>known = set (WellKnownNodes st), owner = Owners st,
     allowed = (\<lambda>n. set (additional_get st n))\<rparr>"

fun first_failing :: "(bool \<times> 'e) list \<Rightarrow> 'e option" where
  "first_failing [] = None"
| "first_failing ((b, e) # checks) = (if b then first_failing checks else Some e)"

fun policy_checks :: "('o, 'acc) auth_config \<Rightarrow> 'o \<Rightarrow> 'acc auth_call \<Rightarrow> 'acc policy \<Rightarrow> (bool \<times> auth_error) list" where
  "policy_checks cfg org (Call_add_well_known_node n a) p =
     [(AddOrigin cfg org, BadOrigin), (peer_id_fits cfg n, PeerIdTooLong),
      (card (known p) < unat (MaxWellKnownNodes cfg), TooManyNodes), (n \<notin> known p, AlreadyJoined)]"
| "policy_checks cfg org (Call_remove_well_known_node n) p =
     [(RemoveOrigin cfg org, BadOrigin), (peer_id_fits cfg n, PeerIdTooLong), (n \<in> known p, NotExist)]"
| "policy_checks cfg org (Call_swap_well_known_node n m) p =
     [(SwapOrigin cfg org, BadOrigin), (peer_id_fits cfg n, PeerIdTooLong), (peer_id_fits cfg m, PeerIdTooLong)] @
     (if n = m then [] else [(n \<in> known p, NotExist), (m \<notin> known p, AlreadyJoined)])"
| "policy_checks cfg org (Call_reset_well_known_nodes ns) p =
     [(ResetOrigin cfg org, BadOrigin), (length ns < unat (MaxWellKnownNodes cfg), TooManyNodes)]"
| "policy_checks cfg org (Call_claim_node n) p =
     [(ensure_signed cfg org \<noteq> None, BadOrigin), (peer_id_fits cfg n, PeerIdTooLong),
      (owner p n = None, AlreadyClaimed)]"
| "policy_checks cfg org (Call_remove_claim n) p =
     [(ensure_signed cfg org \<noteq> None, BadOrigin), (peer_id_fits cfg n, PeerIdTooLong),
      (owner p n \<noteq> None, NotClaimed), (owner p n = ensure_signed cfg org, NotOwner),
      (n \<notin> known p, PermissionDenied)]"
| "policy_checks cfg org (Call_transfer_node n a) p =
     [(ensure_signed cfg org \<noteq> None, BadOrigin), (peer_id_fits cfg n, PeerIdTooLong),
      (owner p n \<noteq> None, NotClaimed), (owner p n = ensure_signed cfg org, NotOwner)]"
| "policy_checks cfg org (Call_add_connections n xs) p =
     [(ensure_signed cfg org \<noteq> None, BadOrigin), (peer_id_fits cfg n, PeerIdTooLong),
      (owner p n \<noteq> None, NotClaimed), (owner p n = ensure_signed cfg org, NotOwner)]"
| "policy_checks cfg org (Call_remove_connections n xs) p =
     [(ensure_signed cfg org \<noteq> None, BadOrigin), (peer_id_fits cfg n, PeerIdTooLong),
      (owner p n \<noteq> None, NotClaimed), (owner p n = ensure_signed cfg org, NotOwner)]"

fun policy_effect :: "'acc option \<Rightarrow> 'acc auth_call \<Rightarrow> 'acc policy \<Rightarrow> 'acc policy" where
  "policy_effect _ (Call_add_well_known_node n a) p =
     p\<lparr>known := insert n (known p), owner := (owner p)(n \<mapsto> a)\<rparr>"
| "policy_effect _ (Call_remove_well_known_node n) p =
     p\<lparr>known := known p - {n}, owner := (owner p)(n := None), allowed := (allowed p)(n := {})\<rparr>"
| "policy_effect _ (Call_swap_well_known_node n m) p =
     (if n = m then p
      else p\<lparr>known := insert m (known p - {n}), owner := (owner p)(n := owner p m, m := owner p n),
             allowed := (allowed p)(n := allowed p m, m := allowed p n)\<rparr>)"
| "policy_effect _ (Call_reset_well_known_nodes ns) p =
     p\<lparr>known := fst ` set ns, owner := owner p ++ map_of (rev ns)\<rparr>"
| "policy_effect signer (Call_claim_node n) p = p\<lparr>owner := (owner p)(n := signer)\<rparr>"
| "policy_effect _ (Call_remove_claim n) p =
     p\<lparr>owner := (owner p)(n := None), allowed := (allowed p)(n := {})\<rparr>"
| "policy_effect _ (Call_transfer_node n a) p = p\<lparr>owner := (owner p)(n \<mapsto> a)\<rparr>"
| "policy_effect _ (Call_add_connections n xs) p =
     p\<lparr>allowed := (allowed p)(n := allowed p n \<union> (set xs - {n}))\<rparr>"
| "policy_effect _ (Call_remove_connections n xs) p =
     p\<lparr>allowed := (allowed p)(n := allowed p n - set xs)\<rparr>"

definition policy_step ::
  "('o, 'acc) auth_config \<Rightarrow> 'o \<Rightarrow> 'acc auth_call \<Rightarrow> (auth_error, unit, 'acc policy) dispatchable" where
  "policy_step cfg org c p =
     (case first_failing (policy_checks cfg org c p) of
        Some e \<Rightarrow> (Inl e, p)
      | None \<Rightarrow> (Inr (), policy_effect (ensure_signed cfg org) c p))"

lemma policy_of_sel [simp]:
  "known (policy_of st) = set (WellKnownNodes st)" "owner (policy_of st) = Owners st"
  "allowed (policy_of st) n = set (additional_get st n)"
  by (simp_all add: policy_of_def)

lemma additional_get_update [simp]:
  "additional_get (st\<lparr>AdditionalConnections := m\<rparr>) n =
     (case m n of Some s \<Rightarrow> s | None \<Rightarrow> btree_new)"
  "additional_get (st\<lparr>WellKnownNodes := w\<rparr>) n = additional_get st n"
  "additional_get (st\<lparr>Owners := ow\<rparr>) n = additional_get st n"
  "additional_get (st\<lparr>auth_events := evs\<rparr>) n = additional_get st n"
  by (simp_all add: additional_get_def)

lemma policy_eqI:
  fixes p q :: "'acc policy"
  shows "known p = known q \<Longrightarrow> owner p = owner q \<Longrightarrow> allowed p = allowed q \<Longrightarrow> p = q"
  by simp

lemma policy_checks_outcome:
  assumes "auth_inv st"
  shows "fst (auth_dispatch cfg org c st) =
    (case first_failing (policy_checks cfg org c (policy_of st)) of Some e \<Rightarrow> Inl e | None \<Rightarrow> Inr ())"
  using assms
  by (cases c) (auto simp: auth_handler_defs guard_simps Let_def btree_contains_def auth_inv_def
      bt.len_card owners_get_def)

lemma policy_effect_refined:
  assumes "auth_dispatch cfg org c st = (Inr (), st')"
  shows "policy_of st' = policy_effect (ensure_signed cfg org) c (policy_of st)"
proof (rule policy_eqI)
  show "known (policy_of st') = known (policy_effect (ensure_signed cfg org) c (policy_of st))"
    using assms by (cases c) (auto simp: auth_handler_ok split: if_splits)
  show "owner (policy_of st') = owner (policy_effect (ensure_signed cfg org) c (policy_of st))"
    using assms by (cases c) (auto simp: auth_handler_ok insert_all_eq map_swap_def split: if_splits)
  show "allowed (policy_of st') = allowed (policy_effect (ensure_signed cfg org) c (policy_of st))"
    using assms by (cases c) (auto simp: auth_handler_ok fun_eq_iff map_swap_def
        btree_new_def additional_get_def split: if_splits option.splits)
qed

text \<open>
  C2. Refinement: in a state that satisfies the invariant, every call answers what the
  policy answers (the same error, or success) and leads to the state the policy leads to.
\<close>

theorem auth_refines_policy:
  assumes "auth_inv st"
  shows "map_prod id policy_of (auth_dispatch cfg org c st) = policy_step cfg org c (policy_of st)"
proof (cases "auth_dispatch cfg org c st")
  case (Pair r st')
  show ?thesis
    using policy_checks_outcome [OF assms, of cfg org c]
    by (cases rule: auth_dispatch_cases [OF Pair])
      (auto simp: Pair policy_step_def policy_effect_refined split: option.splits)
qed

theorem auth_refines_policy_witness:
  "map_prod id policy_of (auth_dispatch test_config 3 (Call_swap_well_known_node (test_node 20) (test_node 5)) new_test_ext) =
   policy_step test_config 3 (Call_swap_well_known_node (test_node 20) (test_node 5)) (policy_of new_test_ext)"
  by (rule auth_refines_policy) (rule auth_inv_new_test_ext)

section \<open>The events record the storage\<close>

text \<open>What a reader of the event log learns from each event about the storage.\<close>

fun replay_event :: "'acc auth_event \<Rightarrow> 'acc auth_state \<Rightarrow> 'acc auth_state" where
  "replay_event (NodeAdded n a) st =
     st\<lparr>WellKnownNodes := btree_insert n (WellKnownNodes st), Owners := (Owners st)(n \<mapsto> a)\<rparr>"
| "replay_event (NodeRemoved n) st =
     st\<lparr>WellKnownNodes := btree_remove n (WellKnownNodes st), Owners := (Owners st)(n := None),
        AdditionalConnections := (AdditionalConnections st)(n := None)\<rparr>"
| "replay_event (NodeSwapped n m) st =
     st\<lparr>WellKnownNodes := btree_insert m (btree_remove n (WellKnownNodes st)),
        Owners := map_swap (Owners st) n m,
        AdditionalConnections := map_swap (AdditionalConnections st) n m\<rparr>"
| "replay_event (NodesReset ns) st =
     st\<lparr>WellKnownNodes := btree_from_iter (map fst ns), Owners := insert_all ns (Owners st)\<rparr>"
| "replay_event (NodeClaimed n a) st = st\<lparr>Owners := (Owners st)(n \<mapsto> a)\<rparr>"
| "replay_event (ClaimRemoved n a) st =
     st\<lparr>Owners := (Owners st)(n := None),
        AdditionalConnections := (AdditionalConnections st)(n := None)\<rparr>"
| "replay_event (NodeTransferred n a) st = st\<lparr>Owners := (Owners st)(n \<mapsto> a)\<rparr>"
| "replay_event (ConnectionsAdded n xs) st =
     st\<lparr>AdditionalConnections := (AdditionalConnections st)
          (n \<mapsto> add_connections_loop n xs (additional_get st n))\<rparr>"
| "replay_event (ConnectionsRemoved n xs) st =
     st\<lparr>AdditionalConnections := (AdditionalConnections st)
          (n \<mapsto> remove_connections_loop xs (additional_get st n))\<rparr>"

definition storage_of :: "'acc auth_state \<Rightarrow> 'acc auth_state" where
  "storage_of st = st\<lparr>auth_events := []\<rparr>"

lemma auth_dispatch_logged_ok:
  assumes "auth_dispatch cfg org c st = (Inr (), st')"
  shows "(auth_events st' = auth_events st \<and> st' = st) \<or>
    (\<exists>ev. auth_events st' = auth_events st @ [ev] \<and> storage_of st' = replay_event ev (storage_of st))"
  using assms by (cases c) (auto simp: auth_handler_ok storage_of_def split: if_splits)

interpretation auth_log: event_log "auth_dispatch cfg" auth_events storage_of replay_event
  for cfg :: "('o, 'acc) auth_config"
proof unfold_locales
  fix org c and s :: "'acc auth_state"
  show "\<exists>evs. auth_events (snd (auth_dispatch cfg org c s)) = auth_events s @ evs \<and>
      storage_of (snd (auth_dispatch cfg org c s)) = fold replay_event evs (storage_of s)"
  proof (rule auth_dispatch_preserve)
    show "\<exists>evs. auth_events s = auth_events s @ evs \<and> storage_of s = fold replay_event evs (storage_of s)"
      by (rule exI [where x = "[]"]) simp
  next
    fix st' assume ok: "auth_dispatch cfg org c s = (Inr (), st')"
    from auth_dispatch_logged_ok [OF ok]
    show "\<exists>evs. auth_events st' = auth_events s @ evs \<and> storage_of st' = fold replay_event evs (storage_of s)"
    proof
      assume "auth_events st' = auth_events s \<and> st' = s"
      then show ?thesis by (intro exI [where x = "[]"]) simp
    next
      assume "\<exists>ev. auth_events st' = auth_events s @ [ev] \<and> storage_of st' = replay_event ev (storage_of s)"
      then obtain ev where "auth_events st' = auth_events s @ [ev]" "storage_of st' = replay_event ev (storage_of s)"
        by blast
      then show ?thesis by (intro exI [where x = "[ev]"]) simp
    qed
  qed
qed

text \<open>
  C23. The event log is complete: replaying the events deposited since genesis, and nothing
  else, reproduces the well known nodes, the owners and the additional connections that
  any run of calls has led to.
\<close>

theorem auth_events_record_storage:
  "storage_of (run_calls (auth_dispatch cfg) cs (auth_genesis nodes)) =
     fold replay_event (auth_events (run_calls (auth_dispatch cfg) cs (auth_genesis nodes)))
       (auth_genesis nodes)"
proof -
  have "auth_events (auth_genesis nodes) = []" "storage_of (auth_genesis nodes) = auth_genesis nodes"
    by (simp_all add: storage_of_def auth_genesis_def initialize_nodes_def empty_auth_state_def Let_def)
  then show ?thesis
    using auth_log.run_from_empty_log [of "auth_genesis nodes" cfg cs] by simp
qed

section \<open>Swapping\<close>

text \<open>
  C31. Swapping back undoes a swap: after exchanging a well known node for another one and
  exchanging them back, the well known nodes, the owners and the additional connections
  are the ones before, whatever was stored for the two nodes.
\<close>

theorem swap_well_known_node_undo:
  assumes "auth_inv st" and "n \<noteq> m"
    and "swap_well_known_node cfg org n m st = (Inr (), st')"
  shows "\<exists>st''. swap_well_known_node cfg org m n st' = (Inr (), st'') \<and> storage_of st'' = storage_of st"
proof -
  have ok: "btree_ok (WellKnownNodes st)" using assms(1) by (simp add: auth_inv_def)
  show ?thesis
    using assms(2,3) bt.exchange_back [OF ok]
    by (auto simp: swap_well_known_node_ok storage_of_def)
qed

theorem swap_well_known_node_undo_witness:
  "\<exists>st' st''. swap_well_known_node test_config 3 (test_node 20) (test_node 5) new_test_ext = (Inr (), st') \<and>
     swap_well_known_node test_config 3 (test_node 5) (test_node 20) st' = (Inr (), st'') \<and>
     storage_of st'' = storage_of new_test_ext"
proof -
  obtain st' where st': "swap_well_known_node test_config 3 (test_node 20) (test_node 5) new_test_ext = (Inr (), st')"
    by (auto simp: swap_well_known_node_ok)
  then show ?thesis
    using swap_well_known_node_undo [OF auth_inv_new_test_ext _ st'] by auto
qed

text \<open>
  C32. \<open>add_connections\<close> never makes a node one of its own connections, but a swap can: when
  the node that leaves the list allows connections from the node that enters it, the
  entering node ends up in its own connection list and in its own authorized nodes.
\<close>

theorem swap_can_connect_node_to_itself:
  assumes "swap_well_known_node cfg org n m st = (Inr (), st')" and "n \<noteq> m"
    and "m \<in> set (additional_get st n)"
  shows "m \<in> set (additional_get st' m) \<and> m \<in> set (get_authorized_nodes st' m)"
proof -
  have "additional_get st' m = additional_get st n"
    using assms(1,2) by (auto simp: swap_well_known_node_ok additional_get_def)
  then show ?thesis
    using assms(3) by (auto simp: get_authorized_nodes_def btree_into_vec_def Let_def)
qed

theorem swap_can_connect_node_to_itself_witness:
  "test_node 5 \<in> set (get_authorized_nodes
     (run_calls (auth_dispatch test_config)
       [(20, Call_add_connections (test_node 20) [test_node 5]),
        (3, Call_swap_well_known_node (test_node 20) (test_node 5))] new_test_ext) (test_node 5))"
proof -
  obtain st1 where st1: "add_connections test_config 20 (test_node 20) [test_node 5] new_test_ext = (Inr (), st1)"
      "test_node 5 \<in> set (additional_get st1 (test_node 20))" "WellKnownNodes st1 = WellKnownNodes new_test_ext"
    by (auto simp: add_connections_ok)
  obtain st2 where st2: "swap_well_known_node test_config 3 (test_node 20) (test_node 5) st1 = (Inr (), st2)"
    using st1(3) by (auto simp: swap_well_known_node_ok)
  show ?thesis
    using swap_can_connect_node_to_itself [OF st2 _ st1(2)] by (simp add: st1 st2)
qed

section \<open>What the off-chain worker authorizes\<close>

lemma set_get_authorized_nodes:
  "set (get_authorized_nodes st n) = set (additional_get st n) \<union>
     (if n \<in> set (WellKnownNodes st) then set (WellKnownNodes st) - {n} else {})"
  by (auto simp: get_authorized_nodes_def btree_into_vec_def btree_contains_def Let_def)

lemma get_authorized_nodes_ok: "auth_inv st \<Longrightarrow> btree_ok (get_authorized_nodes st n)"
  by (auto simp: get_authorized_nodes_def btree_into_vec_def Let_def auth_inv_additional intro: btree_ok_extend)

text \<open>
  When the off-chain worker sets the authorized nodes, it passes the flag that refuses
  all others, and a list in ascending order without repetitions that holds exactly the
  node's additional connections and, for a well known node, all other well known nodes.
\<close>

lemma auth_worker_authorizes:
  assumes "auth_inv st" and "auth_offchain_worker ns decode now st = SetAuthorizedNodes nodes flag"
  shows "\<exists>enc n. ns = Some enc \<and> decode enc = Some n \<and> flag \<and> sorted nodes \<and> distinct nodes \<and>
    set nodes = allowed (policy_of st) (PeerId n) \<union>
      (if PeerId n \<in> known (policy_of st) then known (policy_of st) - {PeerId n} else {})"
proof -
  obtain enc n where "ns = Some enc" "decode enc = Some n" "flag" "nodes = get_authorized_nodes st (PeerId n)"
    using assms(2) by (auto simp: auth_offchain_worker_def split: option.splits)
  then show ?thesis
    using get_authorized_nodes_ok [OF assms(1), of "PeerId n"]
    by (simp add: set_get_authorized_nodes btree_ok_def)
qed

lemma auth_worker_authorizes_example:
  "\<exists>nodes. auth_offchain_worker (Some [20]) Some (1::nat) new_test_ext = SetAuthorizedNodes nodes True \<and>
     set nodes = {test_node 10, test_node 30}"
proof -
  obtain nodes where nodes: "auth_offchain_worker (Some [20]) Some (1::nat) new_test_ext = SetAuthorizedNodes nodes True"
    by (simp add: auth_offchain_worker_def)
  have "set nodes = {test_node 10, test_node 20, test_node 30} - {test_node 20}"
    using auth_worker_authorizes [OF auth_inv_new_test_ext nodes]
    by (simp add: additional_get_def btree_new_def test_node_def)
  moreover have "{test_node 10, test_node 20, test_node 30} - {test_node 20} = {test_node 10, test_node 30}"
    by auto
  ultimately show ?thesis using nodes by blast
qed

section \<open>Node lists that escape the length check\<close>

lemma overlong_stays_step:
  assumes "\<not> peer_id_fits cfg n" "n \<in> set (WellKnownNodes st)" "\<forall>ns. c \<noteq> Call_reset_well_known_nodes ns"
  shows "n \<in> set (WellKnownNodes (snd (auth_dispatch cfg org c st)))"
  using assms(2)
proof (rule auth_dispatch_preserve)
  fix st' assume "auth_dispatch cfg org c st = (Inr (), st')"
  then show "n \<in> set (WellKnownNodes st')"
    using assms by (cases c) (auto simp: auth_handler_ok split: if_splits)
qed

text \<open>
  C33. \<open>reset_well_known_nodes\<close> and the genesis build do not check the length of peer ids, and
  the other calls do. A well known node whose peer id is too long therefore cannot be
  removed or swapped out by anybody: it stays until the whole list is reset.
\<close>

theorem overlong_node_cannot_be_removed:
  assumes "\<not> peer_id_fits cfg n" and "n \<in> set (WellKnownNodes st)"
    and "\<forall>(org, c) \<in> set cs. \<forall>ns. c \<noteq> Call_reset_well_known_nodes ns"
  shows "n \<in> set (WellKnownNodes (run_calls (auth_dispatch cfg) cs st))"
  using assms(2,3)
proof (induction cs arbitrary: st)
  case (Cons oc cs)
  obtain org c where oc: "oc = (org, c)" by (cases oc)
  have "n \<in> set (WellKnownNodes (snd (auth_dispatch cfg org c st)))"
    using Cons.prems oc by (intro overlong_stays_step assms(1)) auto
  then show ?case using Cons oc by simp
qed simp

theorem overlong_node_cannot_be_removed_witness:
  "\<exists>st. reset_well_known_nodes test_config 4 [(PeerId [1, 2, 3], 7)] new_test_ext = (Inr (), st) \<and>
     PeerId [1, 2, 3] \<in> set (WellKnownNodes (run_calls (auth_dispatch test_config)
       [(2, Call_remove_well_known_node (PeerId [1, 2, 3]))] st))"
proof -
  obtain st where st: "reset_well_known_nodes test_config 4 [(PeerId [1, 2, 3], 7)] new_test_ext = (Inr (), st)"
      "PeerId [1, 2, 3] \<in> set (WellKnownNodes st)"
    by (auto simp: reset_well_known_nodes_ok)
  have "\<not> peer_id_fits test_config (PeerId [1, 2, 3])" by (simp add: peer_id_fits_def)
  from overlong_node_cannot_be_removed [OF this st(2), of "[(2, Call_remove_well_known_node (PeerId [1, 2, 3]))]"] st(1)
  show ?thesis by auto
qed

text \<open>
  The limit is not the same for the two ways to fill the list: a reset to exactly
  \<open>MaxWellKnownNodes\<close> nodes is refused, while adding one node to a list that is one short of
  the limit succeeds and leaves exactly \<open>MaxWellKnownNodes\<close> of them.
\<close>

lemma well_known_limit_differs:
  assumes "auth_inv st" and "Suc (btree_len (WellKnownNodes st)) = unat (MaxWellKnownNodes cfg)"
    and "AddOrigin cfg org" "peer_id_fits cfg n" "n \<notin> set (WellKnownNodes st)"
    and "ResetOrigin cfg org'" "length ns = unat (MaxWellKnownNodes cfg)"
  shows "reset_well_known_nodes cfg org' ns st = (Inl TooManyNodes, st) \<and>
    (\<exists>st'. add_well_known_node cfg org n a st = (Inr (), st') \<and>
      btree_len (WellKnownNodes st') = unat (MaxWellKnownNodes cfg))"
proof
  show "reset_well_known_nodes cfg org' ns st = (Inl TooManyNodes, st)"
    using assms(6,7) by (simp add: reset_well_known_nodes_def)
  have "btree_ok (WellKnownNodes st)" using assms(1) by (simp add: auth_inv_def)
  then show "\<exists>st'. add_well_known_node cfg org n a st = (Inr (), st') \<and>
      btree_len (WellKnownNodes st') = unat (MaxWellKnownNodes cfg)"
    using assms(2-5) by (simp add: add_well_known_node_ok bt.ins_absent_len)
qed

lemma well_known_limit_differs_example:
  "reset_well_known_nodes test_config 4
     [(test_node 1, 1), (test_node 2, 2), (test_node 3, 3), (test_node 4, 4)] new_test_ext = (Inl TooManyNodes, new_test_ext) \<and>
   (\<exists>st'. add_well_known_node test_config 1 (test_node 15) 15 new_test_ext = (Inr (), st') \<and>
     btree_len (WellKnownNodes st') = 4)"
  using well_known_limit_differs [of new_test_ext test_config 1 "test_node 15" 4
      "[(test_node 1, 1), (test_node 2, 2), (test_node 3, 3), (test_node 4, 4)]" 15]
  by (simp add: btree_len_def)

section \<open>Claims of nodes are an ownership registry\<close>

interpretation node_registry: ownership_registry
    Owners "ensure_signed cfg" "claim_node cfg" "remove_claim cfg" "peer_id_fits cfg"
    "\<lambda>st n. n \<in> set (WellKnownNodes st)"
  for cfg :: "('o, 'acc) auth_config"
proof unfold_locales
  fix org n and s s' :: "'acc auth_state" and e
  show "s' = s" if "claim_node cfg org n s = (Inl e, s')"
    using auth_dispatch_error_keeps [of cfg org "Call_claim_node n"] that by simp
  show "s' = s" if "remove_claim cfg org n s = (Inl e, s')"
    using auth_dispatch_error_keeps [of cfg org "Call_remove_claim n"] that by simp
qed (auto simp: claim_node_ok remove_claim_ok)

text \<open>
  A node is claimed by one account at a time: after a successful claim every further
  claim of the node fails, nobody but the claimer can remove the claim, and the claimer can
  as long as the node is not well known, which restores the owners from before the claim.
\<close>

lemma node_claim_exclusive:
  assumes "claim_node cfg org n st = (Inr (), st')"
  shows "(\<forall>org'. \<exists>e. claim_node cfg org' n st' = (Inl e, st')) \<and>
    (\<forall>org'. ensure_signed cfg org' \<noteq> ensure_signed cfg org \<longrightarrow> (\<exists>e. remove_claim cfg org' n st' = (Inl e, st'))) \<and>
    (n \<notin> set (WellKnownNodes st) \<longrightarrow>
       (\<exists>st''. remove_claim cfg org n st' = (Inr (), st'') \<and> Owners st'' = Owners st))"
proof -
  have "peer_id_fits cfg n" using assms by (auto simp: claim_node_ok)
  then show ?thesis
    using node_registry.claimed_exclusive [OF assms] node_registry.claim_release [OF assms] by auto
qed

lemma node_claim_exclusive_example:
  "\<exists>st'. claim_node test_config 15 (test_node 15) new_test_ext = (Inr (), st') \<and>
     (\<exists>e. claim_node test_config 16 (test_node 15) st' = (Inl e, st')) \<and>
     (\<exists>st''. remove_claim test_config 15 (test_node 15) st' = (Inr (), st'') \<and> Owners st'' = Owners new_test_ext)"
proof -
  obtain st' where st': "claim_node test_config 15 (test_node 15) new_test_ext = (Inr (), st')"
    by (auto simp: claim_node_ok)
  from node_claim_exclusive [OF st'] st' show ?thesis by auto
qed

end
