(* ===== verification/Authorization_Tests.thy ===== *)
theory Authorization_Tests
  imports Authorization_Policy
begin

text \<open>
  The unit tests of the node authorization pallet, \<^verbatim>\<open>authorization/src/tests.rs\<close>, replayed on
  the model: each lemma carries the assertions of the test of the same name, from the same
  genesis. \<^verbatim>\<open>assert_noop!\<close> is the error together with an unchanged storage.
\<close>

definition assert_noop :: "nat \<Rightarrow> nat auth_call \<Rightarrow> auth_error \<Rightarrow> nat auth_state \<Rightarrow> bool" where
  "assert_noop org c e st \<longleftrightarrow> auth_dispatch test_config org c st = (Inl e, st)"

definition assert_ok :: "nat \<Rightarrow> nat auth_call \<Rightarrow> nat auth_state \<Rightarrow> (nat auth_state \<Rightarrow> bool) \<Rightarrow> bool" where
  "assert_ok org c st P \<longleftrightarrow> (case auth_dispatch test_config org c st of (Inr _, st') \<Rightarrow> P st' | _ \<Rightarrow> False)"

definition with_connections :: "peer_id \<Rightarrow> peer_id list \<Rightarrow> nat auth_state \<Rightarrow> nat auth_state" where
  "with_connections n ns st = st\<lparr>AdditionalConnections := (AdditionalConnections st)(n \<mapsto> btree_from_iter ns)\<rparr>"

abbreviation long_node :: peer_id where
  "long_node \<equiv> PeerId [1, 2, 3]"

lemma long_node_too_long [simp]: "\<not> peer_id_fits test_config long_node"
  by (simp add: peer_id_fits_def)

lemmas test_simps = assert_noop_def assert_ok_def with_connections_def auth_handler_defs deposit_event_def
  btree_contains_def btree_len_def btree_insert_def btree_remove_def btree_from_iter_def btree_new_def insort_insert_key_def
  owners_get_def additional_get_def ensure_def try_let_def initialize_nodes_def map_swap_def Let_def

lemma add_well_known_node_works:
  "assert_noop 2 (Call_add_well_known_node (test_node 15) 15) BadOrigin new_test_ext"
  "assert_noop 1 (Call_add_well_known_node long_node 15) PeerIdTooLong new_test_ext"
  "assert_noop 1 (Call_add_well_known_node (test_node 20) 20) AlreadyJoined new_test_ext"
  "assert_ok 1 (Call_add_well_known_node (test_node 15) 15) new_test_ext (\<lambda>st.
     WellKnownNodes st = [test_node 10, test_node 15, test_node 20, test_node 30] \<and>
     map (owners_get test_config st) [test_node 10, test_node 20, test_node 30, test_node 15] = [10, 20, 30, 15] \<and>
     assert_noop 1 (Call_add_well_known_node (test_node 25) 25) TooManyNodes st)"
  by (simp_all add: test_simps)

lemma remove_well_known_node_works:
  "assert_noop 3 (Call_remove_well_known_node (test_node 20)) BadOrigin new_test_ext"
  "assert_noop 2 (Call_remove_well_known_node long_node) PeerIdTooLong new_test_ext"
  "assert_noop 2 (Call_remove_well_known_node (test_node 40)) NotExist new_test_ext"
  "assert_ok 2 (Call_remove_well_known_node (test_node 20)) (with_connections (test_node 20) [test_node 40] new_test_ext) (\<lambda>st.
     WellKnownNodes st = [test_node 10, test_node 30] \<and> Owners st (test_node 20) = None \<and>
     AdditionalConnections st (test_node 20) = None)"
  by (simp_all add: test_simps)

lemma swap_well_known_node_works:
  "assert_noop 4 (Call_swap_well_known_node (test_node 20) (test_node 5)) BadOrigin new_test_ext"
  "assert_noop 3 (Call_swap_well_known_node long_node (test_node 20)) PeerIdTooLong new_test_ext"
  "assert_noop 3 (Call_swap_well_known_node (test_node 20) long_node) PeerIdTooLong new_test_ext"
  "assert_ok 3 (Call_swap_well_known_node (test_node 20) (test_node 20)) new_test_ext (\<lambda>st.
     WellKnownNodes st = [test_node 10, test_node 20, test_node 30] \<and>
     assert_noop 3 (Call_swap_well_known_node (test_node 15) (test_node 5)) NotExist st \<and>
     assert_noop 3 (Call_swap_well_known_node (test_node 20) (test_node 30)) AlreadyJoined st \<and>
     assert_ok 3 (Call_swap_well_known_node (test_node 20) (test_node 5)) (with_connections (test_node 20) [test_node 15] st) (\<lambda>st.
       WellKnownNodes st = [test_node 5, test_node 10, test_node 30] \<and>
       Owners st (test_node 20) = None \<and> owners_get test_config st (test_node 5) = 20 \<and>
       AdditionalConnections st (test_node 20) = None \<and> additional_get st (test_node 5) = [test_node 15]))"
  by (simp_all add: test_simps)

lemma reset_well_known_nodes_works:
  "assert_noop 3 (Call_reset_well_known_nodes [(test_node 15, 15), (test_node 5, 5), (test_node 20, 20)]) BadOrigin new_test_ext"
  "assert_noop 4 (Call_reset_well_known_nodes [(test_node 15, 15), (test_node 5, 5), (test_node 20, 20), (test_node 25, 25)])
     TooManyNodes new_test_ext"
  "assert_ok 4 (Call_reset_well_known_nodes [(test_node 15, 15), (test_node 5, 5), (test_node 20, 20)]) new_test_ext (\<lambda>st.
     WellKnownNodes st = [test_node 5, test_node 15, test_node 20] \<and>
     map (owners_get test_config st) [test_node 5, test_node 15, test_node 20] = [5, 15, 20])"
  by (simp_all add: test_simps)

lemma claim_node_works:
  "assert_noop 1 (Call_claim_node long_node) PeerIdTooLong new_test_ext"
  "assert_noop 1 (Call_claim_node (test_node 20)) AlreadyClaimed new_test_ext"
  "assert_ok 15 (Call_claim_node (test_node 15)) new_test_ext (\<lambda>st. owners_get test_config st (test_node 15) = 15)"
  by (simp_all add: test_simps)

lemma remove_claim_works:
  "assert_noop 15 (Call_remove_claim long_node) PeerIdTooLong new_test_ext"
  "assert_noop 15 (Call_remove_claim (test_node 15)) NotClaimed new_test_ext"
  "assert_noop 15 (Call_remove_claim (test_node 20)) NotOwner new_test_ext"
  "assert_noop 20 (Call_remove_claim (test_node 20)) PermissionDenied new_test_ext"
  "assert_ok 15 (Call_remove_claim (test_node 15))
     (with_connections (test_node 15) [test_node 20] (new_test_ext\<lparr>Owners := (Owners new_test_ext)(test_node 15 \<mapsto> 15)\<rparr>)) (\<lambda>st.
     Owners st (test_node 15) = None \<and> AdditionalConnections st (test_node 15) = None)"
  by (simp_all add: test_simps)

lemma transfer_node_works:
  "assert_noop 15 (Call_transfer_node long_node 10) PeerIdTooLong new_test_ext"
  "assert_noop 15 (Call_transfer_node (test_node 15) 10) NotClaimed new_test_ext"
  "assert_noop 15 (Call_transfer_node (test_node 20) 10) NotOwner new_test_ext"
  "assert_ok 20 (Call_transfer_node (test_node 20) 15) new_test_ext (\<lambda>st. owners_get test_config st (test_node 20) = 15)"
  by (simp_all add: test_simps)

lemma add_connections_works:
  "assert_noop 15 (Call_add_connections long_node [test_node 5]) PeerIdTooLong new_test_ext"
  "assert_noop 15 (Call_add_connections (test_node 15) [test_node 5]) NotClaimed new_test_ext"
  "assert_noop 15 (Call_add_connections (test_node 20) [test_node 5]) NotOwner new_test_ext"
  "assert_ok 20 (Call_add_connections (test_node 20) [test_node 15, test_node 5, test_node 25, test_node 20]) new_test_ext (\<lambda>st.
     additional_get st (test_node 20) = [test_node 5, test_node 15, test_node 25])"
  by (simp_all add: test_simps)

lemma remove_connections_works:
  "assert_noop 15 (Call_remove_connections long_node [test_node 5]) PeerIdTooLong new_test_ext"
  "assert_noop 15 (Call_remove_connections (test_node 15) [test_node 5]) NotClaimed new_test_ext"
  "assert_noop 15 (Call_remove_connections (test_node 20) [test_node 5]) NotOwner new_test_ext"
  "assert_ok 20 (Call_remove_connections (test_node 20) [test_node 15, test_node 5])
     (with_connections (test_node 20) [test_node 5, test_node 15, test_node 25] new_test_ext) (\<lambda>st.
     additional_get st (test_node 20) = [test_node 25])"
  by (simp_all add: test_simps)

lemma get_authorized_nodes_works:
  "sort (get_authorized_nodes (with_connections (test_node 20) [test_node 5, test_node 15, test_node 25] new_test_ext) (test_node 20)) =
     [test_node 5, test_node 10, test_node 15, test_node 25, test_node 30]"
  by (simp add: test_simps get_authorized_nodes_def btree_into_vec_def)

end
