(* ===== verification/Rust_Str.thy ===== *)
theory Rust_Str
  imports Supra_Prelude
begin

text \<open>
  The parts of Rust's standard library that the client pallet uses on text: a \<^verbatim>\<open>&str\<close> is
  the vector of its bytes, \<^verbatim>\<open>str::from_utf8\<close> checks that a vector is well-formed UTF-8,
  and \<^verbatim>\<open>format!\<close> prints integers in decimal and hexadecimal. Results that may also panic
  are values of \<open>outcome\<close>.
\<close>

section \<open>Results and panics\<close>

datatype ('a, 'e) outcome = Ok 'a | Err 'e | Panic

fun obind :: "('a, 'e) outcome \<Rightarrow> ('a \<Rightarrow> ('b, 'e) outcome) \<Rightarrow> ('b, 'e) outcome" where
  "obind (Ok x) f = f x"
| "obind (Err e) f = Err e"
| "obind Panic f = Panic"

text \<open>\<^verbatim>\<open>map_err(|_| e)\<close> on an optional value, and \<^verbatim>\<open>unwrap()\<close>.\<close>

definition or_err :: "'e \<Rightarrow> 'a option \<Rightarrow> ('a, 'e) outcome" where
  "or_err e m = (case m of None \<Rightarrow> Err e | Some x \<Rightarrow> Ok x)"

fun unwrap :: "('a, 'e) outcome \<Rightarrow> ('a, 'e') outcome" where
  "unwrap (Ok x) = Ok x"
| "unwrap (Err e) = Panic"
| "unwrap Panic = Panic"

definition unwrap_option :: "'a option \<Rightarrow> ('a, 'e) outcome" where
  "unwrap_option m = (case m of None \<Rightarrow> Panic | Some x \<Rightarrow> Ok x)"

lemma or_err_simps [simp]: "or_err e (Some x) = Ok x" "or_err e None = Err e"
  by (simp_all add: or_err_def)

lemma unwrap_option_simps [simp]: "unwrap_option (Some x) = Ok x" "unwrap_option None = Panic"
  by (simp_all add: unwrap_option_def)

lemma obind_Ok_iff: "obind m f = Ok y \<longleftrightarrow> (\<exists>x. m = Ok x \<and> f x = Ok y)"
  by (cases m) auto

lemma obind_Panic_iff: "obind m f = Panic \<longleftrightarrow> m = Panic \<or> (\<exists>x. m = Ok x \<and> f x = Panic)"
  by (cases m) auto

lemma or_err_not_Panic [simp]: "or_err e m \<noteq> Panic"
  by (simp add: or_err_def split: option.split)

lemma unwrap_Panic_iff: "unwrap m = Panic \<longleftrightarrow> (\<forall>x. m \<noteq> Ok x)"
  by (cases m) auto

section \<open>Text\<close>

type_synonym str = bytes

text \<open>A string literal: the source's literals are ASCII.\<close>

definition lit :: "string \<Rightarrow> str" where
  "lit s = map of_char s"

text \<open>The ranges of the UTF-8 table: continuation bytes, and second bytes by lead byte.\<close>

definition cont_byte :: "u8 \<Rightarrow> bool" where
  "cont_byte b \<longleftrightarrow> 128 \<le> b \<and> b \<le> 191"

definition second_of_three :: "u8 \<Rightarrow> u8 \<Rightarrow> bool" where
  "second_of_three a b \<longleftrightarrow>
     (if a = 224 then 160 \<le> b \<and> b \<le> 191
      else if a = 237 then 128 \<le> b \<and> b \<le> 159
      else cont_byte b)"

definition second_of_four :: "u8 \<Rightarrow> u8 \<Rightarrow> bool" where
  "second_of_four a b \<longleftrightarrow>
     (if a = 240 then 144 \<le> b \<and> b \<le> 191
      else if a = 244 then 128 \<le> b \<and> b \<le> 143
      else cont_byte b)"

text \<open>One step of the check: the bytes after the first character, if it is well formed.\<close>

definition utf8_step :: "bytes \<Rightarrow> bytes option" where
  "utf8_step bs =
     (case bs of
        [] \<Rightarrow> None
      | a # rest \<Rightarrow>
          if a < 128 then Some rest
          else if 194 \<le> a \<and> a \<le> 223 then
            (case rest of b # r \<Rightarrow> if cont_byte b then Some r else None | _ \<Rightarrow> None)
          else if 224 \<le> a \<and> a \<le> 239 then
            (case rest of b # c # r \<Rightarrow> if second_of_three a b \<and> cont_byte c then Some r else None
             | _ \<Rightarrow> None)
          else if 240 \<le> a \<and> a \<le> 244 then
            (case rest of b # c # d # r \<Rightarrow>
               if second_of_four a b \<and> cont_byte c \<and> cont_byte d then Some r else None
             | _ \<Rightarrow> None)
          else None)"

lemma utf8_step_shorter: "utf8_step bs = Some r \<Longrightarrow> length r < length bs"
  by (auto simp: utf8_step_def split: list.splits if_splits)

lemma utf8_step_append:
  assumes "utf8_step bs = Some r"
  shows "utf8_step (bs @ ys) = Some (r @ ys)"
proof (cases bs)
  case (Cons a rest)
  with assms show ?thesis
    unfolding utf8_step_def by (simp split: list.split_asm if_split_asm) blast
qed (use assms in \<open>simp add: utf8_step_def\<close>)

function utf8_valid :: "bytes \<Rightarrow> bool" where
  "utf8_valid bs =
     (bs = [] \<or> (case utf8_step bs of None \<Rightarrow> False | Some r \<Rightarrow> utf8_valid r))"
  by pat_completeness auto
termination
  by (relation "measure length") (auto dest: utf8_step_shorter)

declare utf8_valid.simps [simp del]

lemma utf8_valid_Nil [simp]: "utf8_valid []"
  by (simp add: utf8_valid.simps)

lemma utf8_valid_ascii_Cons [simp]: "b < 128 \<Longrightarrow> utf8_valid (b # bs) \<longleftrightarrow> utf8_valid bs"
  by (simp add: utf8_valid.simps [of "b # bs"] utf8_step_def)

definition from_utf8 :: "bytes \<Rightarrow> str option" where
  "from_utf8 bs = (if utf8_valid bs then Some bs else None)"

text \<open>\<^verbatim>\<open>unwrap_or("error")\<close> on the result.\<close>

definition from_utf8_or_error :: "bytes \<Rightarrow> str" where
  "from_utf8_or_error bs = (case from_utf8 bs of Some s \<Rightarrow> s | None \<Rightarrow> lit ''error'')"

lemma from_utf8_valid [simp]: "utf8_valid bs \<Longrightarrow> from_utf8 bs = Some bs"
  by (simp add: from_utf8_def)

lemma from_utf8_Some_iff [simp]: "from_utf8 bs = Some s \<longleftrightarrow> utf8_valid bs \<and> s = bs"
  by (auto simp: from_utf8_def)

lemma from_utf8_None_iff [simp]: "from_utf8 bs = None \<longleftrightarrow> \<not> utf8_valid bs"
  by (simp add: from_utf8_def)

lemma utf8_valid_append: "utf8_valid xs \<Longrightarrow> utf8_valid (xs @ ys) \<longleftrightarrow> utf8_valid ys"
proof (induction xs rule: utf8_valid.induct)
  case (1 xs)
  show ?case
  proof (cases "xs = []")
    case False
    with "1.prems" obtain r where r: "utf8_step xs = Some r" "utf8_valid r"
      by (auto simp: utf8_valid.simps [of xs] split: option.splits)
    then have "utf8_valid (xs @ ys) \<longleftrightarrow> utf8_valid (r @ ys)"
      using False by (simp add: utf8_valid.simps [of "xs @ ys"] utf8_step_append)
    with "1.IH" [OF r] show ?thesis by simp
  qed simp
qed

lemma utf8_valid_ascii: "\<forall>b \<in> set bs. b < 128 \<Longrightarrow> utf8_valid bs"
  by (induction bs) auto

section \<open>Printing integers\<close>

definition digit_byte :: "nat \<Rightarrow> u8" where
  "digit_byte d = (if d < 10 then of_nat (48 + d) else of_nat (87 + d))"

text \<open>Digits of a number in a base of at most 16, most significant first.\<close>

function digits :: "nat \<Rightarrow> nat \<Rightarrow> nat list" where
  "digits base n = (if n < base \<or> base < 2 then [n] else digits base (n div base) @ [n mod base])"
  by pat_completeness auto
termination
  by (relation "measure snd") auto

declare digits.simps [simp del]

definition fmt_hex :: "nat \<Rightarrow> str" where
  "fmt_hex n = map digit_byte (digits 16 n)"

definition fmt_dec :: "nat \<Rightarrow> str" where
  "fmt_dec n = map digit_byte (digits 10 n)"

fun digits_value :: "nat \<Rightarrow> nat list \<Rightarrow> nat" where
  "digits_value base ds = foldl (\<lambda>acc d. acc * base + d) 0 ds"

lemma digits_value_digits: "2 \<le> base \<Longrightarrow> digits_value base (digits base n) = n"
proof (induction base n rule: digits.induct)
  case (1 base n)
  then show ?case
    by (cases "n < base") (auto simp: digits.simps [of base n] div_mult_mod_eq)
qed

lemma digits_lt: "2 \<le> base \<Longrightarrow> d \<in> set (digits base n) \<Longrightarrow> d < base"
proof (induction base n rule: digits.induct)
  case (1 base n)
  then show ?case
    by (cases "n < base") (auto simp: digits.simps [of base n])
qed

lemma length_digits: "2 \<le> base \<Longrightarrow> n < base ^ Suc k \<Longrightarrow> length (digits base n) \<le> Suc k"
proof (induction k arbitrary: n)
  case 0
  then show ?case by (simp add: digits.simps [of base n])
next
  case (Suc k)
  have "n div base < base ^ Suc k"
    using Suc.prems by (simp add: less_mult_imp_div_less mult.commute)
  then show ?case
    using Suc by (cases "n < base") (auto simp: digits.simps [of base n])
qed

lemma digits_nonempty [simp]: "digits base n \<noteq> []"
  by (subst digits.simps) simp

lemma digit_byte_ascii: "d < 16 \<Longrightarrow> digit_byte d < 128"
proof -
  assume "d < 16"
  then have "d \<in> set [0..<16]" by simp
  moreover have "\<forall>d \<in> set [0..<16]. digit_byte d < 128" by (simp add: digit_byte_def upt_rec)
  ultimately show ?thesis by blast
qed

lemma utf8_valid_digits: "2 \<le> base \<Longrightarrow> base \<le> 16 \<Longrightarrow> utf8_valid (map digit_byte (digits base n))"
  by (rule utf8_valid_ascii) (auto intro!: digit_byte_ascii dest: digits_lt)

lemma utf8_valid_fmt [simp]: "utf8_valid (fmt_hex n)" "utf8_valid (fmt_dec n)"
  by (simp_all add: fmt_hex_def fmt_dec_def utf8_valid_digits)

lemma utf8_valid_replicate [simp]: "b < 128 \<Longrightarrow> utf8_valid (replicate n b)"
  by (rule utf8_valid_ascii) simp

end
