(* ===== verification/Rust_F32.thy ===== *)
theory Rust_F32
  imports Rust_Str
begin

text \<open>
  Rust's \<^verbatim>\<open>str::parse::<f32>\<close> and the cast \<^verbatim>\<open>as u32\<close>, which the client pallet applies
  to the price. A finite single-precision number is a sign, a significand of at most 24
  bits and the index \<open>k\<close> of its unit in the last place, \<open>2 ^ (k - 149)\<close>. Parsing follows the
  grammar of the standard library (optional sign, \<^verbatim>\<open>inf\<close>, \<^verbatim>\<open>NaN\<close>, or digits with an
  optional point and an optional exponent) and rounds to the nearest number, ties to even;
  that no number of the format is nearer is proved.
\<close>

section \<open>Numbers and rounding\<close>

datatype f32 = NaN | Infinity bool | Finite bool nat nat

text \<open>The scale that makes the smallest unit in the last place 1.\<close>

definition f32_scale :: nat where
  "f32_scale = 2 ^ 149"

definition round_half_even :: "nat \<Rightarrow> nat \<Rightarrow> nat" where
  "round_half_even num den =
     (let q = num div den; r = num mod den
      in if 2 * r < den \<or> (2 * r = den \<and> even q) then q else Suc q)"

text \<open>The least unit in the last place for which the quotient fits in 24 bits.\<close>

definition ulp_index :: "nat \<Rightarrow> nat \<Rightarrow> nat option" where
  "ulp_index num den = List.find (\<lambda>k. num * f32_scale < den * 2 ^ (24 + k)) [0..<254]"

definition round_f32 :: "bool \<Rightarrow> nat \<Rightarrow> nat \<Rightarrow> f32" where
  "round_f32 neg num den =
     (case ulp_index num den of
        None \<Rightarrow> Infinity neg
      | Some k \<Rightarrow>
          let q = round_half_even (num * f32_scale) (den * 2 ^ k)
          in if q = 2 ^ 24 \<and> k = 253 then Infinity neg else Finite neg q k)"

text \<open>The saturating cast to \<^verbatim>\<open>u32\<close>: towards zero, NaN to 0.\<close>

fun f32_as_u32 :: "f32 \<Rightarrow> u32" where
  "f32_as_u32 NaN = 0"
| "f32_as_u32 (Infinity neg) = (if neg then 0 else 2 ^ 32 - 1)"
| "f32_as_u32 (Finite neg q k) =
     (if neg then 0 else of_nat (min (2 ^ 32 - 1) (q * 2 ^ k div f32_scale)))"

section \<open>Parsing\<close>

definition digit_of :: "u8 \<Rightarrow> nat option" where
  "digit_of b = (if 48 \<le> b \<and> b \<le> 57 then Some (unat b - 48) else None)"

fun eat_digits :: "str \<Rightarrow> nat list \<times> str" where
  "eat_digits [] = ([], [])"
| "eat_digits (b # bs) =
     (case digit_of b of
        None \<Rightarrow> ([], b # bs)
      | Some d \<Rightarrow> (let (ds, rest) = eat_digits bs in (d # ds, rest)))"

definition parse_exp :: "str \<Rightarrow> int option" where
  "parse_exp s =
     (let (neg, s) = (case s of b # r \<Rightarrow> if b = 45 then (True, r) else if b = 43 then (False, r) else (False, s)
                      | [] \<Rightarrow> (False, s));
          (ds, trailing) = eat_digits s
      in if trailing \<noteq> [] \<or> ds = [] then None
         else Some (if neg then - int (digits_value 10 ds) else int (digits_value 10 ds)))"

definition is_exp_byte :: "u8 \<Rightarrow> bool" where
  "is_exp_byte b \<longleftrightarrow> b = 101 \<or> b = 69"

text \<open>The integral digits, the fractional digits and the exponent.\<close>

definition parse_decimal :: "str \<Rightarrow> (nat list \<times> nat list \<times> int) option" where
  "parse_decimal s =
     (let (integral, s) = eat_digits s in
      case s of
        [] \<Rightarrow> if integral = [] then None else Some (integral, [], 0)
      | b # r \<Rightarrow>
          if is_exp_byte b then
            (if integral = [] then None
             else map_option (\<lambda>e. (integral, [], e)) (parse_exp r))
          else if b = 46 then
            (let (fractional, s) = eat_digits r in
             if integral = [] \<and> fractional = [] then None
             else case s of
                [] \<Rightarrow> Some (integral, fractional, 0)
              | c # r \<Rightarrow>
                  if is_exp_byte c then map_option (\<lambda>e. (integral, fractional, e)) (parse_exp r) else None)
          else None)"

definition decimal_to_f32 :: "bool \<Rightarrow> nat list \<times> nat list \<times> int \<Rightarrow> f32" where
  "decimal_to_f32 neg d =
     (let (integral, fractional, e) = d;
          m = digits_value 10 (integral @ fractional);
          e = e - int (length fractional)
      in round_f32 neg (m * 10 ^ nat e) (10 ^ nat (- e)))"

text \<open>
  Parsing as documented, and as all later releases do it. The release that the repository pins refuses texts
  whose exact value takes several hundred digits.
\<close>

definition parse_f32 :: "str \<Rightarrow> f32 option" where
  "parse_f32 s =
     (let (neg, s) = (case s of b # r \<Rightarrow> if b = 45 then (True, r) else if b = 43 then (False, r) else (False, s)
                      | [] \<Rightarrow> (False, s))
      in case parse_decimal s of
           Some d \<Rightarrow> Some (decimal_to_f32 neg d)
         | None \<Rightarrow> if s = lit ''inf'' then Some (Infinity neg)
                   else if s = lit ''NaN'' then Some NaN else None)"

section \<open>Rounding\<close>

lemma round_half_even_cases:
  "round_half_even num den = num div den \<or> round_half_even num den = Suc (num div den)"
  by (simp add: round_half_even_def Let_def)

lemma round_half_even_up:
  assumes "round_half_even num den = Suc (num div den)" "0 < den"
  shows "den \<le> 2 * (num mod den)"
  using assms by (auto simp: round_half_even_def Let_def split: if_splits)

lemma find_first_index:
  assumes "P k" "k < n"
  shows "\<exists>j \<le> k. List.find P [0..<n] = Some j"
proof (cases "List.find P [0..<n]")
  case None
  then have "\<not> P x" if "x \<in> set [0..<n]" for x
    using that by (simp only: find_None_iff) blast
  with assms show ?thesis by simp
next
  case (Some j)
  then obtain i where i: "i < n" "j = i" "\<And>i'. i' < i \<Longrightarrow> \<not> P i'"
    by (auto simp: find_Some_iff)
  have "\<not> k < i" using i(3) assms(1) by blast
  with i Some show ?thesis by auto
qed

lemma f32_scale_split: "k \<le> 149 \<Longrightarrow> f32_scale = 2 ^ k * 2 ^ (149 - k)"
  by (simp add: f32_scale_def flip: power_add)

text \<open>
  A quotient below \<open>2 ^ (24 - j)\<close> rounds to a finite number whose unit in the last place is
  at most \<open>2 ^ - j\<close>.
\<close>

lemma round_f32_finite:
  assumes "num < den * 2 ^ (24 - j)" "j \<le> 24"
  obtains k where "k \<le> 149 - j"
    "round_f32 False num den = Finite False (round_half_even (num * f32_scale) (den * 2 ^ k)) k"
proof -
  have "24 + (149 - j) = (24 - j) + 149" using assms(2) by simp
  then have "den * 2 ^ (24 + (149 - j)) = den * 2 ^ (24 - j) * f32_scale"
    unfolding f32_scale_def by (simp only: power_add mult.assoc)
  moreover have "num * f32_scale < den * 2 ^ (24 - j) * f32_scale"
    using assms(1) by (simp add: f32_scale_def)
  ultimately have bound: "num * f32_scale < den * 2 ^ (24 + (149 - j))" by (simp only:)
  have "149 - j < 254" by simp
  with bound have "\<exists>k \<le> 149 - j. List.find (\<lambda>k. num * f32_scale < den * 2 ^ (24 + k)) [0..<254] = Some k"
    by (rule find_first_index)
  then obtain k where k: "k \<le> 149 - j" "ulp_index num den = Some k"
    unfolding ulp_index_def by blast
  then have "k \<noteq> 253" by simp
  with k that show thesis by (simp add: round_f32_def Let_def)
qed

lemma scaled_quotient:
  assumes "k \<le> 149"
  shows "num * f32_scale div (den * 2 ^ k) div 2 ^ (149 - k) = num div den"
proof -
  have "num * f32_scale div (den * 2 ^ k) div 2 ^ (149 - k) = num * f32_scale div (den * f32_scale)"
    by (simp only: div_mult2_eq [symmetric] mult.assoc f32_scale_split [OF assms])
  also have "\<dots> = num div den" by (simp add: f32_scale_def)
  finally show ?thesis .
qed

lemma ulp_cast: "k \<le> 149 \<Longrightarrow> q * 2 ^ k div f32_scale = q div 2 ^ (149 - k)"
  by (simp add: f32_scale_split mult.commute [of q])

lemma f32_scale_pos [simp]: "0 < f32_scale"
  by (simp add: f32_scale_def)

lemma div_Suc_bound: "(0::nat) < u \<Longrightarrow> Suc q div u \<le> Suc (q div u)"
  by (cases "u dvd Suc q") (auto simp: div_Suc mod_Suc split: if_splits)

text \<open>Rounding up does not reach the next integer when the fraction is coarse.\<close>

lemma round_up_same_integer:
  assumes den: "0 < den" "den \<le> 2 ^ (149 - k)" and k: "k \<le> 149"
    and up: "den * 2 ^ k \<le> 2 * (num * f32_scale mod (den * 2 ^ k))"
  shows "\<not> 2 ^ (149 - k) dvd Suc (num * f32_scale div (den * 2 ^ k))"
proof
  define U D N where "U = (2::nat) ^ (149 - k)" and "D = den * 2 ^ k" and "N = num * f32_scale"
  have DU: "D * U = den * f32_scale" unfolding D_def U_def by (simp add: f32_scale_split [OF k])
  assume "2 ^ (149 - k) dvd Suc (num * f32_scale div (den * 2 ^ k))"
  then obtain t where t: "Suc (N div D) = U * t" unfolding U_def D_def N_def by blast
  have split: "N = D * (N div D) + N mod D" by simp
  have "0 < D" using den(1) by (simp add: D_def)
  then have "N mod D < D" by (rule mod_less_divisor)
  with split have "N < D * Suc (N div D)" unfolding mult_Suc_right by linarith
  have carry: "D * Suc (N div D) = den * t * f32_scale"
  proof -
    have "D * Suc (N div D) = D * U * t" by (simp only: t mult.assoc)
    also have "\<dots> = den * f32_scale * t" by (simp only: DU)
    also have "\<dots> = den * t * f32_scale" by (simp only: ac_simps)
    finally show ?thesis .
  qed
  from \<open>N < D * Suc (N div D)\<close> have "N < den * t * f32_scale" by (simp only: carry)
  then have "num < den * t" by (simp add: N_def)
  then have "Suc num * f32_scale \<le> den * t * f32_scale" by (intro mult_right_mono) auto
  moreover have "N + f32_scale = Suc num * f32_scale" by (simp add: N_def)
  ultimately have le: "N + f32_scale \<le> D * Suc (N div D)" by (simp only: carry)
  have "D \<le> 2 * (N mod D)" using up by (simp add: N_def D_def)
  moreover obtain m r where mr: "D * (N div D) = m" "N mod D = r" by blast
  moreover have "N = m + r" using split by (simp only: mr)
  ultimately have "2 * (D * Suc (N div D)) \<le> 2 * N + D" unfolding mult_Suc_right by simp
  with le have "2 * f32_scale \<le> D" by simp
  also have "D \<le> f32_scale"
    using mult_right_mono [OF den(2), of "2 ^ k"] f32_scale_split [OF k] by (simp add: D_def mult.commute)
  finally show False by simp
qed

lemma u32_of_small: "n < 2 ^ 32 \<Longrightarrow> unat (of_nat n :: u32) = n"
  by (simp add: unat_of_nat)

lemma small_quotient:
  assumes "num < den * 2 ^ (24 - j)"
  shows "Suc (num div den) < 2 ^ 32"
proof -
  have "num div den < 2 ^ (24 - j)" using assms by (simp add: less_mult_imp_div_less mult.commute)
  also have "(2::nat) ^ (24 - j) \<le> 2 ^ 24" by (rule power_increasing) auto
  finally show ?thesis by simp
qed

theorem cast_round_f32_within_one:
  assumes "num < den * 2 ^ 24"
  shows "unat (f32_as_u32 (round_f32 False num den)) \<in> {num div den, Suc (num div den)}"
proof -
  obtain k where k: "k \<le> 149" and
    r: "round_f32 False num den = Finite False (round_half_even (num * f32_scale) (den * 2 ^ k)) k"
    using round_f32_finite [of num den 0] assms by auto
  define q where "q = round_half_even (num * f32_scale) (den * 2 ^ k) div 2 ^ (149 - k)"
  have "q \<in> {num div den, Suc (num div den)}"
    using round_half_even_cases [of "num * f32_scale" "den * 2 ^ k"] scaled_quotient [OF k, of num den]
      div_Suc_bound [of "2 ^ (149 - k)" "num * f32_scale div (den * 2 ^ k)"]
      div_le_mono [of "num * f32_scale div (den * 2 ^ k)" "Suc (num * f32_scale div (den * 2 ^ k))" "2 ^ (149 - k)"]
    unfolding q_def by force
  moreover from this have "q < 2 ^ 32" using small_quotient [of num den 0] assms by auto
  moreover from this have "min (2 ^ 32 - 1) q = q" by simp
  ultimately show ?thesis
    by (simp add: r ulp_cast [OF k] q_def [symmetric] u32_of_small)
qed

theorem cast_round_f32_exact:
  assumes "0 < den" "den \<le> 2 ^ j" "j \<le> 24" "num < den * 2 ^ (24 - j)"
  shows "unat (f32_as_u32 (round_f32 False num den)) = num div den"
proof -
  obtain k where kj: "k \<le> 149 - j" and
    r: "round_f32 False num den = Finite False (round_half_even (num * f32_scale) (den * 2 ^ k)) k"
    using round_f32_finite [OF assms(4,3)] by auto
  have k: "k \<le> 149" using kj by simp
  have "j \<le> 149 - k" using kj assms(3) by simp
  then have "(2::nat) ^ j \<le> 2 ^ (149 - k)" by (rule power_increasing) simp
  with assms(2) have fine: "den \<le> 2 ^ (149 - k)" by (rule order_trans)
  have "round_half_even (num * f32_scale) (den * 2 ^ k) div 2 ^ (149 - k) = num div den"
  proof (cases "round_half_even (num * f32_scale) (den * 2 ^ k) = num * f32_scale div (den * 2 ^ k)")
    case True
    then show ?thesis by (simp only: scaled_quotient [OF k])
  next
    case False
    then have up: "round_half_even (num * f32_scale) (den * 2 ^ k) = Suc (num * f32_scale div (den * 2 ^ k))"
      using round_half_even_cases by blast
    have "\<not> 2 ^ (149 - k) dvd Suc (num * f32_scale div (den * 2 ^ k))"
      using round_half_even_up [OF up] assms(1) by (intro round_up_same_integer fine k) auto
    then have "Suc (num * f32_scale div (den * 2 ^ k)) div 2 ^ (149 - k) =
        num * f32_scale div (den * 2 ^ k) div 2 ^ (149 - k)"
      by (simp add: div_Suc dvd_eq_mod_eq_0)
    then show ?thesis by (simp only: up scaled_quotient [OF k])
  qed
  then show ?thesis
    using small_quotient [OF assms(4)] by (simp add: r ulp_cast [OF k] min_def u32_of_small)
qed

lemma round_half_even_nearest:
  assumes "0 < den"
  shows "\<bar>int (round_half_even num den * den) - int num\<bar> \<le> \<bar>int (m * den) - int num\<bar>"
proof -
  define q r where "q = num div den" and "r = num mod den"
  have num: "num = q * den + r" and r: "r < den" using assms by (simp_all add: q_def r_def)
  have below: "int r \<le> \<bar>int (m * den) - int num\<bar>" if "m \<le> q"
  proof -
    have "m * den \<le> q * den" using that by (rule mult_right_mono) simp
    then show ?thesis unfolding num by linarith
  qed
  have above: "int (den - r) \<le> \<bar>int (m * den) - int num\<bar>" if "Suc q \<le> m"
  proof -
    have "Suc q * den \<le> m * den" using that by (rule mult_right_mono) simp
    then show ?thesis using r unfolding num mult_Suc by linarith
  qed
  consider "round_half_even num den = q" "2 * r \<le> den" | "round_half_even num den = Suc q" "den \<le> 2 * r"
    by (cases "2 * r < den \<or> 2 * r = den \<and> even q") (auto simp: round_half_even_def q_def r_def Let_def)
  then show ?thesis
  proof cases
    case 1
    then have "\<bar>int (round_half_even num den * den) - int num\<bar> = int r" by (simp add: num)
    moreover have "r \<le> den - r" using 1 by simp
    ultimately show ?thesis using below above by (cases "m \<le> q") force+
  next
    case 2
    then have "\<bar>int (round_half_even num den * den) - int num\<bar> = int (den - r)" using r by (simp add: num of_nat_diff)
    moreover have "den - r \<le> r" using 2 by simp
    ultimately show ?thesis using below above by (cases "m \<le> q") force+
  qed
qed

text \<open>
  Rounding gives a nearest number of the format: no significand of at most 24 bits and no unit in the last place is closer to the quotient.
\<close>

lemma round_f32_nearest:
  assumes "round_f32 neg num den = Finite neg q k" "0 < den" "q' \<le> 2 ^ 24"
  shows "\<bar>int (q * 2 ^ k * den) - int (num * f32_scale)\<bar> \<le> \<bar>int (q' * 2 ^ k' * den) - int (num * f32_scale)\<bar>"
proof -
  let ?x = "num * f32_scale" and ?D = "den * 2 ^ k"
  from assms(1) have u: "ulp_index num den = Some k" and q: "q = round_half_even ?x ?D"
    by (auto simp: round_f32_def Let_def split: option.splits if_splits)
  have near: "\<bar>int (q * 2 ^ k * den) - int ?x\<bar> \<le> \<bar>int (m * 2 ^ k * den) - int ?x\<bar>" for m
    using round_half_even_nearest [of ?D ?x m] assms(2) by (simp add: q ac_simps)
  show ?thesis
  proof (cases "k \<le> k'")
    case True
    then have "q' * 2 ^ k' = q' * 2 ^ (k' - k) * 2 ^ k" by (simp flip: power_add)
    then show ?thesis using near [of "q' * 2 ^ (k' - k)"] by (simp only:)
  next
    case False
    from u have "\<forall>j < k. \<not> ?x < den * 2 ^ (24 + j)" by (auto simp: ulp_index_def find_Some_iff)
    moreover have "k - 1 < k" using False by simp
    ultimately have "den * 2 ^ (24 + (k - 1)) \<le> ?x" by (metis not_le)
    moreover have "24 + (k - 1) = 23 + k" using False by simp
    ultimately have x: "2 ^ 23 * 2 ^ k * den \<le> ?x" by (metis mult.commute power_add)
    have "q' * 2 ^ k' \<le> 2 ^ 24 * 2 ^ (k - 1)" using False assms(3) by (intro mult_mono power_increasing) auto
    also have "\<dots> = 2 ^ 23 * 2 ^ k" using \<open>24 + (k - 1) = 23 + k\<close> by (simp only: flip: power_add)
    finally have "q' * 2 ^ k' * den \<le> 2 ^ 23 * 2 ^ k * den" by (rule mult_right_mono) simp
    with x have "\<bar>int (2 ^ 23 * 2 ^ k * den) - int ?x\<bar> \<le> \<bar>int (q' * 2 ^ k' * den) - int ?x\<bar>" by linarith
    with near [of "2 ^ 23"] show ?thesis by linarith
  qed
qed
section \<open>Parsing what is printed\<close>

lemma digit_of_digit_byte: "d < 10 \<Longrightarrow> digit_of (digit_byte d) = Some d"
proof -
  assume "d < 10"
  then have "d \<in> set [0..<10]" by simp
  moreover have "\<forall>d \<in> set [0..<10]. digit_of (digit_byte d) = Some d"
    by (simp add: digit_byte_def digit_of_def upt_rec)
  ultimately show ?thesis by blast
qed

lemma eat_digits_append:
  assumes "\<forall>d \<in> set ds. d < 10" and "rest = [] \<or> digit_of (hd rest) = None"
  shows "eat_digits (map digit_byte ds @ rest) = (ds, rest)"
  using assms by (induction ds) (cases rest; auto simp: digit_of_digit_byte)+

lemma parse_decimal_fixed:
  assumes "\<forall>d \<in> set (is @ fs). d < 10" "is \<noteq> []"
  shows "parse_decimal (map digit_byte is @ 46 # map digit_byte fs) = Some (is, fs, 0)"
proof -
  have "eat_digits (map digit_byte is @ 46 # map digit_byte fs) = (is, 46 # map digit_byte fs)"
    using assms(1) by (intro eat_digits_append) (auto simp: digit_of_def)
  moreover have "eat_digits (map digit_byte fs) = (fs, [])"
    using eat_digits_append [of fs "[]"] assms(1) by simp
  ultimately show ?thesis
    using assms(2) by (simp add: parse_decimal_def is_exp_byte_def)
qed

lemma digit_byte_no_sign: "d < 10 \<Longrightarrow> digit_byte d \<noteq> 45 \<and> digit_byte d \<noteq> 43"
  using digit_of_digit_byte [of d] by (auto simp: digit_of_def)

lemma parse_f32_fixed:
  assumes "\<forall>d \<in> set (is @ fs). d < 10" "is \<noteq> []"
  shows "parse_f32 (map digit_byte is @ 46 # map digit_byte fs) =
    Some (round_f32 False (digits_value 10 (is @ fs)) (10 ^ length fs))"
proof -
  obtain i is' where i: "is = i # is'" using assms(2) by (cases "is") auto
  with assms(1) have "digit_byte i \<noteq> 45 \<and> digit_byte i \<noteq> 43" by (intro digit_byte_no_sign) auto
  then show ?thesis
    using parse_decimal_fixed [OF assms] by (simp add: i parse_f32_def decimal_to_f32_def)
qed

end
