(* ===== verification/Client_Types.thy ===== *)
theory Client_Types
  imports Rust_F32
begin

text \<open>
  The data types of the client pallet, \<^verbatim>\<open>client/src/lib.rs\<close>: the price record fetched from
  the exchange, the JSON-RPC requests for the Ethereum node, their \<^verbatim>\<open>Serialize\<close>,
  \<^verbatim>\<open>Debug\<close> and \<^verbatim>\<open>Deserialize\<close> implementations. A serialized value is a tree of the
  calls made on the serializer; what \<^verbatim>\<open>serde_json\<close> does with the tree, and how it takes a
  JSON text apart, are fields of \<open>json_api\<close>.
\<close>

section \<open>Structs\<close>

record light_client =
  lc_price :: bytes
  lc_time :: bytes

record eth_params =
  ep_from :: bytes
  ep_to :: bytes
  ep_data :: bytes
  ep_value :: bytes
  ep_gas :: bytes
  ep_gas_price :: bytes

record eth_transaction =
  et_jsonrpc :: bytes
  et_id :: u8
  et_method :: bytes
  et_params :: "eth_params list"

record gas_request_param =
  gp_from :: bytes
  gp_to :: bytes
  gp_data :: bytes
  gp_value :: bytes

record estimate_gas_request =
  eg_jsonrpc :: bytes
  eg_id :: u8
  eg_method :: bytes
  eg_params :: "gas_request_param list"

record eth_result =
  er_jsonrpc :: bytes
  er_id :: u8
  er_result :: bytes

text \<open>The payload of a signed submission, and its signer; the pallet declares these and does not build them.\<close>

record 'pub payload =
  payload_number :: u64
  payload_public :: 'pub

definition signed_payload_public :: "'pub payload \<Rightarrow> 'pub" where
  "signed_payload_public p = payload_public p"

record eth_payload =
  pay_eth_host :: bytes
  pay_from_address :: bytes
  pay_to_address :: bytes

datatype indexing_data = IndexingData bytes u64

text \<open>The two values written to the off-chain index.\<close>

datatype indexing_price_data = IndexingPriceData bytes bytes

datatype indexing_price_flag = IndexingPriceFlag bytes bytes bytes bytes

section \<open>Serialize\<close>

datatype ser = SerStr str | SerU8 u8 | SerSeq "ser list" | SerStruct str nat "(str \<times> ser) list"

text \<open>\<^verbatim>\<open>serialize_field(name, str::from_utf8(&field).unwrap())\<close> panics on bad UTF-8.\<close>

definition ser_text :: "bytes \<Rightarrow> (ser, 'e) outcome" where
  "ser_text bs = obind (unwrap_option (from_utf8 bs)) (\<lambda>s. Ok (SerStr s))"

fun ser_fields :: "(str \<times> (ser, 'e) outcome) list \<Rightarrow> ((str \<times> ser) list, 'e) outcome" where
  "ser_fields [] = Ok []"
| "ser_fields ((name, m) # fs) = obind m (\<lambda>v. obind (ser_fields fs) (\<lambda>vs. Ok ((name, v) # vs)))"

fun ser_seq :: "('a \<Rightarrow> (ser, 'e) outcome) \<Rightarrow> 'a list \<Rightarrow> (ser list, 'e) outcome" where
  "ser_seq f [] = Ok []"
| "ser_seq f (x # xs) = obind (f x) (\<lambda>v. obind (ser_seq f xs) (\<lambda>vs. Ok (v # vs)))"

definition serialize_eth_params :: "eth_params \<Rightarrow> (ser, 'e) outcome" where
  "serialize_eth_params p =
     obind (ser_fields
       [(lit ''from'', ser_text (ep_from p)),
        (lit ''to'', ser_text (ep_to p)),
        (lit ''data'', ser_text (ep_data p)),
        (lit ''value'', ser_text (ep_value p)),
        (lit ''gas'', ser_text (ep_gas p)),
        (lit ''gasPrice'', ser_text (ep_gas_price p))])
     (\<lambda>fs. Ok (SerStruct (lit ''EthParams'') 6 fs))"

definition serialize_eth_transaction :: "eth_transaction \<Rightarrow> (ser, 'e) outcome" where
  "serialize_eth_transaction t =
     obind (ser_fields
       [(lit ''jsonrpc'', ser_text (et_jsonrpc t)),
        (lit ''id'', Ok (SerU8 (et_id t))),
        (lit ''method'', ser_text (et_method t)),
        (lit ''params'', obind (ser_seq serialize_eth_params (et_params t)) (\<lambda>vs. Ok (SerSeq vs)))])
     (\<lambda>fs. Ok (SerStruct (lit ''EthParams'') 4 fs))"

definition serialize_gas_request_param :: "gas_request_param \<Rightarrow> (ser, 'e) outcome" where
  "serialize_gas_request_param p =
     obind (ser_fields
       [(lit ''from'', ser_text (gp_from p)),
        (lit ''to'', ser_text (gp_to p)),
        (lit ''data'', ser_text (gp_data p)),
        (lit ''value'', ser_text (gp_value p))])
     (\<lambda>fs. Ok (SerStruct (lit ''EthParams'') 4 fs))"

definition serialize_estimate_gas_request :: "estimate_gas_request \<Rightarrow> (ser, 'e) outcome" where
  "serialize_estimate_gas_request r =
     obind (ser_fields
       [(lit ''jsonrpc'', ser_text (eg_jsonrpc r)),
        (lit ''id'', Ok (SerU8 (eg_id r))),
        (lit ''method'', ser_text (eg_method r)),
        (lit ''params'', obind (ser_seq serialize_gas_request_param (eg_params r)) (\<lambda>vs. Ok (SerSeq vs)))])
     (\<lambda>fs. Ok (SerStruct (lit ''EthParams'') 4 fs))"

section \<open>Deserialize\<close>

text \<open>
  The JSON library: \<open>json_struct\<close> takes a text and the field names of a struct and gives the
  deserializers of the fields in that order (or fails); \<open>de_str\<close> reads a field as a borrowed
  \<^verbatim>\<open>&str\<close> (which the library refuses for a text that is written with escapes), \<open>de_u8\<close> as a byte; \<open>to_vec\<close> prints a serialized value.
\<close>

record 'd json_api =
  json_struct :: "str \<Rightarrow> str list \<Rightarrow> 'd list option"
  de_str :: "'d \<Rightarrow> str option"
  de_u8 :: "'d \<Rightarrow> u8 option"
  to_vec :: "ser \<Rightarrow> bytes option"

text \<open>The type \<^verbatim>\<open>&str\<close> promises well-formed UTF-8.\<close>

definition json_text_valid :: "'d json_api \<Rightarrow> bool" where
  "json_text_valid api \<longleftrightarrow> (\<forall>d s. de_str api d = Some s \<longrightarrow> utf8_valid s)"

definition de_string_to_bytes :: "'d json_api \<Rightarrow> 'd \<Rightarrow> bytes option" where
  "de_string_to_bytes api d = (case de_str api d of None \<Rightarrow> None | Some s \<Rightarrow> Some s)"

definition light_client_from_str :: "'d json_api \<Rightarrow> str \<Rightarrow> light_client option" where
  "light_client_from_str api s =
     (case json_struct api s [lit ''price'', lit ''time''] of
        Some [p, t] \<Rightarrow>
          (case (de_string_to_bytes api p, de_string_to_bytes api t) of
             (Some pr, Some ti) \<Rightarrow> Some \<lparr>lc_price = pr, lc_time = ti\<rparr>
           | _ \<Rightarrow> None)
      | _ \<Rightarrow> None)"

definition eth_result_from_str :: "'d json_api \<Rightarrow> str \<Rightarrow> eth_result option" where
  "eth_result_from_str api s =
     (case json_struct api s [lit ''jsonrpc'', lit ''id'', lit ''result''] of
        Some [j, i, r] \<Rightarrow>
          (case (de_string_to_bytes api j, de_u8 api i, de_string_to_bytes api r) of
             (Some jr, Some n, Some re) \<Rightarrow> Some \<lparr>er_jsonrpc = jr, er_id = n, er_result = re\<rparr>
           | _ \<Rightarrow> None)
      | _ \<Rightarrow> None)"

lemma light_client_from_str_valid:
  "json_text_valid api \<Longrightarrow> light_client_from_str api s = Some c \<Longrightarrow> utf8_valid (lc_price c) \<and> utf8_valid (lc_time c)"
  by (auto simp: light_client_from_str_def de_string_to_bytes_def json_text_valid_def
      split: option.splits list.splits)

lemma eth_result_from_str_valid:
  "json_text_valid api \<Longrightarrow> eth_result_from_str api s = Some r \<Longrightarrow> utf8_valid (er_jsonrpc r) \<and> utf8_valid (er_result r)"
  by (auto simp: eth_result_from_str_def de_string_to_bytes_def json_text_valid_def
      split: option.splits list.splits)

section \<open>Debug\<close>

text \<open>
  Formatting writes text and ends well or with \<^verbatim>\<open>fmt::Error\<close>. The fields are converted
  before anything is written; the debug text of a vector is written element by element.
\<close>

type_synonym fmt = "str \<times> bool"

definition with_text :: "bytes list \<Rightarrow> fmt \<Rightarrow> fmt" where
  "with_text bss k = (if list_all (\<lambda>bs. from_utf8 bs \<noteq> None) bss then k else ([], False))"

fun write_all :: "fmt list \<Rightarrow> fmt" where
  "write_all [] = ([], True)"
| "write_all ((s, ok) # ps) = (if ok then (let (t, ok') = write_all ps in (s @ t, ok')) else (s, False))"

fun debug_elems :: "('a \<Rightarrow> fmt) \<Rightarrow> 'a list \<Rightarrow> fmt list" where
  "debug_elems f [] = []"
| "debug_elems f [x] = [f x]"
| "debug_elems f (x # xs) = f x # (lit '', '', True) # debug_elems f xs"

definition debug_vec :: "('a \<Rightarrow> fmt) \<Rightarrow> 'a list \<Rightarrow> fmt" where
  "debug_vec f xs = write_all ((lit ''['', True) # debug_elems f xs @ [(lit '']'', True)])"

definition debug_light_client :: "light_client \<Rightarrow> fmt" where
  "debug_light_client c = with_text [lc_price c, lc_time c]
     (lit ''{ price: '' @ lc_price c @ lit '', time: '' @ lc_time c @ lit '' }'', True)"

definition debug_eth_params :: "eth_params \<Rightarrow> fmt" where
  "debug_eth_params p =
     with_text [ep_from p, ep_to p, ep_data p, ep_value p, ep_gas p, ep_gas_price p]
       (lit ''{ from: '' @ ep_from p @ lit '', to: '' @ ep_to p @ lit '', data: '' @ ep_data p @
        lit '', value: '' @ ep_value p @ lit '',gas: '' @ ep_gas p @ lit '', gasPrice: '' @ ep_gas_price p @ lit '' }'', True)"

definition debug_eth_transaction :: "eth_transaction \<Rightarrow> fmt" where
  "debug_eth_transaction t = with_text [et_jsonrpc t, et_method t]
     (write_all
       [(lit ''{ jsonrpc: '' @ et_jsonrpc t @ lit '', id: '' @ fmt_dec (unat (et_id t)) @ lit '',method: '' @ et_method t @ lit '',params: ['', True),
        debug_vec debug_eth_params (et_params t),
        (lit '']  }'', True)])"

definition debug_gas_request_param :: "gas_request_param \<Rightarrow> fmt" where
  "debug_gas_request_param p = with_text [gp_from p, gp_to p, gp_data p, gp_value p]
     (lit ''{ from: '' @ gp_from p @ lit '', to: '' @ gp_to p @ lit '', data: '' @ gp_data p @ lit '', value: '' @ gp_value p @ lit '' }'', True)"

definition debug_estimate_gas_request :: "estimate_gas_request \<Rightarrow> fmt" where
  "debug_estimate_gas_request r = with_text [eg_jsonrpc r, eg_method r]
     (write_all
       [(lit ''{ jsonrpc: '' @ eg_jsonrpc r @ lit '', id: '' @ fmt_dec (unat (eg_id r)) @ lit '',method: '' @ eg_method r @ lit '',params: ['', True),
        debug_vec debug_gas_request_param (eg_params r),
        (lit '']  }'', True)])"

definition debug_eth_result :: "eth_result \<Rightarrow> fmt" where
  "debug_eth_result r = with_text [er_jsonrpc r, er_result r]
     (lit ''{ jsonrpc: '' @ er_jsonrpc r @ lit '', id: '' @ fmt_dec (unat (er_id r)) @ lit '',result: '' @ er_result r @ lit '' }'', True)"

section \<open>When serialization and formatting succeed\<close>

definition eth_params_text :: "eth_params \<Rightarrow> bool" where
  "eth_params_text p \<longleftrightarrow> utf8_valid (ep_from p) \<and> utf8_valid (ep_to p) \<and> utf8_valid (ep_data p) \<and>
     utf8_valid (ep_value p) \<and> utf8_valid (ep_gas p) \<and> utf8_valid (ep_gas_price p)"

definition eth_transaction_text :: "eth_transaction \<Rightarrow> bool" where
  "eth_transaction_text t \<longleftrightarrow> utf8_valid (et_jsonrpc t) \<and> utf8_valid (et_method t) \<and>
     list_all eth_params_text (et_params t)"

definition gas_request_param_text :: "gas_request_param \<Rightarrow> bool" where
  "gas_request_param_text p \<longleftrightarrow> utf8_valid (gp_from p) \<and> utf8_valid (gp_to p) \<and>
     utf8_valid (gp_data p) \<and> utf8_valid (gp_value p)"

definition estimate_gas_request_text :: "estimate_gas_request \<Rightarrow> bool" where
  "estimate_gas_request_text r \<longleftrightarrow> utf8_valid (eg_jsonrpc r) \<and> utf8_valid (eg_method r) \<and>
     list_all gas_request_param_text (eg_params r)"

lemma ser_text_eq: "ser_text bs = (if utf8_valid bs then Ok (SerStr bs) else Panic)"
  by (cases "utf8_valid bs") (simp_all add: ser_text_def from_utf8_def)

lemma ser_seq_panic_iff:
  "(\<And>x e. f x \<noteq> Err e) \<Longrightarrow> ser_seq f xs = Panic \<longleftrightarrow> \<not> list_all (\<lambda>x. f x \<noteq> Panic) xs"
proof (induction xs)
  case (Cons x xs)
  then show ?case by (cases "f x"; cases "ser_seq f xs") auto
qed simp

lemma ser_seq_no_err: "(\<And>x e. f x \<noteq> Err e) \<Longrightarrow> ser_seq f xs \<noteq> Err e"
proof (induction xs)
  case (Cons x xs)
  then show ?case by (cases "f x"; cases "ser_seq f xs") auto
qed simp

lemma serialize_eth_params_panic_iff: "serialize_eth_params p = Panic \<longleftrightarrow> \<not> eth_params_text p"
  by (simp add: serialize_eth_params_def ser_text_eq eth_params_text_def)

lemma serialize_eth_params_no_err: "serialize_eth_params p \<noteq> Err e"
  by (simp add: serialize_eth_params_def ser_text_eq)

lemma serialize_gas_request_param_panic_iff: "serialize_gas_request_param p = Panic \<longleftrightarrow> \<not> gas_request_param_text p"
  by (simp add: serialize_gas_request_param_def ser_text_eq gas_request_param_text_def)

lemma serialize_gas_request_param_no_err: "serialize_gas_request_param p \<noteq> Err e"
  by (simp add: serialize_gas_request_param_def ser_text_eq)

lemma serialize_eth_transaction_panic_iff:
  "(serialize_eth_transaction t :: (ser, 'e) outcome) = Panic \<longleftrightarrow> \<not> eth_transaction_text t"
proof -
  have "(ser_seq serialize_eth_params (et_params t) :: (ser list, 'e) outcome) = Panic \<longleftrightarrow> \<not> list_all eth_params_text (et_params t)"
    by (simp add: ser_seq_panic_iff serialize_eth_params_no_err serialize_eth_params_panic_iff)
  then show ?thesis
    using ser_seq_no_err [of "serialize_eth_params :: _ \<Rightarrow> (ser, 'e) outcome", OF serialize_eth_params_no_err]
    by (cases "ser_seq serialize_eth_params (et_params t) :: (ser list, 'e) outcome")
      (auto simp: serialize_eth_transaction_def ser_text_eq eth_transaction_text_def)
qed

lemma serialize_estimate_gas_request_panic_iff:
  "(serialize_estimate_gas_request r :: (ser, 'e) outcome) = Panic \<longleftrightarrow> \<not> estimate_gas_request_text r"
proof -
  have "(ser_seq serialize_gas_request_param (eg_params r) :: (ser list, 'e) outcome) = Panic \<longleftrightarrow> \<not> list_all gas_request_param_text (eg_params r)"
    by (simp add: ser_seq_panic_iff serialize_gas_request_param_no_err serialize_gas_request_param_panic_iff)
  then show ?thesis
    using ser_seq_no_err [of "serialize_gas_request_param :: _ \<Rightarrow> (ser, 'e) outcome", OF serialize_gas_request_param_no_err]
    by (cases "ser_seq serialize_gas_request_param (eg_params r) :: (ser list, 'e) outcome")
      (auto simp: serialize_estimate_gas_request_def ser_text_eq estimate_gas_request_text_def)
qed

lemma serialize_no_err:
  "(serialize_eth_transaction x :: (ser, 'e) outcome) \<noteq> Err e"
  "(serialize_estimate_gas_request y :: (ser, 'e) outcome) \<noteq> Err e"
proof -
  show "(serialize_eth_transaction x :: (ser, 'e) outcome) \<noteq> Err e"
    using ser_seq_no_err [of "serialize_eth_params :: _ \<Rightarrow> (ser, 'e) outcome", OF serialize_eth_params_no_err]
    by (cases "ser_seq serialize_eth_params (et_params x) :: (ser list, 'e) outcome")
      (auto simp: serialize_eth_transaction_def ser_text_eq)
  show "(serialize_estimate_gas_request y :: (ser, 'e) outcome) \<noteq> Err e"
    using ser_seq_no_err [of "serialize_gas_request_param :: _ \<Rightarrow> (ser, 'e) outcome", OF serialize_gas_request_param_no_err]
    by (cases "ser_seq serialize_gas_request_param (eg_params y) :: (ser list, 'e) outcome")
      (auto simp: serialize_estimate_gas_request_def ser_text_eq)
qed

lemma snd_with_text [simp]: "snd (with_text bss k) \<longleftrightarrow> list_all utf8_valid bss \<and> snd k"
  by (auto simp: with_text_def list_all_iff)

lemma snd_write_all [simp]: "snd (write_all ps) \<longleftrightarrow> list_all snd ps"
  by (induction ps rule: write_all.induct) (auto split: prod.splits)

declare write_all.simps [simp del]

lemma snd_debug_vec [simp]: "snd (debug_vec f xs) \<longleftrightarrow> list_all (\<lambda>x. snd (f x)) xs"
proof -
  have "list_all snd (debug_elems f xs) \<longleftrightarrow> list_all (\<lambda>x. snd (f x)) xs"
    by (induction f xs rule: debug_elems.induct) auto
  then show ?thesis by (simp add: debug_vec_def)
qed

text \<open>
  Serializing a request panics exactly when one of its text fields (those of its
  parameters included) is not UTF-8, and the \<open>Debug\<close> text of the same request ends in an error
  exactly then: a request that can be printed can be sent.
\<close>

lemma eth_transaction_serializable_iff_printable:
  "(serialize_eth_transaction t = Panic \<longleftrightarrow> \<not> eth_transaction_text t) \<and>
   (snd (debug_eth_transaction t) \<longleftrightarrow> eth_transaction_text t) \<and>
   (serialize_estimate_gas_request r = Panic \<longleftrightarrow> \<not> estimate_gas_request_text r) \<and>
   (snd (debug_estimate_gas_request r) \<longleftrightarrow> estimate_gas_request_text r)"
proof -
  have "snd (debug_eth_params p) \<longleftrightarrow> eth_params_text p" for p
    by (simp add: debug_eth_params_def eth_params_text_def)
  moreover have "snd (debug_gas_request_param p) \<longleftrightarrow> gas_request_param_text p" for p
    by (simp add: debug_gas_request_param_def gas_request_param_text_def)
  ultimately show ?thesis
    by (auto simp: serialize_eth_transaction_panic_iff serialize_estimate_gas_request_panic_iff
        debug_eth_transaction_def debug_estimate_gas_request_def eth_transaction_text_def
        estimate_gas_request_text_def list_all_iff)
qed

end
