(* ===== verification/Client_Pallet.thy ===== *)
theory Client_Pallet
  imports Client_Types
begin

text \<open>
  The on-chain half of the client pallet, \<^verbatim>\<open>client/src/lib.rs\<close>: its constants, storage,
  events, errors and two dispatchables, the key of the off-chain index under which a block
  leaves its request for the off-chain worker, and the validation of unsigned transactions.
  The SCALE codec and the origin checks of FRAME are arguments.
\<close>

section \<open>Constants\<close>

definition KEY_TYPE :: bytes where
  "KEY_TYPE = lit ''demo''"

definition UNSIGNED_TXS_PRIORITY :: u64 where
  "UNSIGNED_TXS_PRIORITY = 100"

definition HTTP_REMOTE_REQUEST :: str where
  "HTTP_REMOTE_REQUEST = lit ''https://api.pro.coinbase.com/products/ETH-USD/ticker''"

definition HTTP_HEADER_USER_AGENT :: str where
  "HTTP_HEADER_USER_AGENT = lit ''jaminu71@gmail.com''"

definition HTTP_ETHEREUM_HOST :: str where
  "HTTP_ETHEREUM_HOST = lit ''http://127.0.0.1:8080''"

definition FETCH_TIMEOUT_PERIOD :: u64 where
  "FETCH_TIMEOUT_PERIOD = 3000"

definition LOCK_TIMEOUT_EXPIRATION :: u64 where
  "LOCK_TIMEOUT_EXPIRATION = FETCH_TIMEOUT_PERIOD + 1000"

definition LOCK_BLOCK_EXPIRATION :: u32 where
  "LOCK_BLOCK_EXPIRATION = 3"

definition ONCHAIN_TX_KEY :: bytes where
  "ONCHAIN_TX_KEY = lit ''ocw-demo::storage::tx''"

section \<open>Storage, events, errors\<close>

datatype 'acc client_event =
    NewNumber "'acc option" u64
  | UpdateEthereumPrice "'acc option"
  | SubmitEthereumPrice "'acc option" bytes

datatype client_error =
    UnknownOffchainMux
  | NoLocalAcctForSigning
  | OffchainSignedTxError
  | OffchainUnsignedTxError
  | OffchainUnsignedTxSignedPayloadError
  | HttpFetchingError
  | HttpNotParsedInStruct
  | ParseFloatError
  | GetParamError

text \<open>What a dispatchable can fail with: the origin error, or an error of the pallet.\<close>

datatype client_dispatch_error = ClientBadOrigin | ClientModule client_error

record 'acc client_state =
  Numbers :: "u64 list"
  client_events :: "'acc client_event list"
  offchain_index :: "bytes \<rightharpoonup> bytes"

definition empty_client_state :: "'acc client_state" where
  "empty_client_state = \<lparr>Numbers = [], client_events = [], offchain_index = Map.empty\<rparr>"

text \<open>
  The codec: \<^verbatim>\<open>Encode\<close> of the block number and the index entries, \<^verbatim>\<open>Encode\<close> and
  \<^verbatim>\<open>Decode\<close> of what the worker reads back.
\<close>

record 'bn client_codec =
  encode_block_number :: "'bn \<Rightarrow> bytes"
  encode_price_data :: "indexing_price_data \<Rightarrow> bytes"
  encode_price_flag :: "indexing_price_flag \<Rightarrow> bytes"
  decode_price_flag :: "bytes \<Rightarrow> indexing_price_flag option"
  encode_light_client :: "light_client \<Rightarrow> bytes"
  decode_light_client :: "bytes \<Rightarrow> light_client option"

record ('o, 'acc) client_config =
  c_ensure_none :: "'o \<Rightarrow> bool"
  c_ensure_signed :: "'o \<Rightarrow> 'acc option"

text \<open>The laws of SCALE that the pallet relies on.\<close>

definition codec_roundtrip :: "'bn client_codec \<Rightarrow> bool" where
  "codec_roundtrip k \<longleftrightarrow>
     (\<forall>f. decode_price_flag k (encode_price_flag k f) = Some f) \<and>
     (\<forall>c. decode_light_client k (encode_light_client k c) = Some c)"

definition codec_block_inj :: "'bn client_codec \<Rightarrow> bool" where
  "codec_block_inj k \<longleftrightarrow> inj (encode_block_number k)"

text \<open>Two encoded vectors are too short an input for a decoder of four.\<close>

definition codec_short_input :: "'bn client_codec \<Rightarrow> bool" where
  "codec_short_input k \<longleftrightarrow> (\<forall>d. decode_price_flag k (encode_price_data k d) = None)"

section \<open>Calls\<close>

definition derived_key :: "'bn client_codec \<Rightarrow> 'bn \<Rightarrow> bytes" where
  "derived_key k block_number = ONCHAIN_TX_KEY @ lit ''/'' @ encode_block_number k block_number"

definition client_deposit :: "'acc client_event \<Rightarrow> 'acc client_state \<Rightarrow> 'acc client_state" where
  "client_deposit ev st = st\<lparr>client_events := client_events st @ [ev]\<rparr>"

definition offchain_index_set :: "bytes \<Rightarrow> bytes \<Rightarrow> 'acc client_state \<Rightarrow> 'acc client_state" where
  "offchain_index_set key v st = st\<lparr>offchain_index := (offchain_index st)(key \<mapsto> v)\<rparr>"

type_synonym 'acc client_handler = "(client_dispatch_error, unit, 'acc client_state) dispatchable"

definition submit_ethereum_price ::
  "'bn client_codec \<Rightarrow> ('o, 'acc) client_config \<Rightarrow> 'o \<times> 'bn \<Rightarrow> bytes \<Rightarrow> 'acc client_handler" where
  "submit_ethereum_price k cfg ctx ethereum_price =
     ensure (c_ensure_none cfg (fst ctx)) ClientBadOrigin (\<lambda>st.
       let key = derived_key k (snd ctx);
           data = IndexingPriceData (lit ''submit_ethereum_price'') ethereum_price;
           st = offchain_index_set key (encode_price_data k data) st
       in (Inr (), client_deposit (SubmitEthereumPrice None ethereum_price) st))"

definition update_ethereum_price ::
  "'bn client_codec \<Rightarrow> ('o, 'acc) client_config \<Rightarrow> 'o \<times> 'bn \<Rightarrow> bytes \<Rightarrow> bytes \<Rightarrow> bytes \<Rightarrow> 'acc client_handler" where
  "update_ethereum_price k cfg ctx eth_host from_address to_address =
     try_let ClientBadOrigin (c_ensure_signed cfg (fst ctx)) (\<lambda>who st.
       let key = derived_key k (snd ctx);
           data = IndexingPriceFlag (lit ''update_ethereum_price'') eth_host from_address to_address;
           st = offchain_index_set key (encode_price_flag k data) st
       in (Inr (), client_deposit (UpdateEthereumPrice (Some who)) st))"

datatype client_call =
    Call_submit_ethereum_price bytes
  | Call_update_ethereum_price bytes bytes bytes

fun client_dispatch ::
  "'bn client_codec \<Rightarrow> ('o, 'acc) client_config \<Rightarrow> 'o \<times> 'bn \<Rightarrow> client_call \<Rightarrow> 'acc client_handler" where
  "client_dispatch k cfg ctx (Call_submit_ethereum_price p) = submit_ethereum_price k cfg ctx p"
| "client_dispatch k cfg ctx (Call_update_ethereum_price h f t) = update_ethereum_price k cfg ctx h f t"

fun client_weight :: "client_call \<Rightarrow> u64" where
  "client_weight (Call_submit_ethereum_price _) = 10000"
| "client_weight (Call_update_ethereum_price _ _ _) = 10000"

section \<open>Validation of unsigned transactions\<close>

datatype transaction_source = InBlock | Local | External

record valid_transaction =
  vt_tag_prefix :: str
  vt_priority :: u64
  vt_provides :: "bytes list"
  vt_longevity :: u64
  vt_propagate :: bool

datatype invalid_transaction = InvalidCall

definition validate_unsigned ::
  "transaction_source \<Rightarrow> client_call \<Rightarrow> invalid_transaction + valid_transaction" where
  "validate_unsigned source call =
     (let valid_tx = (\<lambda>provide. Inr
            \<lparr>vt_tag_prefix = lit ''ocw-demo'', vt_priority = UNSIGNED_TXS_PRIORITY,
             vt_provides = [provide], vt_longevity = 3, vt_propagate = True\<rparr>)
      in case call of
           Call_submit_ethereum_price _ \<Rightarrow> valid_tx (lit ''submit_ethereum_price'')
         | _ \<Rightarrow> Inl InvalidCall)"

section \<open>What the calls do\<close>

text \<open>The entry a call leaves in the off-chain index, and the event it deposits.\<close>

fun index_entry :: "'bn client_codec \<Rightarrow> client_call \<Rightarrow> bytes" where
  "index_entry k (Call_submit_ethereum_price p) =
     encode_price_data k (IndexingPriceData (lit ''submit_ethereum_price'') p)"
| "index_entry k (Call_update_ethereum_price h f t) =
     encode_price_flag k (IndexingPriceFlag (lit ''update_ethereum_price'') h f t)"

fun call_event :: "('o, 'acc) client_config \<Rightarrow> 'o \<Rightarrow> client_call \<Rightarrow> 'acc client_event option" where
  "call_event cfg org (Call_submit_ethereum_price p) =
     (if c_ensure_none cfg org then Some (SubmitEthereumPrice None p) else None)"
| "call_event cfg org (Call_update_ethereum_price h f t) =
     map_option (\<lambda>who. UpdateEthereumPrice (Some who)) (c_ensure_signed cfg org)"

lemma client_dispatch_eq:
  "client_dispatch k cfg (org, bn) c st =
     (case call_event cfg org c of
        None \<Rightarrow> (Inl ClientBadOrigin, st)
      | Some ev \<Rightarrow> (Inr (), st\<lparr>client_events := client_events st @ [ev],
          offchain_index := (offchain_index st)(derived_key k bn \<mapsto> index_entry k c)\<rparr>))"
  by (cases c) (auto simp: submit_ethereum_price_def update_ethereum_price_def client_deposit_def
      offchain_index_set_def Let_def ensure_def try_let_def split: option.split)

interpretation client_atomic: atomic_machine "client_dispatch k cfg"
  for k :: "'bn client_codec" and cfg :: "('o, 'acc) client_config"
proof
  fix ctx c e and s s' :: "'acc client_state"
  assume "client_dispatch k cfg ctx c s = (Inl e, s')"
  then show "s' = s"
    by (cases ctx) (auto simp: client_dispatch_eq split: option.splits)
qed

lemma derived_key_inj: "codec_block_inj k \<Longrightarrow> derived_key k a = derived_key k b \<longleftrightarrow> a = b"
  by (auto simp: derived_key_def codec_block_inj_def dest: injD)

text \<open>
  The specification of the index: the entry of a block is the one of the last accepted
  call of that block.
\<close>

definition accepted :: "('o, 'acc) client_config \<Rightarrow> 'bn \<Rightarrow> (('o \<times> 'bn) \<times> client_call) list \<Rightarrow> client_call list" where
  "accepted cfg bn cs =
     map snd (filter (\<lambda>((org, b), c). b = bn \<and> call_event cfg org c \<noteq> None) cs)"

lemma accepted_Cons:
  "accepted cfg bn (((org, b), c) # cs) =
     (if b = bn \<and> call_event cfg org c \<noteq> None then [c] else []) @ accepted cfg bn cs"
  by (auto simp: accepted_def)

lemma run_index:
  assumes "codec_block_inj k"
  shows "offchain_index (run_calls (client_dispatch k cfg) cs st) (derived_key k bn) =
     (if accepted cfg bn cs = [] then offchain_index st (derived_key k bn)
      else Some (index_entry k (last (accepted cfg bn cs))))"
proof (induction cs arbitrary: st)
  case (Cons x cs)
  obtain org b c where x: "x = ((org, b), c)" by (metis prod.collapse)
  show ?case
    by (simp add: x Cons.IH accepted_Cons client_dispatch_eq derived_key_inj [OF assms] split: option.split)
qed (simp add: accepted_def)

lemma run_numbers: "Numbers (run_calls (client_dispatch k cfg) cs st) = Numbers st"
proof (induction cs arbitrary: st)
  case (Cons x cs)
  obtain org b c where x: "x = ((org, b), c)" by (metis prod.collapse)
  show ?case
    by (simp add: x Cons.IH client_dispatch_eq split: option.split)
qed simp

section \<open>A concrete codec\<close>

text \<open>
  A self-delimiting encoding of byte vectors, used to show that the laws of the codec can
  hold together: a byte is preceded by 1, the end is marked by 0.
\<close>

fun enc_vec :: "bytes \<Rightarrow> bytes" where
  "enc_vec [] = [0]"
| "enc_vec (b # bs) = 1 # b # enc_vec bs"

fun dec_vec :: "bytes \<Rightarrow> (bytes \<times> bytes) option" where
  "dec_vec [] = None"
| "dec_vec [t] = (if t = 0 then Some ([], []) else None)"
| "dec_vec (t # b # bs) =
     (if t = 0 then Some ([], b # bs) else map_option (\<lambda>(v, r). (b # v, r)) (dec_vec bs))"

fun dec_vecs :: "nat \<Rightarrow> bytes \<Rightarrow> bytes list option" where
  "dec_vecs 0 bs = Some []"
| "dec_vecs (Suc n) bs =
     (case dec_vec bs of None \<Rightarrow> None | Some (v, r) \<Rightarrow> map_option ((#) v) (dec_vecs n r))"

lemma dec_enc_vec [simp]: "dec_vec (enc_vec v @ r) = Some (v, r)"
proof (induction v)
  case Nil
  then show ?case by (cases r) auto
qed simp

lemma dec_enc_vec_end [simp]: "dec_vec (enc_vec v) = Some (v, [])"
  using dec_enc_vec [of v "[]"] by simp

definition marked_codec :: "u32 client_codec" where
  "marked_codec = \<lparr>
     encode_block_number = (\<lambda>n. map (\<lambda>i. ucast (drop_bit (8 * i) n)) [0..<4]),
     encode_price_data = (\<lambda>d. case d of IndexingPriceData a b \<Rightarrow> enc_vec a @ enc_vec b),
     encode_price_flag = (\<lambda>f. case f of IndexingPriceFlag a b c d \<Rightarrow> enc_vec a @ enc_vec b @ enc_vec c @ enc_vec d),
     decode_price_flag = (\<lambda>bs. case dec_vecs 4 bs of Some [a, b, c, d] \<Rightarrow> Some (IndexingPriceFlag a b c d) | _ \<Rightarrow> None),
     encode_light_client = (\<lambda>c. enc_vec (lc_price c) @ enc_vec (lc_time c)),
     decode_light_client = (\<lambda>bs. case dec_vecs 2 bs of Some [p, t] \<Rightarrow> Some \<lparr>lc_price = p, lc_time = t\<rparr> | _ \<Rightarrow> None)\<rparr>"

lemma marked_codec_roundtrip: "codec_roundtrip marked_codec"
  by (auto simp: codec_roundtrip_def marked_codec_def numeral_eq_Suc split: indexing_price_flag.split)

lemma marked_codec_short_input: "codec_short_input marked_codec"
  by (auto simp: codec_short_input_def marked_codec_def numeral_eq_Suc split: indexing_price_data.split)

lemma drop_byte_bit:
  fixes a :: u32
  assumes "i < 32"
  shows "bit a i = bit (ucast (drop_bit (8 * (i div 8)) a) :: u8) (i mod 8)"
  using assms by (simp add: bit_ucast_iff bit_drop_bit_eq)

lemma marked_codec_block_inj: "codec_block_inj marked_codec"
  unfolding codec_block_inj_def
proof (rule injI)
  fix a b :: u32
  assume "encode_block_number marked_codec a = encode_block_number marked_codec b"
  then have eq: "\<forall>j < 4. (ucast (drop_bit (8 * j) a) :: u8) = ucast (drop_bit (8 * j) b)"
    by (simp add: marked_codec_def map_eq_conv)
  show "a = b"
  proof (rule bit_word_eqI)
    fix i :: nat
    assume "i < LENGTH(32)"
    then show "bit a i = bit b i"
      using eq by (simp add: drop_byte_bit less_mult_imp_div_less)
  qed
qed

lemmas marked_codec_laws = marked_codec_roundtrip marked_codec_short_input marked_codec_block_inj

text \<open>Origins for the examples: no signer, or a signer with a number.\<close>

definition option_origins :: "(nat option, nat) client_config" where
  "option_origins = \<lparr>c_ensure_none = (\<lambda>org. org = None), c_ensure_signed = (\<lambda>org. org)\<rparr>"

section \<open>Properties\<close>

lemma run_client_events:
  "client_events (run_calls (client_dispatch k cfg) cs st) =
     client_events st @ List.map_filter (\<lambda>((org, bn), c). call_event cfg org c) cs"
proof (induction cs arbitrary: st)
  case (Cons x cs)
  obtain org b c where x: "x = ((org, b), c)" by (metis prod.collapse)
  show ?case
    by (simp add: x Cons.IH client_dispatch_eq map_filter_simps split: option.split)
qed (simp add: map_filter_simps)

text \<open>
  C25. After any sequence of calls, each carrying its origin and block, the off-chain index
  holds for every block the entry of the last accepted call of that block (and is untouched
  for a block with none), the events are those of the accepted calls in order, and the
  storage item \<open>Numbers\<close> is never written.
\<close>

theorem client_index_holds_last_call:
  assumes "codec_block_inj k"
  shows "let st' = run_calls (client_dispatch k cfg) cs st in
     (\<forall>bn. offchain_index st' (derived_key k bn) =
        (if accepted cfg bn cs = [] then offchain_index st (derived_key k bn)
         else Some (index_entry k (last (accepted cfg bn cs))))) \<and>
     client_events st' = client_events st @ List.map_filter (\<lambda>((org, bn), c). call_event cfg org c) cs \<and>
     Numbers st' = Numbers st"
  by (simp add: run_index [OF assms] run_client_events run_numbers)

theorem client_index_holds_last_call_witness:
  "let st' = run_calls (client_dispatch marked_codec option_origins)
       [((Some 1, 7), Call_update_ethereum_price [104] [102] [116]),
        ((None, 7), Call_update_ethereum_price [1] [1] [1]),
        ((None, 8), Call_submit_ethereum_price [48])] empty_client_state in
     offchain_index st' (derived_key marked_codec 7) =
       Some (encode_price_flag marked_codec (IndexingPriceFlag (lit ''update_ethereum_price'') [104] [102] [116])) \<and>
     offchain_index st' (derived_key marked_codec 9) = None \<and>
     client_events st' = [UpdateEthereumPrice (Some 1), SubmitEthereumPrice None [48]]"
  using client_index_holds_last_call [OF marked_codec_block_inj, of option_origins
      "[((Some 1, 7), Call_update_ethereum_price [104] [102] [116]),
        ((None, 7), Call_update_ethereum_price [1] [1] [1]),
        ((None, 8), Call_submit_ethereum_price [48])]" empty_client_state]
  by (simp add: Let_def accepted_def option_origins_def empty_client_state_def map_filter_simps
      del: run_calls.simps)

text \<open>
  C26. The transaction pool accepts an unsigned call exactly when it is a price submission, so
  an accepted call dispatched without a signer never fails; but every submission, whatever
  its price and wherever it comes from, is accepted, with the same priority and the same tag: the
  pool cannot tell the worker's own submission from a price made up by an outside sender.
\<close>

theorem validate_unsigned_accepts_any_price:
  "((\<exists>v. validate_unsigned src c = Inr v) \<longleftrightarrow> (\<exists>p. c = Call_submit_ethereum_price p)) \<and>
   validate_unsigned src (Call_submit_ethereum_price p) = validate_unsigned src' (Call_submit_ethereum_price p') \<and>
   (c_ensure_none cfg org \<longrightarrow> validate_unsigned src c \<noteq> Inl InvalidCall \<longrightarrow>
      fst (client_dispatch k cfg (org, bn) c st) = Inr ())"
  by (cases c) (simp_all add: validate_unsigned_def Let_def client_dispatch_eq del: client_dispatch.simps)

theorem validate_unsigned_accepts_any_price_witness:
  "validate_unsigned External (Call_submit_ethereum_price [57]) = validate_unsigned Local (Call_submit_ethereum_price [48]) \<and>
   fst (client_dispatch marked_codec option_origins (None, 7) (Call_submit_ethereum_price [57]) empty_client_state) = Inr ()"
  using validate_unsigned_accepts_any_price [of External "Call_submit_ethereum_price [57]" "[57]" Local "[48]"
      option_origins None marked_codec 7 empty_client_state]
  by (simp add: option_origins_def validate_unsigned_def Let_def)

end
