(* ===== verification/Client_Worker.thy ===== *)
theory Client_Worker
  imports Client_Pallet
begin

text \<open>
  The off-chain half of the client pallet, \<^verbatim>\<open>client/src/lib.rs\<close>: fetching the price from
  the exchange under a storage lock, estimating gas, sending the price to the Ethereum node
  and submitting it back to the chain. The host (clock, HTTP, lock, transaction pool) acts on
  an opaque world and is an argument; what the worker asks of it is recorded in a trace.
\<close>

section \<open>The host\<close>

datatype http_verb = GET | POST

record http_request =
  hr_verb :: http_verb
  hr_url :: str
  hr_headers :: "(str \<times> str) list"
  hr_body :: "bytes list"
  hr_deadline :: "u64 option"

definition request_get :: "str \<Rightarrow> http_request" where
  "request_get url = \<lparr>hr_verb = GET, hr_url = url, hr_headers = [], hr_body = [], hr_deadline = None\<rparr>"

definition request_post :: "str \<Rightarrow> bytes list \<Rightarrow> http_request" where
  "request_post url body = \<lparr>hr_verb = POST, hr_url = url, hr_headers = [], hr_body = body, hr_deadline = None\<rparr>"

definition add_header :: "str \<Rightarrow> str \<Rightarrow> http_request \<Rightarrow> http_request" where
  "add_header name v req = req\<lparr>hr_headers := hr_headers req @ [(name, v)]\<rparr>"

text \<open>The three ways waiting for a response ends.\<close>

datatype http_wait = DeadlineReached | RequestFailed | Response "16 word"

text \<open>
  The functions of the host. Only the wait for the response has a deadline: \<open>http_body\<close>, which is \<^verbatim>\<open>response.body().collect()\<close>, reads
  until the body ends or the connection fails and gives what it has read. \<open>lock_try\<close> is \<^verbatim>\<open>StorageLock::try_lock\<close> for a key
  and the two expirations, \<open>lock_release\<close> the drop of its guard.
\<close>

record ('w, 'id) offchain_host =
  timestamp :: "'w \<Rightarrow> u64 \<times> 'w"
  ts_add :: "u64 \<Rightarrow> u64 \<Rightarrow> u64"
  http_send :: "http_request \<Rightarrow> 'w \<Rightarrow> 'id option \<times> 'w"
  http_try_wait :: "'id \<Rightarrow> u64 \<Rightarrow> 'w \<Rightarrow> http_wait \<times> 'w"
  http_body :: "'id \<Rightarrow> 'w \<Rightarrow> bytes \<times> 'w"
  lock_try :: "bytes \<Rightarrow> u32 \<Rightarrow> u64 \<Rightarrow> 'w \<Rightarrow> bool \<times> 'w"
  lock_release :: "bytes \<Rightarrow> 'w \<Rightarrow> 'w"
  submit_unsigned :: "client_call \<Rightarrow> 'w \<Rightarrow> bool \<times> 'w"

datatype effect =
    Requested http_request
  | Responded "16 word"
  | LockTaken
  | LockReleased
  | Stored bytes
  | Submitted client_call bool

record 'w ocw_state =
  os_world :: 'w
  os_storage :: "bytes \<rightharpoonup> bytes"
  os_trace :: "effect list"

type_synonym ('a, 'w) worker = "'w ocw_state \<Rightarrow> ('a, client_error) outcome \<times> 'w ocw_state"

text \<open>Sequencing: \<^verbatim>\<open>let x = m?; f(x)\<close>, and a step that does not touch the state.\<close>

definition wbind :: "('a, 'w) worker \<Rightarrow> ('a \<Rightarrow> ('b, 'w) worker) \<Rightarrow> ('b, 'w) worker" where
  "wbind m f st =
     (case m st of (Ok x, st') \<Rightarrow> f x st' | (Err e, st') \<Rightarrow> (Err e, st') | (Panic, st') \<Rightarrow> (Panic, st'))"

definition wlift :: "('a, client_error) outcome \<Rightarrow> ('a, 'w) worker" where
  "wlift r st = (r, st)"

definition wmap :: "(('a, client_error) outcome \<Rightarrow> ('b, client_error) outcome) \<Rightarrow> ('a, 'w) worker \<Rightarrow> ('b, 'w) worker" where
  "wmap g m st = (let (r, st') = m st in (g r, st'))"

definition record_effect :: "effect \<Rightarrow> 'w ocw_state \<Rightarrow> 'w ocw_state" where
  "record_effect e st = st\<lparr>os_trace := os_trace st @ [e]\<rparr>"

section \<open>HTTP\<close>

text \<open>
  The tail that the three requests of the source share: compute the deadline, send, wait,
  check the status code, collect the body.
\<close>

definition exchange :: "('w, 'id) offchain_host \<Rightarrow> http_request \<Rightarrow> (bytes, 'w) worker" where
  "exchange host req st =
     (let (now, w) = timestamp host (os_world st);
          timeout = ts_add host now FETCH_TIMEOUT_PERIOD;
          req = req\<lparr>hr_deadline := Some timeout\<rparr>;
          (pending, w) = http_send host req w;
          st = record_effect (Requested req) (st\<lparr>os_world := w\<rparr>)
      in case pending of
           None \<Rightarrow> (Err HttpFetchingError, st)
         | Some p \<Rightarrow>
             let (res, w) = http_try_wait host p timeout w;
                 st = st\<lparr>os_world := w\<rparr>
             in case res of
                  DeadlineReached \<Rightarrow> (Err HttpFetchingError, st)
                | RequestFailed \<Rightarrow> (Err HttpFetchingError, st)
                | Response code \<Rightarrow>
                    let st = record_effect (Responded code) st
                    in if code \<noteq> 200 then (Err HttpFetchingError, st)
                       else let (body, w) = http_body host p w in (Ok body, st\<lparr>os_world := w\<rparr>))"

definition fetch_from_remote :: "('w, 'id) offchain_host \<Rightarrow> (bytes, 'w) worker" where
  "fetch_from_remote host =
     exchange host (add_header (lit ''User-Agent'') HTTP_HEADER_USER_AGENT (request_get HTTP_REMOTE_REQUEST))"

text \<open>\<^verbatim>\<open>map_err(|_| HttpFetchingError)\<close> on a result.\<close>

fun as_fetching_error :: "('a, client_error) outcome \<Rightarrow> ('a, client_error) outcome" where
  "as_fetching_error (Err _) = Err HttpFetchingError"
| "as_fetching_error r = r"

definition fetch_n_parse :: "'d json_api \<Rightarrow> ('w, 'id) offchain_host \<Rightarrow> (light_client, 'w) worker" where
  "fetch_n_parse api host =
     wbind (wmap as_fetching_error (fetch_from_remote host)) (\<lambda>resp_bytes.
     wbind (wlift (or_err HttpFetchingError (from_utf8 resp_bytes))) (\<lambda>resp_str.
     wlift (or_err HttpNotParsedInStruct (light_client_from_str api resp_str))))"

section \<open>Sending the price to the Ethereum node\<close>

definition gas_request :: "str \<Rightarrow> str \<Rightarrow> str \<Rightarrow> estimate_gas_request" where
  "gas_request data from_address to_address =
     \<lparr>eg_jsonrpc = lit ''2.0'', eg_id = 20, eg_method = lit ''eth_estimateGas'',
      eg_params = [\<lparr>gp_from = from_address, gp_to = to_address, gp_data = data, gp_value = lit ''0x0''\<rparr>]\<rparr>"

text \<open>\<^verbatim>\<open>serde_json::to_vec(&x)\<close> and the check that the text is UTF-8.\<close>

definition json_body :: "'d json_api \<Rightarrow> (ser, client_error) outcome \<Rightarrow> (bytes, client_error) outcome" where
  "json_body api s =
     obind s (\<lambda>v. obind (or_err HttpNotParsedInStruct (to_vec api v)) (\<lambda>body.
       obind (or_err HttpFetchingError (from_utf8 body)) (\<lambda>_. Ok body)))"

definition get_estimated_gas ::
  "'d json_api \<Rightarrow> ('w, 'id) offchain_host \<Rightarrow> str \<Rightarrow> str \<Rightarrow> str \<Rightarrow> (bytes, 'w) worker" where
  "get_estimated_gas api host data from_address to_address =
     wbind (wlift (json_body api (serialize_estimate_gas_request (gas_request data from_address to_address)))) (\<lambda>body.
     exchange host (add_header (lit ''Content-Type'') (lit ''application/json'') (request_post HTTP_ETHEREUM_HOST [body])))"

text \<open>
  The call data: the selector and the price in 64 hexadecimal digits;
  \<^verbatim>\<open>64 - param.len()\<close> panics when it is negative.
\<close>

definition eth_call_data :: "u32 \<Rightarrow> (str, 'e) outcome" where
  "eth_call_data price_int =
     (let param = fmt_hex (unat price_int)
      in if length param \<le> 64
         then Ok (lit ''0xd423740b'' @ replicate (64 - length param) 48 @ param)
         else Panic)"

definition eth_transaction_for :: "str \<Rightarrow> str \<Rightarrow> bytes \<Rightarrow> str \<Rightarrow> eth_transaction" where
  "eth_transaction_for from_address to_address gas data =
     \<lparr>et_jsonrpc = lit ''2.0'', et_id = 2, et_method = lit ''eth_sendTransaction'',
      et_params = [\<lparr>ep_from = from_address, ep_to = to_address, ep_data = data,
        ep_value = lit ''0x0'', ep_gas = gas, ep_gas_price = lit ''0x1''\<rparr>]\<rparr>"

definition submt_price_to_ethereum ::
  "'d json_api \<Rightarrow> ('w, 'id) offchain_host \<Rightarrow> bytes \<Rightarrow> str \<Rightarrow> str \<Rightarrow> str \<Rightarrow> (bytes, 'w) worker" where
  "submt_price_to_ethereum api host price eth_host from_address to_address =
     wbind (wlift (or_err HttpFetchingError (from_utf8 price))) (\<lambda>price_in_string.
     wbind (wlift (or_err ParseFloatError (parse_f32 price_in_string))) (\<lambda>price_float.
     let price_int = f32_as_u32 price_float in
     wbind (wlift (eth_call_data price_int)) (\<lambda>data.
     wbind (wmap unwrap (get_estimated_gas api host data from_address to_address)) (\<lambda>gas_result.
     wbind (wlift (unwrap_option (from_utf8 gas_result))) (\<lambda>gas_result_str.
     wbind (wlift (unwrap_option (eth_result_from_str api gas_result_str))) (\<lambda>gas_result_struct.
     wbind (wlift (json_body api (serialize_eth_transaction
         (eth_transaction_for from_address to_address (er_result gas_result_struct) data)))) (\<lambda>body.
     exchange host (add_header (lit ''Content-Type'') (lit ''application/json'') (request_post eth_host [body])))))))))"

section \<open>The worker\<close>

definition LOCK_KEY :: bytes where
  "LOCK_KEY = lit ''ocw-demo::lock''"

definition INFO_KEY :: bytes where
  "INFO_KEY = lit ''ocw-demo::ethereum-info''"

text \<open>The guarded part: the guard is dropped at the end of the block and on the early return.\<close>

definition refresh_price ::
  "'bn client_codec \<Rightarrow> 'd json_api \<Rightarrow> ('w, 'id) offchain_host \<Rightarrow> (unit, 'w) worker" where
  "refresh_price k api host st =
     (let (locked, w) = lock_try host LOCK_KEY LOCK_BLOCK_EXPIRATION LOCK_TIMEOUT_EXPIRATION (os_world st);
          st = st\<lparr>os_world := w\<rparr>;
          release = (\<lambda>st. record_effect LockReleased (st\<lparr>os_world := lock_release host LOCK_KEY (os_world st)\<rparr>))
      in if locked then
           (case fetch_n_parse api host (record_effect LockTaken st) of
              (Ok data, st) \<Rightarrow>
                (Ok (), release (record_effect (Stored INFO_KEY)
                   (st\<lparr>os_storage := (os_storage st)(INFO_KEY \<mapsto> encode_light_client k data)\<rparr>)))
            | (Err err, st) \<Rightarrow> (Err err, release st)
            | (Panic, st) \<Rightarrow> (Panic, st))
         else (Ok (), st))"

definition stored_price :: "'bn client_codec \<Rightarrow> (bytes \<rightharpoonup> bytes) \<Rightarrow> bytes" where
  "stored_price k storage =
     (case Option.bind (storage INFO_KEY) (decode_light_client k) of
        Some ethereum_price_data \<Rightarrow> lc_price ethereum_price_data
      | None \<Rightarrow> lit ''0'')"

definition submit_call :: "('w, 'id) offchain_host \<Rightarrow> client_call \<Rightarrow> (unit, 'w) worker" where
  "submit_call host call st =
     (let (sent, w) = submit_unsigned host call (os_world st);
          st = record_effect (Submitted call sent) (st\<lparr>os_world := w\<rparr>)
      in if sent then (Ok (), st) else (Err OffchainUnsignedTxError, st))"

definition update_ethereum_price_worker ::
  "'bn client_codec \<Rightarrow> 'd json_api \<Rightarrow> ('w, 'id) offchain_host \<Rightarrow> str \<Rightarrow> str \<Rightarrow> str \<Rightarrow> (unit, 'w) worker" where
  "update_ethereum_price_worker k api host eth_host from_address to_address =
     wbind (refresh_price k api host) (\<lambda>_ st.
     let final_price = stored_price k (os_storage st) in
     wbind (submt_price_to_ethereum api host final_price eth_host from_address to_address) (\<lambda>result.
     wbind (wlift (or_err HttpFetchingError (from_utf8 result))) (\<lambda>resp_str.
     submit_call host (Call_submit_ethereum_price final_price))) st)"

definition client_offchain_worker ::
  "'bn client_codec \<Rightarrow> 'd json_api \<Rightarrow> ('w, 'id) offchain_host \<Rightarrow> 'bn \<Rightarrow> (unit, 'w) worker" where
  "client_offchain_worker k api host block_number st =
     (case Option.bind (os_storage st (derived_key k block_number)) (decode_price_flag k) of
        Some (IndexingPriceFlag name h f t) \<Rightarrow>
          if from_utf8_or_error name = lit ''update_ethereum_price'' then
            (let eth_host = lit ''0x'' @ from_utf8_or_error h;
                 from_address = lit ''0x'' @ from_utf8_or_error f;
                 to_address = lit ''0x'' @ from_utf8_or_error t
             in case update_ethereum_price_worker k api host eth_host from_address to_address st of
                  (Err e, st) \<Rightarrow> (Ok (), st)
                | r \<Rightarrow> r)
          else (Ok (), st)
      | None \<Rightarrow> (Ok (), st))"

end
