(* ===== verification/Client_Protocol.thy ===== *)
theory Client_Protocol
  imports Client_Worker
begin

text \<open>
  What the off-chain worker of \<^verbatim>\<open>client/src/lib.rs\<close> does to the outside: the order of its
  lock operations, requests, writes and submissions as a state machine, when it succeeds,
  when it panics, and which number reaches the Ethereum node.
\<close>

section \<open>Sequencing\<close>

lemma wlift_eq [simp]: "wlift r st = (r, st)"
  by (simp add: wlift_def)

lemma wbind_Ok [simp]: "m st = (Ok x, st') \<Longrightarrow> wbind m f st = f x st'"
  by (simp add: wbind_def)

lemma wbind_Err [simp]: "m st = (Err e, st') \<Longrightarrow> wbind m f st = (Err e, st')"
  by (simp add: wbind_def)

lemma wbind_Panic [simp]: "m st = (Panic, st') \<Longrightarrow> wbind m f st = (Panic, st')"
  by (simp add: wbind_def)

lemma wbindE:
  assumes "wbind m f st = (r, st')"
  obtains (ok) x st1 where "m st = (Ok x, st1)" "f x st1 = (r, st')"
    | (err) e where "m st = (Err e, st')" "r = Err e"
    | (panic) "m st = (Panic, st')" "r = Panic"
  using assms by (auto simp: wbind_def split: prod.splits outcome.splits)

lemma wmapE:
  assumes "wmap g m st = (r, st')"
  obtains r0 where "m st = (r0, st')" "r = g r0"
  using assms by (auto simp: wmap_def split: prod.splits)

section \<open>The order of effects\<close>

datatype phase =
    Idle | Holding | Fetching | Fetched | Failing | Saved | Released
  | Estimating | Estimated | Sending | Sent | Finished

fun next_phase :: "str \<Rightarrow> phase \<Rightarrow> effect \<Rightarrow> phase option" where
  "next_phase h Idle LockTaken = Some Holding"
| "next_phase h Holding (Requested q) =
     (if hr_verb q = GET \<and> hr_url q = HTTP_REMOTE_REQUEST then Some Fetching else None)"
| "next_phase h Fetching (Responded c) = Some (if c = 200 then Fetched else Failing)"
| "next_phase h Fetching LockReleased = Some Finished"
| "next_phase h Failing LockReleased = Some Finished"
| "next_phase h Fetched LockReleased = Some Finished"
| "next_phase h Fetched (Stored key) = (if key = INFO_KEY then Some Saved else None)"
| "next_phase h Saved LockReleased = Some Released"
| "next_phase h Idle (Requested q) =
     (if hr_verb q = POST \<and> hr_url q = HTTP_ETHEREUM_HOST then Some Estimating else None)"
| "next_phase h Released (Requested q) =
     (if hr_verb q = POST \<and> hr_url q = HTTP_ETHEREUM_HOST then Some Estimating else None)"
| "next_phase h Estimating (Responded c) = Some (if c = 200 then Estimated else Finished)"
| "next_phase h Estimated (Requested q) =
     (if hr_verb q = POST \<and> hr_url q = h then Some Sending else None)"
| "next_phase h Sending (Responded c) = Some (if c = 200 then Sent else Finished)"
| "next_phase h Sent (Submitted (Call_submit_ethereum_price p) b) = Some Finished"
| "next_phase h _ _ = None"

fun run_phases :: "str \<Rightarrow> phase \<Rightarrow> effect list \<Rightarrow> phase option" where
  "run_phases h p [] = Some p"
| "run_phases h p (e # es) = Option.bind (next_phase h p e) (\<lambda>p'. run_phases h p' es)"

definition lock_free :: "phase \<Rightarrow> bool" where
  "lock_free p \<longleftrightarrow> p \<notin> {Holding, Fetching, Fetched, Failing, Saved}"

lemma run_phases_append: "run_phases h p (xs @ ys) = Option.bind (run_phases h p xs) (\<lambda>p'. run_phases h p' ys)"
  by (induction xs arbitrary: p) (auto simp: Option.bind_assoc)

text \<open>The requests of a trace, and the deadline that each of them has.\<close>

fun requests :: "effect list \<Rightarrow> http_request list" where
  "requests [] = []"
| "requests (Requested q # es) = q # requests es"
| "requests (_ # es) = requests es"

definition timed :: "('w, 'id) offchain_host \<Rightarrow> http_request \<Rightarrow> bool" where
  "timed host q \<longleftrightarrow> (\<exists>w. hr_deadline q = Some (ts_add host (fst (timestamp host w)) FETCH_TIMEOUT_PERIOD))"

lemma requests_append [simp]: "requests (xs @ ys) = requests xs @ requests ys"
  by (induction xs rule: requests.induct) auto

section \<open>Exchanges\<close>

lemma exchangeE:
  assumes "exchange host req st = (r, st')"
  obtains (silent) q where "timed host q" "q\<lparr>hr_deadline := hr_deadline req\<rparr> = req"
      "r = Err HttpFetchingError" "os_trace st' = os_trace st @ [Requested q]" "os_storage st' = os_storage st"
    | (answered) q c where "timed host q" "q\<lparr>hr_deadline := hr_deadline req\<rparr> = req"
      "os_trace st' = os_trace st @ [Requested q, Responded c]" "os_storage st' = os_storage st"
      "if c = 200 then \<exists>b. r = Ok b else r = Err HttpFetchingError"
proof -
  let ?q = "req\<lparr>hr_deadline := Some (ts_add host (fst (timestamp host (os_world st))) FETCH_TIMEOUT_PERIOD)\<rparr>"
  have t: "timed host ?q" "?q\<lparr>hr_deadline := hr_deadline req\<rparr> = req"
    by (auto simp: timed_def)
  show ?thesis
    using assms
    by (auto simp: exchange_def record_effect_def Let_def split: prod.splits option.splits http_wait.splits if_splits
        intro: silent [OF t] answered [OF t])
qed

lemma same_but_deadline:
  assumes "q\<lparr>hr_deadline := d\<rparr> = req"
  shows "hr_verb q = hr_verb req" "hr_url q = hr_url req" "hr_headers q = hr_headers req" "hr_body q = hr_body req"
  using assms by auto

lemma request_fields [simp]:
  "hr_verb (request_get u) = GET" "hr_url (request_get u) = u" "hr_body (request_get u) = []"
  "hr_verb (request_post u b) = POST" "hr_url (request_post u b) = u" "hr_body (request_post u b) = b"
  "hr_verb (add_header n v q) = hr_verb q" "hr_url (add_header n v q) = hr_url q" "hr_body (add_header n v q) = hr_body q"
  by (simp_all add: request_get_def request_post_def add_header_def)

lemma fetch_n_parse_eq:
  "fetch_n_parse api host st =
     (let (r0, st') = fetch_from_remote host st
      in (obind (as_fetching_error r0) (\<lambda>b. obind (or_err HttpFetchingError (from_utf8 b))
           (\<lambda>s. or_err HttpNotParsedInStruct (light_client_from_str api s))), st'))"
  by (auto simp: fetch_n_parse_def wbind_def wmap_def split: prod.splits outcome.splits)

lemma fetch_n_parse_effects:
  assumes "fetch_n_parse api host st = (r, st')"
  obtains q c where "timed host q" "hr_verb q = GET" "hr_url q = HTTP_REMOTE_REQUEST" "os_storage st' = os_storage st"
    "(\<exists>e. r = Err e) \<and> os_trace st' = os_trace st @ [Requested q] \<or>
     (\<exists>e. r = Err e) \<and> os_trace st' = os_trace st @ [Requested q, Responded c] \<or>
     (\<exists>d. r = Ok d) \<and> os_trace st' = os_trace st @ [Requested q, Responded 200]"
proof -
  obtain r0 where f: "fetch_from_remote host st = (r0, st')"
    and r: "r = obind (as_fetching_error r0) (\<lambda>b. obind (or_err HttpFetchingError (from_utf8 b))
      (\<lambda>s. or_err HttpNotParsedInStruct (light_client_from_str api s)))"
    using assms by (auto simp: fetch_n_parse_eq split: prod.splits)
  show ?thesis
    using f unfolding fetch_from_remote_def
  proof (cases rule: exchangeE)
    case (silent q)
    then show ?thesis using that [of q] same_but_deadline [OF silent(2)] by (simp add: r)
  next
    case (answered q c)
    then show ?thesis
      using that [of q c] same_but_deadline [OF answered(2)]
      by (cases r; auto simp: r obind_Panic_iff split: if_splits)
  qed
qed

lemma refresh_price_effects:
  assumes "refresh_price k api host st = (r, st')"
  obtains tr p where "os_trace st' = os_trace st @ tr" "run_phases h Idle tr = Some p" "lock_free p"
    "list_all (timed host) (requests tr)" "length (requests tr) \<le> 1"
    "r = Ok () \<and> p \<in> {Idle, Released} \<or> (\<exists>e. r = Err e) \<and> os_storage st' = os_storage st"
    "\<forall>c b. Submitted c b \<notin> set tr"
proof -
  obtain locked w where l: "lock_try host LOCK_KEY LOCK_BLOCK_EXPIRATION LOCK_TIMEOUT_EXPIRATION (os_world st) = (locked, w)"
    by (rule prod.exhaust)
  show ?thesis
  proof (cases locked)
    case False
    with assms l show ?thesis
      using that [of "[]" Idle] by (auto simp: refresh_price_def lock_free_def)
  next
    case True
    obtain r1 st1 where f: "fetch_n_parse api host (record_effect LockTaken (st\<lparr>os_world := w\<rparr>)) = (r1, st1)"
      by (rule prod.exhaust)
    then obtain q c where q: "timed host q" "hr_verb q = GET" "hr_url q = HTTP_REMOTE_REQUEST"
      "os_storage st1 = os_storage st" and shape:
      "(\<exists>e. r1 = Err e) \<and> os_trace st1 = os_trace st @ [LockTaken, Requested q] \<or>
       (\<exists>e. r1 = Err e) \<and> os_trace st1 = os_trace st @ [LockTaken, Requested q, Responded c] \<or>
       (\<exists>d. r1 = Ok d) \<and> os_trace st1 = os_trace st @ [LockTaken, Requested q, Responded 200]"
      by (rule fetch_n_parse_effects) (auto simp: record_effect_def)
    from shape show ?thesis
      using assms l True f q
        that [of "[LockTaken, Requested q, LockReleased]" Finished]
        that [of "[LockTaken, Requested q, Responded c, LockReleased]" Finished]
        that [of "[LockTaken, Requested q, Responded 200, Stored INFO_KEY, LockReleased]" Released]
      by (auto simp: refresh_price_def record_effect_def lock_free_def)
  qed
qed

section \<open>Sending the price\<close>

definition call_data :: "u32 \<Rightarrow> str" where
  "call_data n = lit ''0xd423740b'' @ replicate (64 - length (fmt_hex (unat n))) 48 @ fmt_hex (unat n)"

lemma length_fmt_hex_u32: "length (fmt_hex (unat (n :: u32))) \<le> 8"
  using length_digits [of 16 "unat n" 7] unsigned_less [of n] by (simp add: fmt_hex_def)

lemma eth_call_data_eq [simp]: "eth_call_data n = Ok (call_data n)"
  using length_fmt_hex_u32 [of n] by (simp add: eth_call_data_def call_data_def Let_def)

text \<open>A request whose body is the transaction carrying the price read from a text.\<close>

definition price_request :: "'d json_api \<Rightarrow> bytes \<Rightarrow> str \<Rightarrow> str \<Rightarrow> http_request \<Rightarrow> bool" where
  "price_request api price from_address to_address q \<longleftrightarrow>
     (\<exists>v gas body. parse_f32 price = Some v \<and>
        json_body api (serialize_eth_transaction
          (eth_transaction_for from_address to_address gas (call_data (f32_as_u32 v)))) = Ok body \<and>
        hr_body q = [body])"

lemma get_estimated_gas_effects:
  assumes "get_estimated_gas api host data f t st = (r, st')"
  obtains g c where "timed host g" "hr_verb g = POST" "hr_url g = HTTP_ETHEREUM_HOST" "os_storage st' = os_storage st"
    "(\<forall>b. r \<noteq> Ok b) \<and> os_trace st' = os_trace st \<or>
     (\<forall>b. r \<noteq> Ok b) \<and> os_trace st' = os_trace st @ [Requested g] \<or>
     (\<forall>b. r \<noteq> Ok b) \<and> os_trace st' = os_trace st @ [Requested g, Responded c] \<or>
     (\<exists>b. r = Ok b) \<and> os_trace st' = os_trace st @ [Requested g, Responded 200]"
  using assms unfolding get_estimated_gas_def
proof (cases rule: wbindE)
  case (ok body st1)
  note x = ok(2)
  from ok(1) have [simp]: "st1 = st" by simp
  from x show ?thesis
  proof (cases rule: exchangeE)
    case (silent q)
    then show ?thesis using that [of q] same_but_deadline [OF silent(2)] by simp
  next
    case (answered q c)
    then show ?thesis
      using that [of q c] same_but_deadline [OF answered(2)] by (auto split: if_splits)
  qed
next
  case (err e)
  show ?thesis
    using err by (intro that [of "(request_post HTTP_ETHEREUM_HOST [])\<lparr>hr_deadline := Some (ts_add host (fst (timestamp host (os_world st))) FETCH_TIMEOUT_PERIOD)\<rparr>"])
      (auto simp: timed_def request_post_def)
next
  case panic
  show ?thesis
    using panic by (intro that [of "(request_post HTTP_ETHEREUM_HOST [])\<lparr>hr_deadline := Some (ts_add host (fst (timestamp host (os_world st))) FETCH_TIMEOUT_PERIOD)\<rparr>"])
      (auto simp: timed_def request_post_def)
qed

lemma submt_price_eq:
  "submt_price_to_ethereum api host price eth_host f t st =
     (if \<not> utf8_valid price then (Err HttpFetchingError, st)
      else case parse_f32 price of
        None \<Rightarrow> (Err ParseFloatError, st)
      | Some v \<Rightarrow>
          (case get_estimated_gas api host (call_data (f32_as_u32 v)) f t st of
             (Ok g, st1) \<Rightarrow>
               (case Option.bind (from_utf8 g) (eth_result_from_str api) of
                  None \<Rightarrow> (Panic, st1)
                | Some er \<Rightarrow>
                    (case json_body api (serialize_eth_transaction
                         (eth_transaction_for f t (er_result er) (call_data (f32_as_u32 v)))) of
                       Ok body \<Rightarrow> exchange host (add_header (lit ''Content-Type'') (lit ''application/json'')
                         (request_post eth_host [body])) st1
                     | Err e \<Rightarrow> (Err e, st1)
                     | Panic \<Rightarrow> (Panic, st1)))
           | (_, st1) \<Rightarrow> (Panic, st1)))"
  by (auto simp: submt_price_to_ethereum_def wbind_def wmap_def or_err_def bind_eq_Some_conv unwrap_option_def Let_def
      split: option.split prod.splits outcome.split)

lemma submt_price_effects:
  assumes "submt_price_to_ethereum api host price eth_host f t st = (r, st')"
  obtains (refused) e where "r = Err e" "st' = st"
    | (no_gas) g c where "r = Panic" "timed host g" "hr_verb g = POST" "hr_url g = HTTP_ETHEREUM_HOST" "os_storage st' = os_storage st"
      "os_trace st' \<in> {os_trace st, os_trace st @ [Requested g], os_trace st @ [Requested g, Responded c]}"
    | (unsent) g where "\<forall>b. r \<noteq> Ok b" "timed host g" "hr_verb g = POST" "hr_url g = HTTP_ETHEREUM_HOST"
      "os_storage st' = os_storage st" "os_trace st' = os_trace st @ [Requested g, Responded 200]"
    | (sent) g q c where "timed host g" "hr_verb g = POST" "hr_url g = HTTP_ETHEREUM_HOST"
      "timed host q" "hr_verb q = POST" "hr_url q = eth_host" "price_request api price f t q" "os_storage st' = os_storage st"
      "(\<exists>e. r = Err e) \<and> os_trace st' = os_trace st @ [Requested g, Responded 200, Requested q] \<or>
       os_trace st' = os_trace st @ [Requested g, Responded 200, Requested q, Responded c] \<and>
         (if c = 200 then \<exists>b. r = Ok b else \<exists>e. r = Err e)"
proof (cases "utf8_valid price \<and> parse_f32 price \<noteq> None")
  case False
  with assms show ?thesis by (auto simp: submt_price_eq split: if_splits option.splits intro: refused)
next
  case True
  then obtain v where u: "utf8_valid price" and v: "parse_f32 price = Some v" by auto
  obtain gr st1 where g: "get_estimated_gas api host (call_data (f32_as_u32 v)) f t st = (gr, st1)"
    by (rule prod.exhaust)
  then obtain g c where g1: "timed host g" "hr_verb g = POST" "hr_url g = HTTP_ETHEREUM_HOST" "os_storage st1 = os_storage st"
    and g2: "(\<forall>b. gr \<noteq> Ok b) \<and> os_trace st1 \<in> {os_trace st, os_trace st @ [Requested g], os_trace st @ [Requested g, Responded c]} \<or>
      (\<exists>b. gr = Ok b) \<and> os_trace st1 = os_trace st @ [Requested g, Responded 200]"
    by (rule get_estimated_gas_effects) auto
  show ?thesis
  proof (cases "(\<exists>b. gr = Ok b)")
    case False
    with assms u v g g1 g2 show ?thesis
      by (intro no_gas [of g c]) (auto simp: submt_price_eq split: outcome.splits)
  next
    case True
    then obtain b where b: "gr = Ok b" by blast
    with g2 have tr: "os_trace st1 = os_trace st @ [Requested g, Responded 200]" by simp
    let ?tx = "\<lambda>er. json_body api (serialize_eth_transaction
       (eth_transaction_for f t (er_result er) (call_data (f32_as_u32 v))))"
    show ?thesis
    proof (cases "\<exists>er body. Option.bind (from_utf8 b) (eth_result_from_str api) = Some er \<and> ?tx er = Ok body")
      case False
      with assms u v g b tr g1 show ?thesis
        by (intro unsent [of g]) (auto simp: submt_price_eq split: option.splits outcome.splits)
    next
      case True
      then obtain er body where er: "Option.bind (from_utf8 b) (eth_result_from_str api) = Some er" "?tx er = Ok body"
        by blast
      have x: "exchange host (add_header (lit ''Content-Type'') (lit ''application/json'') (request_post eth_host [body])) st1 = (r, st')"
        using assms u v g b er by (simp add: submt_price_eq)
      have p: "price_request api price f t q" if "hr_body q = [body]" for q
        using v er(2) that by (auto simp: price_request_def)
      from x show ?thesis
      proof (cases rule: exchangeE)
        case (silent q)
        note d = same_but_deadline [OF silent(2)]
        from silent d g1 tr show ?thesis by (intro sent [of g q c]) (simp_all add: p)
      next
        case (answered q c)
        note d = same_but_deadline [OF answered(2)]
        from answered d g1 tr show ?thesis by (intro sent [of g q c]) (auto simp: p)
      qed
    qed
  qed
qed

section \<open>The whole worker\<close>

lemma worker_eq:
  "update_ethereum_price_worker k api host eth_host f t st =
     (case refresh_price k api host st of
        (Ok _, st1) \<Rightarrow>
          (let price = stored_price k (os_storage st1)
           in case submt_price_to_ethereum api host price eth_host f t st1 of
                (Ok b, st2) \<Rightarrow> if utf8_valid b then submit_call host (Call_submit_ethereum_price price) st2
                              else (Err HttpFetchingError, st2)
              | (Err e, st2) \<Rightarrow> (Err e, st2)
              | (Panic, st2) \<Rightarrow> (Panic, st2))
      | (Err e, st1) \<Rightarrow> (Err e, st1)
      | (Panic, st1) \<Rightarrow> (Panic, st1))"
  by (auto simp: update_ethereum_price_worker_def wbind_def Let_def or_err_def
      split: option.split prod.splits outcome.split)

text \<open>A trace that ends with an answered POST of the price and its submission.\<close>

definition reported :: "'d json_api \<Rightarrow> str \<Rightarrow> str \<Rightarrow> str \<Rightarrow> bytes \<Rightarrow> effect list \<Rightarrow> bool" where
  "reported api eth_host f t price tr \<longleftrightarrow>
     (\<exists>pre q. tr = pre @ [Requested q, Responded 200, Submitted (Call_submit_ethereum_price price) True] \<and>
        hr_verb q = POST \<and> hr_url q = eth_host \<and> price_request api price f t q)"

lemma reported_append: "reported api h f t price tr' \<Longrightarrow> reported api h f t price (tr @ tr')"
  unfolding reported_def by (metis append_assoc)

lemma reported_submitted:
  "reported api h f t price tr \<Longrightarrow> Submitted (Call_submit_ethereum_price price) True \<in> set tr"
  by (auto simp: reported_def)

text \<open>The effects of sending and submitting, from a phase in which the lock is free.\<close>

lemma submission_effects:
  assumes s: "submt_price_to_ethereum api host price eth_host f t st1 = (r1, st2)"
    and w: "(r, st') = (case r1 of
       Ok b \<Rightarrow> if utf8_valid b then submit_call host (Call_submit_ethereum_price price) st2 else (Err HttpFetchingError, st2)
     | Err e \<Rightarrow> (Err e, st2) | Panic \<Rightarrow> (Panic, st2))"
    and p: "p \<in> {Idle, Released}"
  obtains tr p' where "os_trace st' = os_trace st1 @ tr" "os_storage st' = os_storage st1"
    "run_phases eth_host p tr = Some p'" "lock_free p'" "list_all (timed host) (requests tr)" "length (requests tr) \<le> 2"
    "list_all (\<lambda>q. hr_verb q = POST) (requests tr)"
    "r = Ok () \<and> reported api eth_host f t price tr \<or>
     r \<noteq> Ok () \<and> (\<forall>c. Submitted c True \<notin> set tr)"
  using s
proof (cases rule: submt_price_effects)
  case (refused e)
  with w p show ?thesis by (intro that [of "[]" p]) (auto simp: lock_free_def)
next
  case (no_gas g c)
  let ?post = "\<lambda>tr p'. os_trace st' = os_trace st1 @ tr \<and> run_phases eth_host p tr = Some p' \<and> lock_free p' \<and>
     list_all (timed host) (requests tr) \<and> length (requests tr) \<le> 2 \<and> list_all (\<lambda>q. hr_verb q = POST) (requests tr) \<and> (\<forall>c. Submitted c True \<notin> set tr)"
  from no_gas w p have "?post [] p \<or> ?post [Requested g] Estimating \<or>
      ?post [Requested g, Responded c] (if c = 200 then Estimated else Finished)"
    by (auto simp: lock_free_def)
  with no_gas w show ?thesis by (elim disjE) (auto intro!: that)
next
  case (unsent g)
  with w p show ?thesis
    by (intro that [of "[Requested g, Responded 200]" Estimated]) (auto simp: lock_free_def split: outcome.splits)
next
  case (sent g q c)
  let ?base = "[Requested g, Responded 200, Requested q]"
  from sent(9) consider (quiet) e where "r1 = Err e" "os_trace st2 = os_trace st1 @ ?base"
    | (bad) e where "c \<noteq> 200" "r1 = Err e" "os_trace st2 = os_trace st1 @ ?base @ [Responded c]"
    | (good) b where "c = 200" "r1 = Ok b" "os_trace st2 = os_trace st1 @ ?base @ [Responded 200]"
    by (auto split: if_splits)
  then show ?thesis
  proof cases
    case quiet
    with sent w p show ?thesis by (intro that [of ?base Sending]) (auto simp: lock_free_def)
  next
    case bad
    with sent w p show ?thesis
      by (intro that [of "?base @ [Responded c]" Finished]) (auto simp: lock_free_def)
  next
    case good
    show ?thesis
    proof (cases "utf8_valid b")
      case False
      with good sent w p show ?thesis
        by (intro that [of "?base @ [Responded 200]" Sent]) (auto simp: lock_free_def)
    next
      case True
      obtain ok w' where o: "submit_unsigned host (Call_submit_ethereum_price price) (os_world st2) = (ok, w')"
        by (rule prod.exhaust)
      from True good sent w p o show ?thesis
        by (intro that [of "?base @ [Responded 200, Submitted (Call_submit_ethereum_price price) ok]" Finished])
          (auto simp: lock_free_def submit_call_def record_effect_def Let_def reported_def split: if_splits)
    qed
  qed
qed

lemma worker_effects:
  "let (r, st') = update_ethereum_price_worker k api host eth_host f t st;
       price = stored_price k (os_storage st')
   in \<exists>tr p. os_trace st' = os_trace st @ tr \<and> run_phases eth_host Idle tr = Some p \<and> lock_free p \<and>
        list_all (timed host) (requests tr) \<and> length (requests tr) \<le> 3 \<and>
        (r = Ok () \<longleftrightarrow> reported api eth_host f t price tr)"
proof -
  obtain r st' where w: "update_ethereum_price_worker k api host eth_host f t st = (r, st')" by (rule prod.exhaust)
  obtain r0 st1 where r0: "refresh_price k api host st = (r0, st1)" by (rule prod.exhaust)
  then obtain tr p where a: "os_trace st1 = os_trace st @ tr" "run_phases eth_host Idle tr = Some p" "lock_free p"
      "list_all (timed host) (requests tr)" "length (requests tr) \<le> 1" "\<forall>c b. Submitted c b \<notin> set tr"
    and b: "r0 = Ok () \<and> p \<in> {Idle, Released} \<or> (\<exists>e. r0 = Err e)"
    by (rule refresh_price_effects) blast
  show ?thesis
  proof (cases "r0 = Ok ()")
    case False
    with b r0 w have "r \<noteq> Ok ()" "st' = st1" by (auto simp: worker_eq)
    with a w show ?thesis
      by (auto simp: Let_def intro!: exI [of _ tr] exI [of _ p] dest: reported_submitted)
  next
    case True
    define price where "price = stored_price k (os_storage st1)"
    obtain r1 st2 where s: "submt_price_to_ethereum api host price eth_host f t st1 = (r1, st2)" by (rule prod.exhaust)
    have w': "(r, st') = (case r1 of
       Ok b \<Rightarrow> if utf8_valid b then submit_call host (Call_submit_ethereum_price price) st2 else (Err HttpFetchingError, st2)
     | Err e \<Rightarrow> (Err e, st2) | Panic \<Rightarrow> (Panic, st2))"
      using w r0 True s by (cases r1) (auto simp: worker_eq price_def Let_def split: if_splits)
    have p: "p \<in> {Idle, Released}" using b True by auto
    from s w' p show ?thesis
    proof (rule submission_effects)
      fix tr' p'
      assume c: "os_trace st' = os_trace st1 @ tr'" "os_storage st' = os_storage st1"
        "run_phases eth_host p tr' = Some p'" "lock_free p'" "list_all (timed host) (requests tr')" "length (requests tr') \<le> 2"
        and d: "r = Ok () \<and> reported api eth_host f t price tr' \<or>
         r \<noteq> Ok () \<and> (\<forall>c. Submitted c True \<notin> set tr')"
      have e: "r = Ok () \<longleftrightarrow> reported api eth_host f t price (tr @ tr')"
        using d a(6) by (auto intro: reported_append dest: reported_submitted)
      show ?thesis
        using a c e by (auto simp: w price_def Let_def run_phases_append intro!: exI [of _ "tr @ tr'"] exI [of _ p'])
    qed
  qed
qed

text \<open>
  C3. Whatever the host answers, the effects of the price worker follow the state machine
  \<open>next_phase\<close>: the price is fetched and stored only while the lock is held, the lock is
  given back before the Ethereum node is contacted and is never left held, at most three
  requests are made, each with a deadline \<open>FETCH_TIMEOUT_PERIOD\<close> after a reading of the
  clock, and the worker succeeds exactly when a POST of the price to the given host was
  answered with 200 and the price was then accepted by the transaction pool.
\<close>

theorem worker_follows_protocol:
  "let (r, st') = update_ethereum_price_worker k api host eth_host f t st;
       price = stored_price k (os_storage st')
   in \<exists>tr p. os_trace st' = os_trace st @ tr \<and> run_phases eth_host Idle tr = Some p \<and> lock_free p \<and>
        list_all (timed host) (requests tr) \<and> length (requests tr) \<le> 3 \<and>
        (r = Ok () \<longleftrightarrow> reported api eth_host f t price tr)"
  by (rule worker_effects)

end
