(* ===== verification/Client_Handoff.thy ===== *)
theory Client_Handoff
  imports Client_Protocol
begin

text \<open>
  From a price text to the call data the Ethereum node receives, and from a call of the
  client pallet in a block to the run of the off-chain worker for that block.
\<close>

section \<open>Call data\<close>

definition hex_digit_of :: "u8 \<Rightarrow> nat option" where
  "hex_digit_of b =
     (if 48 \<le> b \<and> b \<le> 57 then Some (unat b - 48)
      else if 97 \<le> b \<and> b \<le> 102 then Some (unat b - 87) else None)"

fun hex_digits_of :: "str \<Rightarrow> nat list option" where
  "hex_digits_of [] = Some []"
| "hex_digits_of (b # bs) =
     (case (hex_digit_of b, hex_digits_of bs) of (Some d, Some ds) \<Rightarrow> Some (d # ds) | _ \<Rightarrow> None)"

text \<open>What a contract reads from the call data: the selector, and the word after it.\<close>

definition abi_decode :: "str \<Rightarrow> (str \<times> nat) option" where
  "abi_decode d = map_option (\<lambda>ds. (take 10 d, digits_value 16 ds)) (hex_digits_of (drop 10 d))"

lemma hex_digit_of_digit_byte: "d < 16 \<Longrightarrow> hex_digit_of (digit_byte d) = Some d"
proof -
  assume "d < 16"
  then have "d \<in> set [0..<16]" by simp
  moreover have "\<forall>d \<in> set [0..<16]. hex_digit_of (digit_byte d) = Some d"
    by (simp add: digit_byte_def hex_digit_of_def upt_rec)
  ultimately show ?thesis by blast
qed

lemma hex_digits_of_map: "\<forall>d \<in> set ds. d < 16 \<Longrightarrow> hex_digits_of (map digit_byte ds) = Some ds"
  by (induction ds) (auto simp: hex_digit_of_digit_byte)

lemma digit_byte_zero: "(48 :: u8) = digit_byte 0"
  by (simp add: digit_byte_def)

lemma digits_value_zeros: "digits_value b (replicate n 0 @ ds) = digits_value b ds"
  by (induction n) auto

lemma length_selector [simp]: "length (lit ''0xd423740b'') = 10"
  by (simp add: lit_def)

lemma call_data_parts:
  "take 10 (call_data n) = lit ''0xd423740b''"
  "drop 10 (call_data n) = map digit_byte (replicate (64 - length (fmt_hex (unat n))) 0 @ digits 16 (unat n))"
  by (simp_all add: call_data_def fmt_hex_def digit_byte_zero)

lemma abi_decode_call_data: "abi_decode (call_data n) = Some (lit ''0xd423740b'', unat n)"
proof -
  have "\<forall>d \<in> set (replicate (64 - length (fmt_hex (unat n))) 0 @ digits 16 (unat n)). d < 16"
    by (auto dest: digits_lt [of 16, simplified])
  then have "hex_digits_of (drop 10 (call_data n)) =
      Some (replicate (64 - length (fmt_hex (unat n))) 0 @ digits 16 (unat n))"
    unfolding call_data_parts by (rule hex_digits_of_map)
  then show ?thesis
    by (simp only: abi_decode_def call_data_parts option.map digits_value_zeros)
      (simp add: digits_value_digits del: digits_value.simps)
qed

lemma utf8_valid_lit_selector [simp]: "utf8_valid (lit ''0xd423740b'')"
  by (rule utf8_valid_ascii) (simp add: lit_def)

lemma utf8_valid_call_data [simp]: "utf8_valid (call_data n)"
  by (simp add: call_data_def utf8_valid_append)

lemma length_call_data [simp]: "length (call_data n) = 74"
  using length_fmt_hex_u32 [of n] by (simp add: call_data_def)

text \<open>
  For every 32-bit price the subtraction in the padding does not underflow, the call data
  is 74 bytes of text, and a contract that reads it finds the selector \<open>0xd423740b\<close> and the
  price: different prices give different call data.
\<close>

lemma eth_call_data_decodes:
  "\<exists>d. eth_call_data n = Ok d \<and> length d = 74 \<and> utf8_valid d \<and> abi_decode d = Some (lit ''0xd423740b'', unat n)"
  by (simp add: abi_decode_call_data)

section \<open>From the price text to the number sent\<close>

lemma foldl_digits_pos: "foldl (\<lambda>acc d. acc * b + d) (a :: nat) ds = a * b ^ length ds + foldl (\<lambda>acc d. acc * b + d) 0 ds"
proof (induction ds arbitrary: a)
  case (Cons d ds)
  show ?case using Cons [of "a * b + d"] Cons [of d] by (simp add: algebra_simps)
qed simp

lemma digits_value_append: "digits_value b (is @ fs) = digits_value b is * b ^ length fs + digits_value b fs"
  using foldl_digits_pos [of b "foldl (\<lambda>acc d. acc * b + d) 0 is" fs] by simp

lemma digits_value_bound: "\<forall>d \<in> set ds. d < b \<Longrightarrow> digits_value b ds < b ^ length ds"
proof (induction ds rule: rev_induct)
  case (snoc d ds)
  then have "digits_value b ds + 1 \<le> b ^ length ds" and d: "d < b" by simp_all
  from mult_le_mono1 [OF this(1), of b] d show ?case by (simp add: algebra_simps)
qed simp

text \<open>
  C12. A price text with an integral part below 131072 and at most two decimals, such as the
  exchange sends, parses, and the number in the call data is exactly its integral part: neither the
  rounding to a 32-bit float nor the cast changes it. Below 2 to the 24th, with any number of
  decimals, the number is the integral part or the next integer.
\<close>

theorem price_text_reaches_call_data:
  assumes "\<forall>d \<in> set (is @ fs). d < 10" and "is \<noteq> []"
  shows "\<exists>v d. parse_f32 (map digit_byte is @ 46 # map digit_byte fs) = Some v \<and>
     eth_call_data (f32_as_u32 v) = (Ok d :: (str, client_error) outcome) \<and>
     (digits_value 10 is < 131072 \<and> length fs \<le> 2 \<longrightarrow>
        abi_decode d = Some (lit ''0xd423740b'', digits_value 10 is)) \<and>
     (digits_value 10 is < 2 ^ 24 \<longrightarrow>
        abi_decode d \<in> {Some (lit ''0xd423740b'', digits_value 10 is), Some (lit ''0xd423740b'', Suc (digits_value 10 is))})"
proof -
  let ?num = "digits_value 10 (is @ fs)" and ?den = "(10 :: nat) ^ length fs"
  have f: "digits_value 10 fs < ?den"
    using assms(1) by (intro digits_value_bound) auto
  have num: "?num = digits_value 10 is * ?den + digits_value 10 fs"
    by (rule digits_value_append)
  have quot: "?num div ?den = digits_value 10 is"
    unfolding num using f by (simp del: digits_value.simps)
  have less: "?num < ?den * m" if "digits_value 10 is < m" for m
  proof -
    have "(digits_value 10 is + 1) * ?den \<le> m * ?den" using that by (intro mult_le_mono1) simp
    then show ?thesis unfolding num using f by (simp add: algebra_simps del: digits_value.simps)
  qed
  have exact: "unat (f32_as_u32 (round_f32 False ?num ?den)) = digits_value 10 is"
    if "digits_value 10 is < 131072" "length fs \<le> 2"
  proof -
    have "?den \<le> 10 ^ 2" using that(2) by (intro power_increasing) auto
    then have "?den \<le> 2 ^ 7" by simp
    then show ?thesis
      using cast_round_f32_exact [of ?den 7 ?num] less [of 131072] that(1) quot by (simp del: digits_value.simps)
  qed
  have near: "unat (f32_as_u32 (round_f32 False ?num ?den)) \<in> {digits_value 10 is, Suc (digits_value 10 is)}"
    if "digits_value 10 is < 2 ^ 24"
    using cast_round_f32_within_one [OF less [OF that]] quot by (simp del: digits_value.simps)
  show ?thesis
    using parse_f32_fixed [OF assms] exact near
    by (auto simp: abi_decode_call_data simp del: digits_value.simps)
qed

theorem price_text_reaches_call_data_witness:
  "\<exists>v d. parse_f32 (map digit_byte [1, 8, 4, 2] @ 46 # map digit_byte [9, 9]) = Some v \<and>
     eth_call_data (f32_as_u32 v) = (Ok d :: (str, client_error) outcome) \<and>
     abi_decode d = Some (lit ''0xd423740b'', 1842)"
  using price_text_reaches_call_data [of "[1, 8, 4, 2]" "[9, 9]"] by auto

section \<open>Panics\<close>

lemma utf8_valid_lit: "list_all (\<lambda>c. of_char c < (128 :: u8)) s \<Longrightarrow> utf8_valid (lit s)"
  by (rule utf8_valid_ascii) (auto simp: lit_def list_all_iff)

lemma utf8_valid_literals [simp]:
  "utf8_valid (lit ''0x'')" "utf8_valid (lit ''0x0'')" "utf8_valid (lit ''0x1'')" "utf8_valid (lit ''2.0'')"
  "utf8_valid (lit ''error'')" "utf8_valid (lit ''eth_sendTransaction'')" "utf8_valid (lit ''update_ethereum_price'')"
  by (simp_all add: utf8_valid_lit)

lemma utf8_valid_or_error [simp]: "utf8_valid (from_utf8_or_error bs)"
  by (simp add: from_utf8_or_error_def split: option.split)

lemma from_utf8_or_error_valid [simp]: "utf8_valid bs \<Longrightarrow> from_utf8_or_error bs = bs"
  by (simp add: from_utf8_or_error_def)

lemma update_flag_name_iff:
  "from_utf8_or_error name = lit ''update_ethereum_price'' \<longleftrightarrow> name = lit ''update_ethereum_price''"
proof -
  have "lit ''error'' \<noteq> lit ''update_ethereum_price''" by (simp add: lit_def)
  then show ?thesis by (auto simp: from_utf8_or_error_def from_utf8_def split: if_splits)
qed

lemma json_body_Panic_iff: "json_body api s = Panic \<longleftrightarrow> s = Panic"
  by (cases s) (auto simp: json_body_def obind_Panic_iff)

lemma eth_transaction_for_text:
  "eth_transaction_text (eth_transaction_for f t gas data) \<longleftrightarrow> utf8_valid f \<and> utf8_valid t \<and> utf8_valid gas \<and> utf8_valid data"
  by (auto simp: eth_transaction_text_def eth_transaction_for_def eth_params_text_def)

text \<open>A gas estimate that cannot be used: no response, or not the JSON of a result.\<close>

definition gas_unusable :: "'d json_api \<Rightarrow> (bytes, client_error) outcome \<Rightarrow> bool" where
  "gas_unusable api r \<longleftrightarrow>
     (case r of Ok g \<Rightarrow> Option.bind (from_utf8 g) (eth_result_from_str api) = None | _ \<Rightarrow> True)"

lemma submt_price_panics_iff:
  assumes "json_text_valid api" "utf8_valid f" "utf8_valid t"
  shows "fst (submt_price_to_ethereum api host price eth_host f t st) = Panic \<longleftrightarrow>
     utf8_valid price \<and> (\<exists>v. parse_f32 price = Some v \<and>
       gas_unusable api (fst (get_estimated_gas api host (call_data (f32_as_u32 v)) f t st)))"
proof (cases "\<exists>v. utf8_valid price \<and> parse_f32 price = Some v")
  case False
  then show ?thesis by (auto simp: submt_price_eq split: option.split)
next
  case True
  then obtain v where v: "utf8_valid price" "parse_f32 price = Some v" by blast
  obtain gr st1 where g: "get_estimated_gas api host (call_data (f32_as_u32 v)) f t st = (gr, st1)"
    by (rule prod.exhaust)
  have tx: "json_body api (serialize_eth_transaction (eth_transaction_for f t (er_result er) (call_data (f32_as_u32 v)))) \<noteq> Panic"
    if "Option.bind (from_utf8 b) (eth_result_from_str api) = Some er" for b er
    using that assms
    by (auto simp: json_body_Panic_iff serialize_eth_transaction_panic_iff eth_transaction_for_text bind_eq_Some_conv
        dest: eth_result_from_str_valid)
  have ex: "fst (exchange host q s) \<noteq> Panic" for q s
    by (rule exchangeE [of host q s "fst (exchange host q s)" "snd (exchange host q s)"]) (auto split: if_splits)
  show ?thesis
    using v g tx ex by (auto simp: submt_price_eq gas_unusable_def split: outcome.split option.split)
qed

lemma refresh_price_no_panic: "fst (refresh_price k api host st) \<noteq> Panic"
  by (rule refresh_price_effects [of k api host st "fst (refresh_price k api host st)" "snd (refresh_price k api host st)"])
    auto

text \<open>The request a block left for the worker, if any.\<close>

definition pending_update :: "'bn client_codec \<Rightarrow> 'bn \<Rightarrow> (bytes \<rightharpoonup> bytes) \<Rightarrow> (bytes \<times> bytes \<times> bytes) option" where
  "pending_update k bn storage =
     (case Option.bind (storage (derived_key k bn)) (decode_price_flag k) of
        Some (IndexingPriceFlag name h f t) \<Rightarrow> if name = lit ''update_ethereum_price'' then Some (h, f, t) else None
      | None \<Rightarrow> None)"

fun swallow_error :: "(unit, client_error) outcome \<times> 'w ocw_state \<Rightarrow> (unit, client_error) outcome \<times> 'w ocw_state" where
  "swallow_error (Err e, st) = (Ok (), st)"
| "swallow_error r = r"

definition prefixed :: "bytes \<Rightarrow> str" where
  "prefixed bs = lit ''0x'' @ from_utf8_or_error bs"

lemma utf8_valid_prefixed [simp]: "utf8_valid (prefixed bs)"
  by (simp add: prefixed_def utf8_valid_append)

lemma offchain_worker_eq:
  "client_offchain_worker k api host bn st =
     (case pending_update k bn (os_storage st) of
        None \<Rightarrow> (Ok (), st)
      | Some (h, f, t) \<Rightarrow> swallow_error (update_ethereum_price_worker k api host (prefixed h) (prefixed f) (prefixed t) st))"
  by (auto simp: client_offchain_worker_def pending_update_def prefixed_def update_flag_name_iff Let_def
      split: option.split indexing_price_flag.split prod.split outcome.split)

lemma swallow_error_Panic_iff [simp]: "fst (swallow_error r) = Panic \<longleftrightarrow> fst r = Panic"
  by (cases r rule: swallow_error.cases) auto

lemma worker_panics_iff:
  "fst (update_ethereum_price_worker k api host h f t st) = Panic \<longleftrightarrow>
     (\<exists>st1. refresh_price k api host st = (Ok (), st1) \<and>
       fst (submt_price_to_ethereum api host (stored_price k (os_storage st1)) h f t st1) = Panic)"
  using refresh_price_no_panic [of k api host st]
  by (auto simp: worker_eq Let_def submit_call_def split: prod.splits outcome.splits)

section \<open>Example hosts\<close>

text \<open>A host that answers requests from a script, and one that can be reached by nobody.\<close>

type_synonym script = "(http_wait \<times> bytes) list"

definition scripted_host :: "(script, http_wait \<times> bytes) offchain_host" where
  "scripted_host = \<lparr>timestamp = (\<lambda>w. (1000, w)), ts_add = (+),
     http_send = (\<lambda>_ w. (case w of [] \<Rightarrow> (Some (DeadlineReached, []), []) | r # rs \<Rightarrow> (Some r, rs))),
     http_try_wait = (\<lambda>r _ w. (fst r, w)), http_body = (\<lambda>r w. (snd r, w)),
     lock_try = (\<lambda>_ _ _ w. (False, w)), lock_release = (\<lambda>_ w. w), submit_unsigned = (\<lambda>_ w. (True, w))\<rparr>"

definition silent_host :: "(unit, unit) offchain_host" where
  "silent_host = \<lparr>timestamp = (\<lambda>w. (0, w)), ts_add = (+), http_send = (\<lambda>_ w. (None, w)),
     http_try_wait = (\<lambda>_ _ w. (RequestFailed, w)), http_body = (\<lambda>_ w. ([], w)),
     lock_try = (\<lambda>_ _ _ w. (False, w)), lock_release = (\<lambda>_ w. w), submit_unsigned = (\<lambda>_ w. (False, w))\<rparr>"

text \<open>A JSON reader whose every text is a struct of fields holding the text itself.\<close>

definition echo_json :: "str json_api" where
  "echo_json = \<lparr>json_struct = (\<lambda>s names. Some (map (\<lambda>_. s) names)), de_str = from_utf8, de_u8 = (\<lambda>_. Some 1),
     to_vec = (\<lambda>_. Some [])\<rparr>"

lemma echo_json_valid: "json_text_valid echo_json"
  by (simp add: json_text_valid_def echo_json_def)

definition waiting :: "'w \<Rightarrow> client_call \<Rightarrow> 'w ocw_state" where
  "waiting w c = \<lparr>os_world = w, os_storage = [derived_key marked_codec 7 \<mapsto> index_entry marked_codec c], os_trace = []\<rparr>"

lemma parse_zero: "parse_f32 (lit ''0'') = Some (Finite False 0 0)"
proof -
  have d: "digit_of 48 = Some 0" by (simp add: digit_of_def)
  have u: "[0..<254] = 0 # [Suc 0..<254]" by (simp add: upt_rec)
  show ?thesis
    by (simp add: parse_f32_def parse_decimal_def lit_def decimal_to_f32_def round_f32_def ulp_index_def u d
        f32_scale_def round_half_even_def Let_def)
qed

lemma stored_price_none: "storage INFO_KEY = None \<Longrightarrow> stored_price k storage = lit ''0''"
  by (simp add: stored_price_def)

lemma keys_distinct: "derived_key k bn \<noteq> INFO_KEY" "INFO_KEY \<noteq> derived_key k bn"
  by (simp_all add: derived_key_def INFO_KEY_def ONCHAIN_TX_KEY_def lit_def)

lemma marked_codec_reads_flag: "decode_price_flag marked_codec (encode_price_flag marked_codec x) = Some x"
  using marked_codec_roundtrip by (simp add: codec_roundtrip_def)

lemma pending_waiting:
  "pending_update marked_codec 7 (os_storage (waiting w (Call_update_ethereum_price h f t))) = Some (h, f, t)"
  by (simp add: pending_update_def waiting_def marked_codec_reads_flag)

lemma refresh_busy:
  assumes "lock_try host LOCK_KEY LOCK_BLOCK_EXPIRATION LOCK_TIMEOUT_EXPIRATION (os_world st) = (False, w)"
  shows "refresh_price k api host st = (Ok (), st\<lparr>os_world := w\<rparr>)"
  using assms by (simp add: refresh_price_def)

lemma exchange_silent: "fst (exchange silent_host q st) = Err HttpFetchingError"
  by (simp add: exchange_def silent_host_def Let_def)

lemma gas_silent: "gas_unusable api (fst (get_estimated_gas api silent_host d f t st))"
proof -
  have "fst (get_estimated_gas api silent_host d f t st) \<noteq> Ok b" for b
    by (auto simp: get_estimated_gas_def wbind_def exchange_silent split: outcome.split)
  then show ?thesis by (simp add: gas_unusable_def split: outcome.split)
qed

section \<open>Properties\<close>

text \<open>
  C13. The off-chain worker panics exactly when the block left an update request, the price
  in the store (after the refresh) is a number, and the answer to the gas estimate is missing, not 200 or
  not the JSON of a result: none of the other failures, of the exchange, the codec or the
  Ethereum node, makes it panic, whatever bytes the request carries.
\<close>

theorem offchain_worker_panics_iff_gas_unusable:
  assumes "json_text_valid api"
  shows "fst (client_offchain_worker k api host bn st) = Panic \<longleftrightarrow>
     (\<exists>h f t st1 v. pending_update k bn (os_storage st) = Some (h, f, t) \<and>
        refresh_price k api host st = (Ok (), st1) \<and>
        utf8_valid (stored_price k (os_storage st1)) \<and> parse_f32 (stored_price k (os_storage st1)) = Some v \<and>
        gas_unusable api (fst (get_estimated_gas api host (call_data (f32_as_u32 v)) (prefixed f) (prefixed t) st1)))"
proof (cases "pending_update k bn (os_storage st)")
  case (Some x)
  obtain h f t where x: "x = (h, f, t)" by (metis prod.collapse)
  show ?thesis
    by (auto simp: offchain_worker_eq Some x worker_panics_iff submt_price_panics_iff [OF assms])
qed (simp add: offchain_worker_eq)

theorem offchain_worker_panics_iff_gas_unusable_witness:
  "fst (client_offchain_worker marked_codec echo_json silent_host 7
     (waiting () (Call_update_ethereum_price [104] [102] [116]))) = Panic"
proof -
  have "refresh_price marked_codec echo_json silent_host st = (Ok (), st)" for st
    using refresh_busy [of silent_host st "()" marked_codec echo_json] by (simp add: silent_host_def)
  moreover have "stored_price marked_codec (os_storage (waiting () c)) = lit ''0''" for c
    by (rule stored_price_none) (simp add: waiting_def keys_distinct)
  moreover have "utf8_valid (lit ''0'')"
    by (simp add: utf8_valid_lit)
  ultimately show ?thesis
    using offchain_worker_panics_iff_gas_unusable [OF echo_json_valid, of marked_codec silent_host 7
        "waiting () (Call_update_ethereum_price [104] [102] [116])"]
    by (simp add: pending_waiting parse_zero gas_silent)
qed

text \<open>
  A request accepted as the last call of a block reaches the off-chain worker of that
  block with its host and addresses, each behind the prefix \<open>0x\<close>, and the worker's error is swallowed; the
  host that is then contacted therefore never begins with a URL scheme.
\<close>

lemma update_request_reaches_worker:
  assumes "codec_roundtrip k" "codec_block_inj k"
    and "accepted cfg bn cs = pre @ [Call_update_ethereum_price h f t]"
    and "os_storage ws (derived_key k bn) = offchain_index (run_calls (client_dispatch k cfg) cs st) (derived_key k bn)"
  shows "client_offchain_worker k api host bn ws =
      swallow_error (update_ethereum_price_worker k api host (prefixed h) (prefixed f) (prefixed t) ws) \<and>
    take 2 (prefixed h) = lit ''0x''"
proof -
  have "pending_update k bn (os_storage ws) = Some (h, f, t)"
    using assms by (simp add: pending_update_def run_index codec_roundtrip_def)
  then show ?thesis by (simp add: offchain_worker_eq prefixed_def lit_def)
qed

lemma update_request_reaches_worker_example:
  "client_offchain_worker marked_codec echo_json scripted_host 7
     (waiting [] (Call_update_ethereum_price [104] [102] [116])) =
   swallow_error (update_ethereum_price_worker marked_codec echo_json scripted_host
     (prefixed [104]) (prefixed [102]) (prefixed [116]) (waiting [] (Call_update_ethereum_price [104] [102] [116])))"
  using update_request_reaches_worker [OF marked_codec_roundtrip marked_codec_block_inj,
      of option_origins 7 "[((Some 1, 7), Call_update_ethereum_price [104] [102] [116])]" "[]" "[104]" "[102]" "[116]"
        "waiting [] (Call_update_ethereum_price [104] [102] [116])" empty_client_state echo_json scripted_host]
  by (simp add: accepted_def option_origins_def client_dispatch_eq waiting_def del: client_dispatch.simps)

text \<open>
  C24. When the last accepted call of a block is a price submission, the off-chain worker of that
  block does nothing, even when an update request was accepted earlier in the same block: the two
  calls share one key of the index, and the request is lost.
\<close>

theorem submission_hides_update_request:
  assumes "codec_short_input k" "codec_block_inj k"
    and "accepted cfg bn cs = pre @ [Call_update_ethereum_price h f t] @ mid @ [Call_submit_ethereum_price p]"
    and "os_storage ws (derived_key k bn) = offchain_index (run_calls (client_dispatch k cfg) cs st) (derived_key k bn)"
  shows "client_offchain_worker k api host bn ws = (Ok (), ws)"
proof -
  have "pending_update k bn (os_storage ws) = None"
    using assms by (simp add: pending_update_def run_index codec_short_input_def)
  then show ?thesis by (simp add: offchain_worker_eq)
qed

theorem submission_hides_update_request_witness:
  "client_offchain_worker marked_codec echo_json scripted_host 7 (waiting [] (Call_submit_ethereum_price [57])) =
     (Ok (), waiting [] (Call_submit_ethereum_price [57]))"
  using submission_hides_update_request [OF marked_codec_short_input marked_codec_block_inj,
      of option_origins 7 "[((Some 1, 7), Call_update_ethereum_price [104] [102] [116]), ((None, 7), Call_submit_ethereum_price [57])]"
        "[]" "[104]" "[102]" "[116]" "[]" "[57]"
        "waiting [] (Call_submit_ethereum_price [57])" empty_client_state echo_json scripted_host]
  by (simp add: accepted_def option_origins_def client_dispatch_eq waiting_def del: client_dispatch.simps)

end
