(* ===== verification/Client_Wire.thy ===== *)
theory Client_Wire
  imports Client_Handoff "HOL-Library.Monad_Syntax"
begin

text \<open>
  The requests that the off-chain worker of \<^verbatim>\<open>client/src/lib.rs\<close> puts on the wire, against
  two readers: the types of the Ethereum JSON-RPC interface, as a checker over serialized
  values, and the derived \<^verbatim>\<open>Deserialize\<close> implementations of the same structs.
\<close>

section \<open>The types of the Ethereum interface\<close>

text \<open>
  A datum of \<open>n\<close> bytes is \<open>0x\<close> with two hexadecimal digits for each byte; a quantity is
  \<open>0x\<close> with the digits of a number, without leading zeros.
\<close>

definition hex_byte :: "u8 \<Rightarrow> bool" where
  "hex_byte b \<longleftrightarrow> 48 \<le> b \<and> b \<le> 57 \<or> 97 \<le> b \<and> b \<le> 102 \<or> 65 \<le> b \<and> b \<le> 70"

definition eth_datum :: "nat \<Rightarrow> str \<Rightarrow> bool" where
  "eth_datum n s \<longleftrightarrow> take 2 s = lit ''0x'' \<and> length s = 2 + 2 * n \<and> list_all hex_byte (drop 2 s)"

definition eth_quantity :: "str \<Rightarrow> bool" where
  "eth_quantity s \<longleftrightarrow> take 2 s = lit ''0x'' \<and>
     (case drop 2 s of [] \<Rightarrow> False | d # ds \<Rightarrow> list_all hex_byte (d # ds) \<and> (d = 48 \<longrightarrow> ds = []))"

datatype field_type = TText str | TByte | TDatum nat | TQuantity | TList "(str \<times> field_type) list"

text \<open>
  A value has a type; a list type asks for exactly one struct, with the fields of the type in
  their order and the announced number of fields.
\<close>

fun typed_field :: "field_type \<Rightarrow> ser \<Rightarrow> bool"
  and typed_fields :: "(str \<times> field_type) list \<Rightarrow> (str \<times> ser) list \<Rightarrow> bool" where
  "typed_field (TText s) (SerStr s') \<longleftrightarrow> s' = s"
| "typed_field TByte (SerU8 n) \<longleftrightarrow> True"
| "typed_field (TDatum n) (SerStr s) \<longleftrightarrow> eth_datum n s"
| "typed_field TQuantity (SerStr s) \<longleftrightarrow> eth_quantity s"
| "typed_field (TList ts) (SerSeq [SerStruct _ n fs]) \<longleftrightarrow> n = length fs \<and> typed_fields ts fs"
| "typed_field _ _ \<longleftrightarrow> False"
| "typed_fields [] [] \<longleftrightarrow> True"
| "typed_fields ((name, t) # ts) ((name', v) # fs) \<longleftrightarrow> name' = name \<and> typed_field t v \<and> typed_fields ts fs"
| "typed_fields _ _ \<longleftrightarrow> False"

definition rpc_type :: "str \<Rightarrow> (str \<times> field_type) list \<Rightarrow> (str \<times> field_type) list" where
  "rpc_type name params =
     [(lit ''jsonrpc'', TText (lit ''2.0'')), (lit ''id'', TByte), (lit ''method'', TText name), (lit ''params'', TList params)]"

fun typed_call :: "(str \<times> field_type) list \<Rightarrow> ser \<Rightarrow> bool" where
  "typed_call ts (SerStruct _ n fs) \<longleftrightarrow> n = length fs \<and> typed_fields ts fs"
| "typed_call ts _ \<longleftrightarrow> False"

definition call_params :: "(str \<times> field_type) list" where
  "call_params = [(lit ''from'', TDatum 20), (lit ''to'', TDatum 20), (lit ''data'', TDatum 36), (lit ''value'', TQuantity)]"

definition estimate_type :: "(str \<times> field_type) list" where
  "estimate_type = rpc_type (lit ''eth_estimateGas'') call_params"

definition transaction_type :: "(str \<times> field_type) list" where
  "transaction_type = rpc_type (lit ''eth_sendTransaction'') (call_params @ [(lit ''gas'', TQuantity), (lit ''gasPrice'', TQuantity)])"

lemma hex_byte_digit: "d < 16 \<Longrightarrow> hex_byte (digit_byte d)"
proof -
  assume "d < 16"
  then have "d \<in> set [0..<16]" by simp
  moreover have "\<forall>d \<in> set [0..<16]. hex_byte (digit_byte d)"
    by (simp add: digit_byte_def hex_byte_def upt_rec)
  ultimately show ?thesis by blast
qed

lemma eth_datum_call_data: "eth_datum 36 (call_data n)"
proof -
  let ?ds = "replicate (64 - length (fmt_hex (unat n))) 0 @ digits 16 (unat n)"
  have "call_data n = take 10 (call_data n) @ drop 10 (call_data n)" by simp
  then have cd: "call_data n = lit ''0xd423740b'' @ map digit_byte ?ds" unfolding call_data_parts .
  have "list_all hex_byte (map digit_byte ?ds)"
    by (auto simp: list_all_iff intro!: hex_byte_digit dest: digits_lt [of 16, simplified])
  moreover have "list_all hex_byte (drop 2 (lit ''0xd423740b''))" "take 2 (lit ''0xd423740b'') = lit ''0x''"
    by (simp_all add: lit_def hex_byte_def)
  ultimately show ?thesis
    using length_call_data [of n] by (simp add: eth_datum_def cd)
qed

lemma eth_quantity_literals: "eth_quantity (lit ''0x0'')" "eth_quantity (lit ''0x1'')"
  by (simp_all add: eth_quantity_def lit_def hex_byte_def)

lemma hex_byte_ascii: "hex_byte b \<Longrightarrow> b < 128"
  unfolding hex_byte_def by (auto simp: word_less_nat_alt word_le_nat_alt)

text \<open>The texts of a request are put behind \<open>0x\<close>: they have to come without it.\<close>

lemma eth_datum_prefixed: "eth_datum n (prefixed bs) \<longleftrightarrow> length bs = 2 * n \<and> list_all hex_byte bs"
proof (cases "utf8_valid bs")
  case True
  then show ?thesis by (auto simp: eth_datum_def prefixed_def lit_def)
next
  case False
  then have bad: "\<not> list_all hex_byte bs" using utf8_valid_ascii [of bs] hex_byte_ascii by (auto simp: list_all_iff)
  have "\<not> hex_byte (114 :: u8)" by (simp add: hex_byte_def)
  with False bad show ?thesis
    by (simp add: eth_datum_def prefixed_def from_utf8_or_error_def from_utf8_def lit_def)
qed

lemma estimate_tree:
  assumes "utf8_valid f" "utf8_valid t" "utf8_valid d"
  shows "\<exists>v. serialize_estimate_gas_request (gas_request d f t) = (Ok v :: (ser, client_error) outcome) \<and>
     (typed_call estimate_type v \<longleftrightarrow> eth_datum 20 f \<and> eth_datum 20 t \<and> eth_datum 36 d)"
  using assms
  by (simp add: serialize_estimate_gas_request_def serialize_gas_request_param_def gas_request_def ser_text_eq utf8_valid_lit
      estimate_type_def rpc_type_def call_params_def eth_quantity_literals)

lemma transaction_tree:
  assumes "utf8_valid f" "utf8_valid t" "utf8_valid d" "utf8_valid g"
  shows "\<exists>v. serialize_eth_transaction (eth_transaction_for f t g d) = (Ok v :: (ser, client_error) outcome) \<and>
     (typed_call transaction_type v \<longleftrightarrow> eth_datum 20 f \<and> eth_datum 20 t \<and> eth_datum 36 d \<and> eth_quantity g)"
  using assms
  by (simp add: serialize_eth_transaction_def serialize_eth_params_def eth_transaction_for_def ser_text_eq utf8_valid_lit
      transaction_type_def rpc_type_def call_params_def eth_quantity_literals)

text \<open>
  C19. Both requests that the worker builds for a pending update serialize, for every 32-bit price; the
  gas estimate is well typed for the Ethereum interface exactly when the two addresses of the update are 40
  hexadecimal digits without the prefix \<open>0x\<close>, and the transaction exactly when, in addition, the gas the node
  answered is a quantity: the price itself never makes a request ill typed.
\<close>

theorem requests_well_typed:
  assumes "utf8_valid gas"
  shows "\<exists>e x. serialize_estimate_gas_request (gas_request (call_data n) (prefixed f) (prefixed t)) = (Ok e :: (ser, client_error) outcome) \<and>
     serialize_eth_transaction (eth_transaction_for (prefixed f) (prefixed t) gas (call_data n)) = (Ok x :: (ser, client_error) outcome) \<and>
     (typed_call estimate_type e \<longleftrightarrow> length f = 40 \<and> length t = 40 \<and> list_all hex_byte (f @ t)) \<and>
     (typed_call transaction_type x \<longleftrightarrow> typed_call estimate_type e \<and> eth_quantity gas)"
proof -
  obtain e where e: "serialize_estimate_gas_request (gas_request (call_data n) (prefixed f) (prefixed t)) = (Ok e :: (ser, client_error) outcome)"
      "typed_call estimate_type e \<longleftrightarrow> eth_datum 20 (prefixed f) \<and> eth_datum 20 (prefixed t) \<and> eth_datum 36 (call_data n)"
    using estimate_tree [of "prefixed f" "prefixed t" "call_data n"] by auto
  obtain x where x: "serialize_eth_transaction (eth_transaction_for (prefixed f) (prefixed t) gas (call_data n)) = (Ok x :: (ser, client_error) outcome)"
      "typed_call transaction_type x \<longleftrightarrow> eth_datum 20 (prefixed f) \<and> eth_datum 20 (prefixed t) \<and> eth_datum 36 (call_data n) \<and> eth_quantity gas"
    using transaction_tree [of "prefixed f" "prefixed t" "call_data n" gas] assms by auto
  show ?thesis
    by (rule exI [of _ e], rule exI [of _ x]) (use e x in \<open>auto simp: eth_datum_call_data eth_datum_prefixed\<close>)
qed

theorem requests_well_typed_witness:
  "\<exists>x. serialize_eth_transaction (eth_transaction_for (prefixed (replicate 40 48)) (prefixed (replicate 40 97)) (lit ''0x1'') (call_data 1842)) =
      (Ok x :: (ser, client_error) outcome) \<and> typed_call transaction_type x"
  using requests_well_typed [of "lit ''0x1''" 1842 "replicate 40 48" "replicate 40 97"]
  by (auto simp: eth_quantity_literals list_all_iff hex_byte_def)

section \<open>The derived readers\<close>

text \<open>
  What a derived \<^verbatim>\<open>Deserialize\<close> needs from the library beside \<open>json_api\<close>: the elements of a
  sequence, and the deserializers of the named fields of a struct (unknown fields are skipped, a missing one is an error).
\<close>

record 'd json_reader = "'d json_api" +
  de_list :: "'d \<Rightarrow> 'd list option"
  de_fields :: "'d \<Rightarrow> str list \<Rightarrow> 'd list option"

abbreviation de_text :: "'d json_reader \<Rightarrow> 'd \<Rightarrow> bytes option" where
  "de_text api \<equiv> de_string_to_bytes (json_api.truncate api)"

definition eth_params_fields :: "str list" where
  "eth_params_fields = [lit ''from'', lit ''to'', lit ''data'', lit ''value'', lit ''gas'', lit ''gasPrice'']"

definition gas_request_param_fields :: "str list" where
  "gas_request_param_fields = [lit ''from'', lit ''to'', lit ''data'', lit ''value'']"

definition request_fields_names :: "str list" where
  "request_fields_names = [lit ''jsonrpc'', lit ''id'', lit ''method'', lit ''params'']"

definition deserialize_eth_params :: "'d json_reader \<Rightarrow> 'd \<Rightarrow> eth_params option" where
  "deserialize_eth_params api d = do {
     ds \<leftarrow> de_fields api d eth_params_fields;
     vs \<leftarrow> those (map (de_text api) ds);
     (case vs of
        [f, t, da, v, g, p] \<Rightarrow> Some \<lparr>ep_from = f, ep_to = t, ep_data = da, ep_value = v, ep_gas = g, ep_gas_price = p\<rparr>
      | _ \<Rightarrow> None)}"

definition deserialize_gas_request_param :: "'d json_reader \<Rightarrow> 'd \<Rightarrow> gas_request_param option" where
  "deserialize_gas_request_param api d = do {
     ds \<leftarrow> de_fields api d gas_request_param_fields;
     vs \<leftarrow> those (map (de_text api) ds);
     (case vs of
        [f, t, da, v] \<Rightarrow> Some \<lparr>gp_from = f, gp_to = t, gp_data = da, gp_value = v\<rparr>
      | _ \<Rightarrow> None)}"

text \<open>The common shape of the two requests: version, identifier, name, parameters.\<close>

definition deserialize_request :: "'d json_reader \<Rightarrow> ('d \<Rightarrow> 'p option) \<Rightarrow> 'd \<Rightarrow> (bytes \<times> u8 \<times> bytes \<times> 'p list) option" where
  "deserialize_request api elem d = do {
     ds \<leftarrow> de_fields api d request_fields_names;
     (case ds of
        [j, i, m, ps] \<Rightarrow> do {
          j \<leftarrow> de_text api j;
          i \<leftarrow> de_u8 api i;
          m \<leftarrow> de_text api m;
          es \<leftarrow> de_list api ps;
          ps \<leftarrow> those (map elem es);
          Some (j, i, m, ps)}
      | _ \<Rightarrow> None)}"

definition deserialize_eth_transaction :: "'d json_reader \<Rightarrow> 'd \<Rightarrow> eth_transaction option" where
  "deserialize_eth_transaction api d =
     map_option (\<lambda>(j, i, m, ps). \<lparr>et_jsonrpc = j, et_id = i, et_method = m, et_params = ps\<rparr>)
       (deserialize_request api (deserialize_eth_params api) d)"

definition deserialize_estimate_gas_request :: "'d json_reader \<Rightarrow> 'd \<Rightarrow> estimate_gas_request option" where
  "deserialize_estimate_gas_request api d =
     map_option (\<lambda>(j, i, m, ps). \<lparr>eg_jsonrpc = j, eg_id = i, eg_method = m, eg_params = ps\<rparr>)
       (deserialize_request api (deserialize_gas_request_param api) d)"

text \<open>
  A text that JSON writes as it is: no quote, no backslash, no control character. Every other text is written with escapes, and a borrowed
  \<^verbatim>\<open>&str\<close> cannot be read from it.
\<close>

definition plain_text :: "bytes \<Rightarrow> bool" where
  "plain_text s \<longleftrightarrow> list_all (\<lambda>b. 32 \<le> b \<and> b \<noteq> 34 \<and> b \<noteq> 92) s"

definition plain_eth_params :: "eth_params \<Rightarrow> bool" where
  "plain_eth_params p \<longleftrightarrow> list_all plain_text [ep_from p, ep_to p, ep_data p, ep_value p, ep_gas p, ep_gas_price p]"

definition plain_gas_request_param :: "gas_request_param \<Rightarrow> bool" where
  "plain_gas_request_param p \<longleftrightarrow> list_all plain_text [gp_from p, gp_to p, gp_data p, gp_value p]"

definition plain_eth_transaction :: "eth_transaction \<Rightarrow> bool" where
  "plain_eth_transaction x \<longleftrightarrow> plain_text (et_jsonrpc x) \<and> plain_text (et_method x) \<and> list_all plain_eth_params (et_params x)"

definition plain_estimate_gas_request :: "estimate_gas_request \<Rightarrow> bool" where
  "plain_estimate_gas_request r \<longleftrightarrow> plain_text (eg_jsonrpc r) \<and> plain_text (eg_method r) \<and> list_all plain_gas_request_param (eg_params r)"

text \<open>
  A deserializer presents a serialized value: it gives back the plain texts and refuses the others, gives back the numbers and elements, and of a
  struct the fields asked for, whatever their order. This is what printing with \<open>to_vec\<close> and reading the text back promises.
\<close>

inductive presents :: "'d json_reader \<Rightarrow> 'd \<Rightarrow> ser \<Rightarrow> bool" for api :: "'d json_reader" where
  of_str: "de_str api d = (if plain_text s then Some s else None) \<Longrightarrow> presents api d (SerStr s)"
| of_u8: "de_u8 api d = Some n \<Longrightarrow> presents api d (SerU8 n)"
| of_seq: "de_list api d = Some ds \<Longrightarrow> length ds = length vs \<Longrightarrow>
    (\<And>i. i < length vs \<Longrightarrow> presents api (ds ! i) (vs ! i)) \<Longrightarrow> presents api d (SerSeq vs)"
| of_struct: "(\<And>name. name \<in> fst ` set fs \<Longrightarrow> presents api (sub name) (the (map_of fs name))) \<Longrightarrow>
    (\<And>names. set names \<subseteq> fst ` set fs \<Longrightarrow> de_fields api d names = Some (map sub names)) \<Longrightarrow>
    presents api d (SerStruct sn n fs)"

inductive_cases presents_textE: "presents api d (SerStr s)"
inductive_cases presents_byteE: "presents api d (SerU8 n)"
inductive_cases presents_listE: "presents api d (SerSeq vs)"
inductive_cases presents_structE: "presents api d (SerStruct sn n fs)"

lemma de_text_presents: "presents api d (SerStr s) \<Longrightarrow> de_text api d = (if plain_text s then Some s else None)"
  by (auto simp: de_string_to_bytes_def json_api.truncate_def elim: presents_textE)

lemma those_map_if:
  "(\<And>i. i < length ds \<Longrightarrow> f (ds ! i) = (if P (xs ! i) then Some (xs ! i) else None)) \<Longrightarrow> length ds = length xs \<Longrightarrow>
     those (map f ds) = (if list_all P xs then Some xs else None)"
proof (induction ds arbitrary: xs)
  case (Cons d ds)
  then obtain x ys where xs: "xs = x # ys" by (cases xs) auto
  have "those (map f ds) = (if list_all P ys then Some ys else None)"
    using Cons.prems(1) [of "Suc _"] Cons.prems(2) by (intro Cons.IH) (auto simp: xs)
  with Cons.prems(1) [of 0] show ?case by (simp add: xs)
qed simp

lemma ser_seq_nth:
  "ser_seq f xs = Ok vs \<Longrightarrow> length vs = length xs \<and> (\<forall>i < length xs. f (xs ! i) = Ok (vs ! i))"
proof (induction xs arbitrary: vs)
  case (Cons x xs)
  then obtain v ws where "f x = Ok v" "ser_seq f xs = Ok ws" "vs = v # ws" by (auto simp: obind_Ok_iff)
  with Cons.IH [of ws] show ?case by (auto simp: nth_Cons split: nat.split)
qed simp

lemma presents_fields:
  assumes "presents api d (SerStruct sn n (zip names vs))" "distinct names" "length names = length vs"
  obtains ds where "de_fields api d names = Some ds" "length ds = length vs" "\<And>i. i < length vs \<Longrightarrow> presents api (ds ! i) (vs ! i)"
  using assms(1)
proof (rule presents_structE)
  fix sub
  assume sub: "\<And>name. name \<in> fst ` set (zip names vs) \<Longrightarrow> presents api (sub name) (the (map_of (zip names vs) name))"
    and f: "\<And>ns. set ns \<subseteq> fst ` set (zip names vs) \<Longrightarrow> de_fields api d ns = Some (map sub ns)"
  have s: "fst ` set (zip names vs) = set names"
    using assms(3) by (metis list.set_map map_fst_zip)
  have m: "map_of (zip names vs) (names ! i) = Some (vs ! i)" if "i < length vs" for i
    using that assms(2,3) by (intro map_of_is_SomeI) (auto simp: set_zip)
  have "presents api (sub (names ! i)) (vs ! i)" if "i < length vs" for i
    using sub [of "names ! i"] m [OF that] that assms(3) by (simp add: s)
  then show thesis
    using f [of names] assms(3) by (intro that [of "map sub names"]) (auto simp: s)
qed

lemma presents_text_fields:
  assumes "presents api d (SerStruct sn n (zip names (map SerStr ss)))" "distinct names" "length names = length ss"
  shows "Option.bind (de_fields api d names) (\<lambda>ds. those (map (de_text api) ds)) = (if list_all plain_text ss then Some ss else None)"
proof -
  from assms obtain ds where "de_fields api d names = Some ds" "length ds = length ss"
      "\<And>i. i < length ss \<Longrightarrow> presents api (ds ! i) (map SerStr ss ! i)"
    by (auto elim: presents_fields)
  moreover from this have "those (map (de_text api) ds) = (if list_all plain_text ss then Some ss else None)"
    by (intro those_map_if) (simp_all add: de_text_presents)
  ultimately show ?thesis by simp
qed

lemma deserialize_eth_params_inverts:
  assumes "serialize_eth_params p = (Ok v :: (ser, 'e) outcome)" "presents api d v"
  shows "deserialize_eth_params api d = (if plain_eth_params p then Some p else None)"
proof -
  from assms(1) have "v = SerStruct (lit ''EthParams'') 6 (zip eth_params_fields
      (map SerStr [ep_from p, ep_to p, ep_data p, ep_value p, ep_gas p, ep_gas_price p]))"
    by (auto simp: serialize_eth_params_def ser_text_eq eth_params_fields_def obind_Ok_iff split: if_splits)
  with assms(2) presents_text_fields [of api d _ _ eth_params_fields "[ep_from p, ep_to p, ep_data p, ep_value p, ep_gas p, ep_gas_price p]"]
  have "Option.bind (de_fields api d eth_params_fields) (\<lambda>ds. those (map (de_text api) ds)) =
      (if plain_eth_params p then Some [ep_from p, ep_to p, ep_data p, ep_value p, ep_gas p, ep_gas_price p] else None)"
    by (simp add: eth_params_fields_def lit_def plain_eth_params_def)
  then show ?thesis
    by (cases "plain_eth_params p") (auto simp: deserialize_eth_params_def bind_eq_Some_conv bind_eq_None_conv)
qed

lemma deserialize_gas_request_param_inverts:
  assumes "serialize_gas_request_param p = (Ok v :: (ser, 'e) outcome)" "presents api d v"
  shows "deserialize_gas_request_param api d = (if plain_gas_request_param p then Some p else None)"
proof -
  from assms(1) have "v = SerStruct (lit ''EthParams'') 4 (zip gas_request_param_fields
      (map SerStr [gp_from p, gp_to p, gp_data p, gp_value p]))"
    by (auto simp: serialize_gas_request_param_def ser_text_eq gas_request_param_fields_def obind_Ok_iff split: if_splits)
  with assms(2) presents_text_fields [of api d _ _ gas_request_param_fields "[gp_from p, gp_to p, gp_data p, gp_value p]"]
  have "Option.bind (de_fields api d gas_request_param_fields) (\<lambda>ds. those (map (de_text api) ds)) =
      (if plain_gas_request_param p then Some [gp_from p, gp_to p, gp_data p, gp_value p] else None)"
    by (simp add: gas_request_param_fields_def lit_def plain_gas_request_param_def)
  then show ?thesis
    by (cases "plain_gas_request_param p") (auto simp: deserialize_gas_request_param_def bind_eq_Some_conv bind_eq_None_conv)
qed

lemma deserialize_request_inverts:
  assumes "ser_seq ser ps = (Ok vs :: (ser list, 'e) outcome)"
    and elem: "\<And>p v d. ser p = Ok v \<Longrightarrow> presents api d v \<Longrightarrow> elem d = (if P p then Some p else None)"
    and p: "presents api d (SerStruct sn 4 (zip request_fields_names [SerStr j, SerU8 i, SerStr m, SerSeq vs]))"
  shows "deserialize_request api elem d = (if plain_text j \<and> plain_text m \<and> list_all P ps then Some (j, i, m, ps) else None)"
proof -
  have "distinct request_fields_names" "length request_fields_names = 4"
    by (simp_all add: request_fields_names_def lit_def)
  with p obtain ds where ds: "de_fields api d request_fields_names = Some ds" "length ds = 4"
      "\<And>k. k < 4 \<Longrightarrow> presents api (ds ! k) ([SerStr j, SerU8 i, SerStr m, SerSeq vs] ! k)"
    by (elim presents_fields) auto
  then obtain dj di dm dp where d: "ds = [dj, di, dm, dp]"
    by (auto simp: numeral_eq_Suc length_Suc_conv)
  have f: "presents api dj (SerStr j)" "presents api di (SerU8 i)" "presents api dm (SerStr m)" "presents api dp (SerSeq vs)"
    using ds(3) [of 0] ds(3) [of 1] ds(3) [of 2] ds(3) [of 3] by (simp_all add: d)
  from f(2) have i: "de_u8 api di = Some i" by (rule presents_byteE)
  from f(4) show ?thesis
  proof (rule presents_listE)
    fix es assume es: "de_list api dp = Some es" "length es = length vs" "\<And>k. k < length vs \<Longrightarrow> presents api (es ! k) (vs ! k)"
    have "those (map elem es) = (if list_all P ps then Some ps else None)"
      using ser_seq_nth [OF assms(1)] es by (intro those_map_if elem) auto
    with es i ds(1) d de_text_presents [OF f(1)] de_text_presents [OF f(3)] show ?thesis
      by (simp add: deserialize_request_def)
  qed
qed

text \<open>
  C20. A reader that presents what the hand-written \<open>Serialize\<close> of a request produced gives back the same request through the derived
  \<open>Deserialize\<close> (field names, renamed ones included, and types agree) exactly when every text of the request and of its parameters is written
  without escapes; a request with a quote, a backslash or a control character in one of its texts is refused, since the texts are
  read as borrowed slices. This holds for both requests.
\<close>

theorem serialized_requests_read_back:
  "(serialize_eth_transaction x = (Ok v :: (ser, 'e) outcome) \<and> presents api d v \<longrightarrow>
      deserialize_eth_transaction api d = (if plain_eth_transaction x then Some x else None)) \<and>
   (serialize_estimate_gas_request r = (Ok w :: (ser, 'e) outcome) \<and> presents api d w \<longrightarrow>
      deserialize_estimate_gas_request api d = (if plain_estimate_gas_request r then Some r else None))"
proof (intro conjI impI; elim conjE)
  assume a: "serialize_eth_transaction x = (Ok v :: (ser, 'e) outcome)" and p: "presents api d v"
  from a obtain vs where vs: "ser_seq serialize_eth_params (et_params x) = (Ok vs :: (ser list, 'e) outcome)"
      "v = SerStruct (lit ''EthParams'') 4 (zip request_fields_names [SerStr (et_jsonrpc x), SerU8 (et_id x), SerStr (et_method x), SerSeq vs])"
    by (auto simp: serialize_eth_transaction_def obind_Ok_iff ser_text_eq request_fields_names_def split: if_splits)
  have "deserialize_request api (deserialize_eth_params api) d =
      (if plain_eth_transaction x then Some (et_jsonrpc x, et_id x, et_method x, et_params x) else None)"
    unfolding plain_eth_transaction_def
    using p by (intro deserialize_request_inverts [OF vs(1) deserialize_eth_params_inverts]) (auto simp: vs(2))
  then show "deserialize_eth_transaction api d = (if plain_eth_transaction x then Some x else None)"
    by (simp add: deserialize_eth_transaction_def)
next
  assume a: "serialize_estimate_gas_request r = (Ok w :: (ser, 'e) outcome)" and p: "presents api d w"
  from a obtain vs where vs: "ser_seq serialize_gas_request_param (eg_params r) = (Ok vs :: (ser list, 'e) outcome)"
      "w = SerStruct (lit ''EthParams'') 4 (zip request_fields_names [SerStr (eg_jsonrpc r), SerU8 (eg_id r), SerStr (eg_method r), SerSeq vs])"
    by (auto simp: serialize_estimate_gas_request_def obind_Ok_iff ser_text_eq request_fields_names_def split: if_splits)
  have "deserialize_request api (deserialize_gas_request_param api) d =
      (if plain_estimate_gas_request r then Some (eg_jsonrpc r, eg_id r, eg_method r, eg_params r) else None)"
    unfolding plain_estimate_gas_request_def
    using p by (intro deserialize_request_inverts [OF vs(1) deserialize_gas_request_param_inverts]) (auto simp: vs(2))
  then show "deserialize_estimate_gas_request api d = (if plain_estimate_gas_request r then Some r else None)"
    by (simp add: deserialize_estimate_gas_request_def)
qed

text \<open>
  A reader of printed values: a text is printed with escapes, and a borrowed read takes the printed text as it stands unless there is an escape in it.
\<close>

definition escape_byte :: "u8 \<Rightarrow> bytes" where
  "escape_byte b =
     (if b = 34 \<or> b = 92 then [92, b]
      else if b < 32 then [92, 117, 48, 48, digit_byte (unat b div 16), digit_byte (unat b mod 16)] else [b])"

definition escape :: "bytes \<Rightarrow> bytes" where
  "escape s = concat (map escape_byte s)"

primrec printed :: "ser \<Rightarrow> ser" where
  "printed (SerStr s) = SerStr (escape s)"
| "printed (SerU8 n) = SerU8 n"
| "printed (SerSeq vs) = SerSeq (map printed vs)"
| "printed (SerStruct sn n fs) = SerStruct sn n (map (map_prod id printed) fs)"

definition borrowing_reader :: "ser json_reader" where
  "borrowing_reader = \<lparr>json_struct = (\<lambda>_ _. None),
     de_str = (\<lambda>v. case v of SerStr s \<Rightarrow> if 92 \<in> set s then None else Some s | _ \<Rightarrow> None),
     de_u8 = (\<lambda>v. case v of SerU8 n \<Rightarrow> Some n | _ \<Rightarrow> None),
     to_vec = (\<lambda>_. None), de_list = (\<lambda>v. case v of SerSeq vs \<Rightarrow> Some vs | _ \<Rightarrow> None),
     de_fields = (\<lambda>v names. case v of SerStruct _ _ fs \<Rightarrow> those (map (map_of fs) names) | _ \<Rightarrow> None)\<rparr>"

lemma escape_plain: "92 \<in> set (escape s) \<longleftrightarrow> \<not> plain_text s" "plain_text s \<Longrightarrow> escape s = s"
  by (induction s) (auto simp: escape_def escape_byte_def plain_text_def not_less)

lemma printed_presents: "presents borrowing_reader (printed v) v"
proof (induction v)
  case (SerStruct sn n fs)
  have get: "map_of (map (map_prod id printed) fs) name = map_option printed (map_of fs name)" for name
    by (induction fs) auto
  show ?case
    unfolding printed.simps
  proof (rule presents.of_struct [where sub = "\<lambda>name. printed (the (map_of fs name))"])
    fix name assume "name \<in> fst ` set fs"
    then obtain v where "map_of fs name = Some v" by (metis map_of_eq_None_iff not_None_eq)
    with SerStruct show "presents borrowing_reader (printed (the (map_of fs name))) (the (map_of fs name))"
      by (auto dest: map_of_SomeD)
  next
    fix names assume "set names \<subseteq> fst ` set fs"
    then show "de_fields borrowing_reader (SerStruct sn n (map (map_prod id printed) fs)) names =
        Some (map (\<lambda>name. printed (the (map_of fs name))) names)"
      by (induction names) (auto simp: borrowing_reader_def get split: option.split dest: weak_map_of_SomeI)
  qed
qed (auto simp: borrowing_reader_def escape_plain intro!: presents.intros)

text \<open>A sender with a letter in its text is read back, one with a quote is not.\<close>

theorem serialized_requests_read_back_witness:
  "(\<exists>v. serialize_eth_transaction (eth_transaction_for [102] [116] [49] [100]) = (Ok v :: (ser, unit) outcome) \<and>
      deserialize_eth_transaction borrowing_reader (printed v) = Some (eth_transaction_for [102] [116] [49] [100])) \<and>
   (\<exists>v. serialize_eth_transaction (eth_transaction_for [34] [116] [49] [100]) = (Ok v :: (ser, unit) outcome) \<and>
      deserialize_eth_transaction borrowing_reader (printed v) = None)"
proof -
  have ok: "\<exists>v. serialize_eth_transaction (eth_transaction_for [f] [116] [49] [100]) = (Ok v :: (ser, unit) outcome)" if "utf8_valid [f]" for f
    using that by (cases "serialize_eth_transaction (eth_transaction_for [f] [116] [49] [100]) :: (ser, unit) outcome")
      (auto simp: serialize_no_err serialize_eth_transaction_panic_iff eth_transaction_for_text)
  have plain: "plain_eth_transaction (eth_transaction_for [102] [116] [49] [100])" "\<not> plain_eth_transaction (eth_transaction_for [34] [116] [49] [100])"
    by (simp_all add: plain_eth_transaction_def plain_eth_params_def eth_transaction_for_def plain_text_def lit_def)
  note reads = serialized_requests_read_back [THEN conjunct1, rule_format, OF conjI, OF _ printed_presents]
  have "utf8_valid [102]" "utf8_valid [34]" by simp_all
  with ok obtain v w where "serialize_eth_transaction (eth_transaction_for [102] [116] [49] [100]) = (Ok v :: (ser, unit) outcome)"
    "serialize_eth_transaction (eth_transaction_for [34] [116] [49] [100]) = (Ok w :: (ser, unit) outcome)" by blast
  with reads [OF this(1)] reads [OF this(2)] plain show ?thesis by auto
qed

end
