(* ===== verification/Template_Pallet.thy ===== *)
theory Template_Pallet
  imports Ownership
begin

text \<open>
  The proof-of-existence pallet, \<^verbatim>\<open>pallets/template/src/lib.rs\<close>: a map from proofs (byte
  vectors) to the account that claimed them and the block of the claim, and the two calls
  that create and revoke a claim. The origin check and the default of the storage map's
  value query are fields of the configuration; the block number of the system pallet comes
  with the origin of each call.
\<close>

section \<open>Data\<close>

datatype 'acc template_event = ClaimCreated 'acc bytes | ClaimRevoked 'acc bytes

datatype template_error = TemplateBadOrigin | ProofAlreadyClaimed | NoSuchProof | NotProofOwner

record ('acc, 'bn) template_state =
  Proofs :: "bytes \<rightharpoonup> 'acc \<times> 'bn"
  template_events :: "'acc template_event list"

record ('o, 'acc, 'bn) template_config =
  t_ensure_signed :: "'o \<Rightarrow> 'acc option"
  t_default :: "'acc \<times> 'bn"

type_synonym ('acc, 'bn) template_handler = "(template_error, unit, ('acc, 'bn) template_state) dispatchable"

definition template_deposit :: "'acc template_event \<Rightarrow> ('acc, 'bn) template_state \<Rightarrow> ('acc, 'bn) template_state" where
  "template_deposit ev st = st\<lparr>template_events := template_events st @ [ev]\<rparr>"

definition proofs_get :: "('o, 'acc, 'bn) template_config \<Rightarrow> ('acc, 'bn) template_state \<Rightarrow> bytes \<Rightarrow> 'acc \<times> 'bn" where
  "proofs_get cfg st proof = (case Proofs st proof of Some v \<Rightarrow> v | None \<Rightarrow> t_default cfg)"

definition empty_template_state :: "('acc, 'bn) template_state" where
  "empty_template_state = \<lparr>Proofs = Map.empty, template_events = []\<rparr>"

section \<open>Calls\<close>

definition create_claim ::
  "('o, 'acc, 'bn) template_config \<Rightarrow> 'o \<times> 'bn \<Rightarrow> bytes \<Rightarrow> ('acc, 'bn) template_handler" where
  "create_claim cfg ctx proof =
     try_let TemplateBadOrigin (t_ensure_signed cfg (fst ctx)) (\<lambda>sender st.
     ensure (Proofs st proof = None) ProofAlreadyClaimed (\<lambda>st.
       let current_block = snd ctx;
           st = st\<lparr>Proofs := (Proofs st)(proof \<mapsto> (sender, current_block))\<rparr>
       in (Inr (), template_deposit (ClaimCreated sender proof) st)) st)"

definition revoke_claim ::
  "('o, 'acc, 'bn) template_config \<Rightarrow> 'o \<times> 'bn \<Rightarrow> bytes \<Rightarrow> ('acc, 'bn) template_handler" where
  "revoke_claim cfg ctx proof =
     try_let TemplateBadOrigin (t_ensure_signed cfg (fst ctx)) (\<lambda>sender st.
     ensure (Proofs st proof \<noteq> None) NoSuchProof (\<lambda>st.
       let (owner, _) = proofs_get cfg st proof in
       ensure (sender = owner) NotProofOwner (\<lambda>st.
         let st = st\<lparr>Proofs := (Proofs st)(proof := None)\<rparr>
         in (Inr (), template_deposit (ClaimRevoked sender proof) st)) st) st)"

datatype template_call = Call_create_claim bytes | Call_revoke_claim bytes

fun template_dispatch ::
  "('o, 'acc, 'bn) template_config \<Rightarrow> 'o \<times> 'bn \<Rightarrow> template_call \<Rightarrow> ('acc, 'bn) template_handler" where
  "template_dispatch cfg ctx (Call_create_claim proof) = create_claim cfg ctx proof"
| "template_dispatch cfg ctx (Call_revoke_claim proof) = revoke_claim cfg ctx proof"

fun template_weight :: "template_call \<Rightarrow> u64" where
  "template_weight (Call_create_claim _) = 1000"
| "template_weight (Call_revoke_claim _) = 10000"

section \<open>What the calls do\<close>

lemma create_claim_ok:
  "create_claim cfg ctx proof st = (Inr (), st') \<longleftrightarrow>
     (\<exists>sender. t_ensure_signed cfg (fst ctx) = Some sender \<and> Proofs st proof = None \<and>
       st' = st\<lparr>Proofs := (Proofs st)(proof \<mapsto> (sender, snd ctx)),
                template_events := template_events st @ [ClaimCreated sender proof]\<rparr>)"
  by (auto simp: create_claim_def template_deposit_def Let_def)

lemma revoke_claim_ok:
  "revoke_claim cfg ctx proof st = (Inr (), st') \<longleftrightarrow>
     (\<exists>sender b. t_ensure_signed cfg (fst ctx) = Some sender \<and> Proofs st proof = Some (sender, b) \<and>
       st' = st\<lparr>Proofs := (Proofs st)(proof := None),
                template_events := template_events st @ [ClaimRevoked sender proof]\<rparr>)"
  by (auto simp: revoke_claim_def template_deposit_def proofs_get_def Let_def)

lemmas template_ok = create_claim_ok revoke_claim_ok

lemma template_dispatch_keeps: "keeps_on_error (template_dispatch cfg ctx c st) st"
  by (cases c) (auto simp: create_claim_def revoke_claim_def Let_def split_beta intro!: keeps_intros)

lemmas template_error_keeps = keeps_on_errorD [OF template_dispatch_keeps]

interpretation template_atomic: atomic_machine "template_dispatch cfg"
  for cfg :: "('o, 'acc, 'bn) template_config"
  by unfold_locales (rule template_error_keeps)

lemma template_dispatch_preserve:
  assumes "P st" and "\<And>st'. template_dispatch cfg ctx c st = (Inr (), st') \<Longrightarrow> P st'"
  shows "P (snd (template_dispatch cfg ctx c st))"
proof (cases "template_dispatch cfg ctx c st")
  case (Pair r st')
  then show ?thesis
    using assms by (cases r) (auto dest: template_error_keeps)
qed

section \<open>The pallet is an ownership registry\<close>

definition proof_owner :: "('acc, 'bn) template_state \<Rightarrow> bytes \<Rightarrow> 'acc option" where
  "proof_owner st proof = map_option fst (Proofs st proof)"

interpretation template_registry: ownership_registry
    proof_owner "\<lambda>ctx. t_ensure_signed cfg (fst ctx)" "create_claim cfg" "revoke_claim cfg" "\<lambda>_. True" "\<lambda>_ _. False"
  for cfg :: "('o, 'acc, 'bn) template_config"
proof unfold_locales
  fix ctx k and s s' :: "('acc, 'bn) template_state" and e
  show "s' = s" if "create_claim cfg ctx k s = (Inl e, s')"
    using template_error_keeps [of cfg ctx "Call_create_claim k"] that by simp
  show "s' = s" if "revoke_claim cfg ctx k s = (Inl e, s')"
    using template_error_keeps [of cfg ctx "Call_revoke_claim k"] that by simp
qed (auto simp: template_ok proof_owner_def fun_eq_iff)

text \<open>
  A claim is exclusive: once it is created, a second claim of the same proof fails
  for every origin, only its owner can revoke it, and when the owner does, the owners of
  all proofs are again what they were before the claim.
\<close>

lemma proof_claim_exclusive:
  assumes "create_claim cfg ctx p st = (Inr (), st')"
  shows "(\<forall>ctx'. \<exists>e. create_claim cfg ctx' p st' = (Inl e, st')) \<and>
    (\<forall>ctx'. t_ensure_signed cfg (fst ctx') \<noteq> t_ensure_signed cfg (fst ctx) \<longrightarrow>
       (\<exists>e. revoke_claim cfg ctx' p st' = (Inl e, st'))) \<and>
    (\<exists>st''. revoke_claim cfg ctx p st' = (Inr (), st'') \<and> proof_owner st'' = proof_owner st)"
  using template_registry.claimed_exclusive [OF assms] template_registry.claim_release [OF assms]
  by auto

lemma proof_claim_exclusive_example:
  "\<exists>st'. create_claim \<lparr>t_ensure_signed = Some, t_default = (0, 0)\<rparr> (1::nat, 5::nat) [1, 2] empty_template_state = (Inr (), st') \<and>
     (\<exists>e. create_claim \<lparr>t_ensure_signed = Some, t_default = (0, 0)\<rparr> (2, 6) [1, 2] st' = (Inl e, st')) \<and>
     (\<exists>e. revoke_claim \<lparr>t_ensure_signed = Some, t_default = (0, 0)\<rparr> (2, 6) [1, 2] st' = (Inl e, st'))"
proof -
  obtain st' where st': "create_claim \<lparr>t_ensure_signed = Some, t_default = (0, 0)\<rparr> (1::nat, 5::nat) [1, 2] empty_template_state = (Inr (), st')"
    by (auto simp: create_claim_ok empty_template_state_def)
  from proof_claim_exclusive [OF st'] st' show ?thesis by fastforce
qed

section \<open>Claims are stable\<close>

lemma proof_stable_step:
  assumes "Proofs st p = Some (a, b)" and "c = Call_revoke_claim p \<longrightarrow> t_ensure_signed cfg (fst ctx) \<noteq> Some a"
  shows "Proofs (snd (template_dispatch cfg ctx c st)) p = Some (a, b)"
  using assms(1)
proof (rule template_dispatch_preserve)
  fix st' assume "template_dispatch cfg ctx c st = (Inr (), st')"
  then show "Proofs st' p = Some (a, b)"
    using assms by (cases c) (auto simp: template_ok)
qed

text \<open>
  C34. A stored claim, its owner and the block it was made in, cannot be changed: in any run
  of calls in which the owner does not revoke that proof, the entry stays as it is.
\<close>

theorem proof_claim_stable:
  assumes "Proofs st p = Some (a, b)"
    and "\<forall>(ctx, c) \<in> set cs. c = Call_revoke_claim p \<longrightarrow> t_ensure_signed cfg (fst ctx) \<noteq> Some a"
  shows "Proofs (run_calls (template_dispatch cfg) cs st) p = Some (a, b)"
  using assms
proof (induction cs arbitrary: st)
  case (Cons oc cs)
  obtain ctx c where oc: "oc = (ctx, c)" by (cases oc)
  have "Proofs (snd (template_dispatch cfg ctx c st)) p = Some (a, b)"
    using Cons.prems oc by (intro proof_stable_step) auto
  then show ?case using Cons oc by simp
qed simp

theorem proof_claim_stable_witness:
  "Proofs (run_calls (template_dispatch \<lparr>t_ensure_signed = Some, t_default = (0, 0)\<rparr>)
     [((2::nat, 7::nat), Call_create_claim [9]), ((2, 7), Call_revoke_claim [9])]
     (empty_template_state\<lparr>Proofs := [[9] \<mapsto> (1, 3)]\<rparr>)) [9] = Some (1, 3)"
  by (rule proof_claim_stable) (auto simp: empty_template_state_def)

section \<open>The events record the owners\<close>

fun replay_claim_event :: "'acc template_event \<Rightarrow> (bytes \<rightharpoonup> 'acc) \<Rightarrow> (bytes \<rightharpoonup> 'acc)" where
  "replay_claim_event (ClaimCreated a p) m = m(p \<mapsto> a)"
| "replay_claim_event (ClaimRevoked a p) m = m(p := None)"

interpretation template_log: event_log "template_dispatch cfg" template_events proof_owner replay_claim_event
  for cfg :: "('o, 'acc, 'bn) template_config"
proof unfold_locales
  fix ctx c and s :: "('acc, 'bn) template_state"
  show "\<exists>evs. template_events (snd (template_dispatch cfg ctx c s)) = template_events s @ evs \<and>
      proof_owner (snd (template_dispatch cfg ctx c s)) = fold replay_claim_event evs (proof_owner s)"
  proof (rule template_dispatch_preserve)
    show "\<exists>evs. template_events s = template_events s @ evs \<and> proof_owner s = fold replay_claim_event evs (proof_owner s)"
      by (rule exI [where x = "[]"]) simp
  next
    fix st' assume ok: "template_dispatch cfg ctx c s = (Inr (), st')"
    obtain ev where "template_events st' = template_events s @ [ev]" "proof_owner st' = replay_claim_event ev (proof_owner s)"
      using ok by (cases c) (auto simp: template_ok proof_owner_def fun_eq_iff)
    then show "\<exists>evs. template_events st' = template_events s @ evs \<and> proof_owner st' = fold replay_claim_event evs (proof_owner s)"
      by (intro exI [where x = "[ev]"]) simp
  qed
qed

text \<open>
  The claim events are a complete record of who owns which proof: replaying them over
  the empty map gives the owners that any run of calls from the empty storage leads to.
\<close>

lemma proof_events_record_owners:
  "proof_owner (run_calls (template_dispatch cfg) cs empty_template_state) =
     fold replay_claim_event (template_events (run_calls (template_dispatch cfg) cs empty_template_state)) Map.empty"
  using template_log.run_from_empty_log [of empty_template_state cfg cs]
  by (simp add: empty_template_state_def proof_owner_def [abs_def])

end
