(* ===== verification/Runtime.thy ===== *)
theory Runtime
  imports Authorization_Policy Template_Pallet Client_Handoff
begin

text \<open>
  The runtime, \<^verbatim>\<open>runtime/src/lib.rs\<close>: its constants, the configurations it gives the three
  pallets of this repository, the call and state types that \<^verbatim>\<open>construct_runtime!\<close> composes,
  dispatch and validation over the composition, and \<^verbatim>\<open>create_transaction\<close>. The pallets of the
  FRAME library are one opaque component; the origin checks of FRAME are arguments.
\<close>

section \<open>Types and constants\<close>

type_synonym block_number = u32
type_synonym balance = u128
type_synonym tx_index = u32

definition MILLISECS_PER_BLOCK :: u64 where
  "MILLISECS_PER_BLOCK = 6000"

definition SLOT_DURATION :: u64 where
  "SLOT_DURATION = MILLISECS_PER_BLOCK"

definition MINUTES :: block_number where
  "MINUTES = 60000 div ucast MILLISECS_PER_BLOCK"

definition HOURS :: block_number where
  "HOURS = MINUTES * 60"

definition DAYS :: block_number where
  "DAYS = HOURS * 24"

definition BlockHashCount :: block_number where
  "BlockHashCount = 2400"

definition MinimumPeriod :: u64 where
  "MinimumPeriod = SLOT_DURATION div 2"

definition ExistentialDeposit :: balance where
  "ExistentialDeposit = 500"

definition RuntimeMaxWellKnownNodes :: u32 where
  "RuntimeMaxWellKnownNodes = 8"

definition RuntimeMaxPeerIdLength :: u32 where
  "RuntimeMaxPeerIdLength = 128"

record runtime_version =
  spec_name :: str
  impl_name :: str
  authoring_version :: u32
  spec_version :: u32
  impl_version :: u32
  transaction_version :: u32

definition VERSION :: runtime_version where
  "VERSION = \<lparr>spec_name = lit ''supra'', impl_name = lit ''supra'', authoring_version = 1,
     spec_version = 100, impl_version = 1, transaction_version = 1\<rparr>"

section \<open>Configurations\<close>

text \<open>The origin checks of FRAME: root, a signer, none.\<close>

record ('o, 'acc) frame_origins =
  fo_root :: "'o \<Rightarrow> bool"
  fo_signed :: "'o \<Rightarrow> 'acc option"
  fo_none :: "'o \<Rightarrow> bool"

definition origins_exclusive :: "('o, 'acc) frame_origins \<Rightarrow> bool" where
  "origins_exclusive fo \<longleftrightarrow>
     (\<forall>org. \<not> (fo_root fo org \<and> fo_signed fo org \<noteq> None) \<and> \<not> (fo_root fo org \<and> fo_none fo org) \<and>
        \<not> (fo_none fo org \<and> fo_signed fo org \<noteq> None))"

record ('o, 'acc) runtime_env =
  env_origins :: "('o, 'acc) frame_origins"
  env_codec :: "u32 client_codec"
  env_default_account :: 'acc

definition runtime_auth_config :: "('o, 'acc) runtime_env \<Rightarrow> ('o, 'acc) auth_config" where
  "runtime_auth_config env = \<lparr>
     MaxWellKnownNodes = RuntimeMaxWellKnownNodes,
     MaxPeerIdLength = RuntimeMaxPeerIdLength,
     AddOrigin = fo_root (env_origins env),
     RemoveOrigin = fo_root (env_origins env),
     SwapOrigin = fo_root (env_origins env),
     ResetOrigin = fo_root (env_origins env),
     WeightInfo = unit_weight_info,
     ensure_signed = fo_signed (env_origins env),
     default_account = env_default_account env\<rparr>"

definition runtime_template_config :: "('o, 'acc) runtime_env \<Rightarrow> ('o, 'acc, u32) template_config" where
  "runtime_template_config env =
     \<lparr>t_ensure_signed = fo_signed (env_origins env), t_default = (env_default_account env, 0)\<rparr>"

definition runtime_client_config :: "('o, 'acc) runtime_env \<Rightarrow> ('o, 'acc) client_config" where
  "runtime_client_config env =
     \<lparr>c_ensure_none = fo_none (env_origins env), c_ensure_signed = fo_signed (env_origins env)\<rparr>"

section \<open>The composed runtime\<close>

record ('acc, 'r) runtime_state =
  template_module :: "('acc, u32) template_state"
  light_client_module :: "'acc client_state"
  supra_authorization :: "'acc auth_state"
  other_pallets :: 'r

datatype ('acc, 'x) runtime_call =
    TemplateModule template_call
  | LightClient client_call
  | SupraAuthorization "'acc auth_call"
  | OtherPallet 'x

datatype 'e runtime_error =
    TemplateModuleError template_error
  | LightClientError client_dispatch_error
  | SupraAuthorizationError auth_error
  | OtherPalletError 'e

definition in_pallet ::
  "('S \<Rightarrow> 's) \<Rightarrow> ('s \<Rightarrow> 'S \<Rightarrow> 'S) \<Rightarrow> ('e \<Rightarrow> 'E) \<Rightarrow> ('e, 'a, 's) dispatchable \<Rightarrow> ('E, 'a, 'S) dispatchable" where
  "in_pallet get put err f S =
     (case f (get S) of (Inl e, s) \<Rightarrow> (Inl (err e), put s S) | (Inr x, s) \<Rightarrow> (Inr x, put s S))"

text \<open>
  Dispatch of a call in a context (origin and block number); \<open>other\<close> dispatches the calls of the library's
  pallets. It acts on the whole storage: the root calls \<^verbatim>\<open>set_storage\<close>, \<^verbatim>\<open>kill_storage\<close> and
  \<^verbatim>\<open>kill_prefix\<close> of the system pallet write the storage of any pallet. A call that the sudo pallet
  forwards counts as a call of its own, with the root origin that sudo gives it.
\<close>

fun runtime_dispatch ::
  "('o, 'acc) runtime_env \<Rightarrow> ('o \<times> u32 \<Rightarrow> 'x \<Rightarrow> ('e, unit, ('acc, 'r) runtime_state) dispatchable) \<Rightarrow> 'o \<times> u32 \<Rightarrow>
     ('acc, 'x) runtime_call \<Rightarrow> ('e runtime_error, unit, ('acc, 'r) runtime_state) dispatchable" where
  "runtime_dispatch env other ctx (TemplateModule c) =
     in_pallet template_module (\<lambda>s S. S\<lparr>template_module := s\<rparr>) TemplateModuleError
       (template_dispatch (runtime_template_config env) ctx c)"
| "runtime_dispatch env other ctx (LightClient c) =
     in_pallet light_client_module (\<lambda>s S. S\<lparr>light_client_module := s\<rparr>) LightClientError
       (client_dispatch (env_codec env) (runtime_client_config env) ctx c)"
| "runtime_dispatch env other ctx (SupraAuthorization c) =
     in_pallet supra_authorization (\<lambda>s S. S\<lparr>supra_authorization := s\<rparr>) SupraAuthorizationError
       (auth_dispatch (runtime_auth_config env) (fst ctx) c)"
| "runtime_dispatch env other ctx (OtherPallet x) =
     in_pallet (\<lambda>S. S) (\<lambda>s S. s) OtherPalletError (other ctx x)"

text \<open>
  A call that does not write the storage of the three pallets behind their backs: any call of the
  three, and a call of the library's pallets that leaves their storage alone (every one but a raw write).
  A raw write takes the root origin.
\<close>

fun keeps_pallets ::
  "('o \<times> u32 \<Rightarrow> 'x \<Rightarrow> ('e, unit, ('acc, 'r) runtime_state) dispatchable) \<Rightarrow> ('o \<times> u32) \<times> ('acc, 'x) runtime_call \<Rightarrow> bool" where
  "keeps_pallets other (ctx, OtherPallet x) \<longleftrightarrow> (\<forall>S. template_module (snd (other ctx x S)) = template_module S \<and>
     light_client_module (snd (other ctx x S)) = light_client_module S \<and> supra_authorization (snd (other ctx x S)) = supra_authorization S)"
| "keeps_pallets other _ \<longleftrightarrow> True"

definition raw_writes_need_root ::
  "('o, 'acc) runtime_env \<Rightarrow> ('o \<times> u32 \<Rightarrow> 'x \<Rightarrow> ('e, unit, ('acc, 'r) runtime_state) dispatchable) \<Rightarrow> bool" where
  "raw_writes_need_root env other \<longleftrightarrow> (\<forall>ctx x. \<not> fo_root (env_origins env) (fst ctx) \<longrightarrow> keeps_pallets other (ctx, OtherPallet x))"

lemma unprivileged_keeps:
  assumes "raw_writes_need_root env other" "\<forall>x \<in> set cs. \<not> fo_root (env_origins env) (fst (fst x))"
  shows "list_all (keeps_pallets other) cs"
proof -
  have "keeps_pallets other (ctx, c)" if "(ctx, c) \<in> set cs" for ctx c
    using that assms(1) bspec [OF assms(2) that] by (cases c; cases ctx) (auto simp: raw_writes_need_root_def)
  then show ?thesis by (auto simp: list_all_iff)
qed

text \<open>
  Of the pallets of this repository only \<^verbatim>\<open>LightClient\<close> is declared with
  \<^verbatim>\<open>ValidateUnsigned\<close>; any other call has no validator.
\<close>

datatype 'v runtime_validity = Validated 'v | NoUnsignedValidator

fun runtime_validate_unsigned ::
  "transaction_source \<Rightarrow> ('acc, 'x) runtime_call \<Rightarrow> (invalid_transaction + valid_transaction) runtime_validity" where
  "runtime_validate_unsigned source (LightClient c) = Validated (validate_unsigned source c)"
| "runtime_validate_unsigned source _ = NoUnsignedValidator"

section \<open>Signed transactions from off-chain workers\<close>

datatype check_marker = CheckSpecVersion | CheckTxVersion | CheckGenesis | CheckWeight

record 'era signed_extra =
  check_spec_version :: check_marker
  check_tx_version :: check_marker
  check_genesis :: check_marker
  check_era :: 'era
  check_nonce :: tx_index
  check_weight :: check_marker
  charge_tip :: balance

text \<open>\<^verbatim>\<open>SignedPayload\<close>, the era and the key's signature function are the library's.\<close>

record ('call, 'era, 'payload, 'pub, 'sig) signing_api =
  era_mortal :: "u64 \<Rightarrow> u64 \<Rightarrow> 'era"
  payload_new :: "'call \<Rightarrow> 'era signed_extra \<Rightarrow> 'payload option"
  payload_encoded :: "'payload \<Rightarrow> bytes"
  payload_deconstruct :: "'payload \<Rightarrow> 'call \<times> 'era signed_extra"
  sign_with :: "bytes \<Rightarrow> 'pub \<Rightarrow> 'sig option"

definition saturating_sub :: "u64 \<Rightarrow> u64 \<Rightarrow> u64" where
  "saturating_sub a b = (if b \<le> a then a - b else 0)"

definition create_transaction ::
  "('call, 'era, 'payload, 'pub, 'sig) signing_api \<Rightarrow> block_number \<Rightarrow> 'call \<Rightarrow> 'pub \<Rightarrow> 'acc \<Rightarrow> tx_index \<Rightarrow>
     ('call \<times> 'acc \<times> 'sig \<times> 'era signed_extra) option" where
  "create_transaction api block_number call public account index =
     (let period = ucast BlockHashCount;
          current_block = saturating_sub (ucast block_number) 1;
          tip = 0;
          extra = \<lparr>check_spec_version = CheckSpecVersion, check_tx_version = CheckTxVersion, check_genesis = CheckGenesis,
       check_era = era_mortal api period current_block, check_nonce = index, check_weight = CheckWeight, charge_tip = tip\<rparr>
      in case payload_new api call extra of
           None \<Rightarrow> None
         | Some raw_payload \<Rightarrow>
             (case sign_with api (payload_encoded api raw_payload) public of
                None \<Rightarrow> None
              | Some signature \<Rightarrow>
                  let (call, extra) = payload_deconstruct api raw_payload
                  in Some (call, account, signature, extra)))"

section \<open>Pallets as components of the runtime\<close>

text \<open>
  A machine that is a component of another: some calls of the whole are calls of the part,
  and of the others the well-behaved ones leave the part alone.
\<close>

locale component_machine =
  fixes whole :: "'O \<Rightarrow> 'C \<Rightarrow> ('E, 'a, 'S) dispatchable"
    and part :: "'o \<Rightarrow> 'c \<Rightarrow> ('e, 'b, 's) dispatchable"
    and get :: "'S \<Rightarrow> 's"
    and sel :: "'O \<times> 'C \<Rightarrow> ('o \<times> 'c) option"
    and ok :: "'O \<times> 'C \<Rightarrow> bool"
  assumes own_call: "sel (ctx, C) = Some (org, c) \<Longrightarrow> get (snd (whole ctx C S)) = snd (part org c (get S))"
    and foreign_call: "ok (ctx, C) \<Longrightarrow> sel (ctx, C) = None \<Longrightarrow> get (snd (whole ctx C S)) = get S"
begin

lemma run_component: "list_all ok cs \<Longrightarrow> get (run_calls whole cs S) = run_calls part (List.map_filter sel cs) (get S)"
proof (induction cs arbitrary: S)
  case (Cons x cs)
  obtain ctx C where x: "x = (ctx, C)" by (cases x)
  show ?case
  proof (cases "sel (ctx, C)")
    case None
    with Cons.prems show ?thesis by (simp add: x Cons.IH foreign_call map_filter_simps)
  next
    case (Some y)
    obtain org c where "y = (org, c)" by (cases y)
    with Some Cons.prems show ?thesis by (simp add: x Cons.IH own_call map_filter_simps)
  qed
qed (simp add: map_filter_simps)

lemma run_component_invariant:
  assumes "\<And>s org c. P s \<Longrightarrow> P (snd (part org c s))" and "P (get S)" "list_all ok cs"
  shows "P (get (run_calls whole cs S))"
proof -
  have "P (run_calls part xs s)" if "P s" for xs s
    using that assms(1) by (induction xs arbitrary: s) auto
  with assms(2,3) show ?thesis by (simp add: run_component)
qed

end

lemma snd_in_pallet: "snd (in_pallet get put err f S) = put (snd (f (get S))) S"
  by (auto simp: in_pallet_def split: prod.split sum.split)

lemma in_pallet_ok_iff: "fst (in_pallet get put err f S) = Inr x \<longleftrightarrow> fst (f (get S)) = Inr x"
  by (auto simp: in_pallet_def split: prod.split sum.split)

fun template_calls :: "('o \<times> u32) \<times> ('acc, 'x) runtime_call \<Rightarrow> (('o \<times> u32) \<times> template_call) option" where
  "template_calls (ctx, TemplateModule c) = Some (ctx, c)"
| "template_calls _ = None"

fun client_calls :: "('o \<times> u32) \<times> ('acc, 'x) runtime_call \<Rightarrow> (('o \<times> u32) \<times> client_call) option" where
  "client_calls (ctx, LightClient c) = Some (ctx, c)"
| "client_calls _ = None"

fun auth_calls :: "('o \<times> u32) \<times> ('acc, 'x) runtime_call \<Rightarrow> ('o \<times> 'acc auth_call) option" where
  "auth_calls (ctx, SupraAuthorization c) = Some (fst ctx, c)"
| "auth_calls _ = None"

interpretation rt_template: component_machine
    "runtime_dispatch env other" "template_dispatch (runtime_template_config env)" template_module template_calls "keeps_pallets other"
  for env :: "('o, 'acc) runtime_env" and other :: "'o \<times> u32 \<Rightarrow> 'x \<Rightarrow> ('e, unit, ('acc, 'r) runtime_state) dispatchable"
  by (unfold_locales, case_tac C, auto simp: snd_in_pallet, case_tac C, auto simp: snd_in_pallet)

interpretation rt_client: component_machine
    "runtime_dispatch env other" "client_dispatch (env_codec env) (runtime_client_config env)" light_client_module client_calls "keeps_pallets other"
  for env :: "('o, 'acc) runtime_env" and other :: "'o \<times> u32 \<Rightarrow> 'x \<Rightarrow> ('e, unit, ('acc, 'r) runtime_state) dispatchable"
  by (unfold_locales, case_tac C, auto simp: snd_in_pallet, case_tac C, auto simp: snd_in_pallet)

interpretation rt_auth: component_machine
    "runtime_dispatch env other" "auth_dispatch (runtime_auth_config env)" supra_authorization auth_calls "keeps_pallets other"
  for env :: "('o, 'acc) runtime_env" and other :: "'o \<times> u32 \<Rightarrow> 'x \<Rightarrow> ('e, unit, ('acc, 'r) runtime_state) dispatchable"
  by (unfold_locales, case_tac C, auto simp: snd_in_pallet, case_tac C, auto simp: snd_in_pallet)

section \<open>Who can change what\<close>

lemma runtime_auth_config_simps [simp]:
  "MaxWellKnownNodes (runtime_auth_config env) = 8"
  "governance_origin (runtime_auth_config env) org \<longleftrightarrow> fo_root (env_origins env) org"
  "ensure_signed (runtime_auth_config env) = fo_signed (env_origins env)"
  by (auto simp: runtime_auth_config_def RuntimeMaxWellKnownNodes_def governance_origin_def)

lemma known_nodes_need_governance:
  assumes "\<not> governance_origin cfg org"
  shows "WellKnownNodes (snd (auth_dispatch cfg org c st)) = WellKnownNodes st"
proof (rule auth_dispatch_preserve)
  fix st' assume "auth_dispatch cfg org c st = (Inr (), st')"
  then show "WellKnownNodes st' = WellKnownNodes st"
    using assms by (cases c) (auto simp: auth_handler_ok governance_origin_def)
qed simp

lemma auth_needs_origin:
  assumes "\<not> governance_origin cfg org" "ensure_signed cfg org = None"
  shows "snd (auth_dispatch cfg org c st) = st"
proof (rule auth_dispatch_preserve)
  fix st' assume "auth_dispatch cfg org c st = (Inr (), st')"
  then show "st' = st"
    using assms by (cases c) (auto simp: auth_handler_ok governance_origin_def split: if_splits)
qed simp

lemma run_calls_unchanged:
  assumes "\<And>s org c. (org, c) \<in> set cs \<Longrightarrow> g (snd (f org c s)) = g s"
  shows "g (run_calls f cs s) = g s"
  using assms
proof (induction f cs s rule: run_calls.induct)
  case (2 f org c cs s)
  then show ?case by (metis (no_types, lifting) list.set_intros run_calls.simps(2))
qed simp

lemma template_needs_signer: "t_ensure_signed cfg (fst ctx) = None \<Longrightarrow> snd (template_dispatch cfg ctx c st) = st"
  by (cases c) (auto simp: create_claim_def revoke_claim_def)

lemma in_map_filterD: "y \<in> set (List.map_filter f xs) \<Longrightarrow> \<exists>x \<in> set xs. f x = Some y"
  by (force simp: List.map_filter_def)

text \<open>The calls selected for a pallet come with the origins of the runtime's calls.\<close>

lemma selected_origin:
  "(org, c) \<in> set (List.map_filter auth_calls cs) \<Longrightarrow> \<exists>x \<in> set cs. fst (fst x) = org"
  "(ctx, d) \<in> set (List.map_filter template_calls cs) \<Longrightarrow> \<exists>x \<in> set cs. fst x = ctx"
  "(ctx, e) \<in> set (List.map_filter client_calls cs) \<Longrightarrow> \<exists>x \<in> set cs. fst x = ctx"
proof -
  show "\<exists>x \<in> set cs. fst (fst x) = org" if "(org, c) \<in> set (List.map_filter auth_calls cs)"
  proof -
    from in_map_filterD [OF that] obtain x where x: "x \<in> set cs" "auth_calls x = Some (org, c)" by blast
    then have "fst (fst x) = org" by (cases x rule: auth_calls.cases) auto
    with x show ?thesis by blast
  qed
  show "\<exists>x \<in> set cs. fst x = ctx" if "(ctx, d) \<in> set (List.map_filter template_calls cs)"
  proof -
    from in_map_filterD [OF that] obtain x where x: "x \<in> set cs" "template_calls x = Some (ctx, d)" by blast
    then have "fst x = ctx" by (cases x rule: template_calls.cases) auto
    with x show ?thesis by blast
  qed
  show "\<exists>x \<in> set cs. fst x = ctx" if "(ctx, e) \<in> set (List.map_filter client_calls cs)"
  proof -
    from in_map_filterD [OF that] obtain x where x: "x \<in> set cs" "client_calls x = Some (ctx, e)" by blast
    then have "fst x = ctx" by (cases x rule: client_calls.cases) auto
    with x show ?thesis by blast
  qed
qed

lemma runtime_auth_state:
  assumes "supra_authorization S = auth_genesis nodes" and "length nodes \<le> 8" "list_all (keeps_pallets other) cs"
  shows "auth_inv (supra_authorization (run_calls (runtime_dispatch env other) cs S)) \<and>
     auth_bounded (runtime_auth_config env) (supra_authorization (run_calls (runtime_dispatch env other) cs S))"
proof -
  let ?cfg = "runtime_auth_config env"
  have start: "auth_inv (supra_authorization S) \<and> auth_bounded ?cfg (supra_authorization S)"
    unfolding assms(1) using assms(2)
    by (intro conjI auth_inv_genesis auth_bounded_genesis) (auto simp: genesis_within_def)
  show ?thesis
    by (rule rt_auth.run_component_invariant [where P = "\<lambda>st. auth_inv st \<and> auth_bounded ?cfg st"])
      (rule auth_machine.dispatch_inv start assms(3) | assumption)+
qed

lemmas runtime_auth_inv = runtime_auth_state [THEN conjunct1]

lemmas runtime_auth_bound = runtime_auth_state [THEN conjunct2, unfolded auth_bounded_def runtime_auth_config_simps]

text \<open>Origins for the examples.\<close>

datatype raw_origin = Root | Signed nat | Unsigned

definition raw_origins :: "(raw_origin, nat) frame_origins" where
  "raw_origins = \<lparr>fo_root = (\<lambda>org. org = Root), fo_signed = (\<lambda>org. case org of Signed a \<Rightarrow> Some a | _ \<Rightarrow> None),
     fo_none = (\<lambda>org. org = Unsigned)\<rparr>"

definition example_env :: "(raw_origin, nat) runtime_env" where
  "example_env = \<lparr>env_origins = raw_origins, env_codec = marked_codec, env_default_account = 0\<rparr>"

definition no_other :: "raw_origin \<times> u32 \<Rightarrow> unit \<Rightarrow> (unit, unit, (nat, unit) runtime_state) dispatchable" where
  "no_other ctx x s = (Inl (), s)"

lemma no_other_keeps [simp]: "keeps_pallets no_other x"
  by (cases "(no_other, x)" rule: keeps_pallets.cases) (auto simp: no_other_def)

lemma no_other_raw [simp]: "raw_writes_need_root env no_other"
  by (simp add: raw_writes_need_root_def del: keeps_pallets.simps)

definition example_state :: "(nat, unit) runtime_state" where
  "example_state = \<lparr>template_module = empty_template_state, light_client_module = empty_client_state,
     supra_authorization = auth_genesis [(PeerId [1], 1), (PeerId [2], 2)], other_pallets = ()\<rparr>"

text \<open>
  On a chain whose genesis lists at most eight nodes, after any calls of the runtime but raw writes,
  the storage of the authorization pallet is well formed and holds at most eight well known nodes, each
  with an owner.
\<close>

lemma runtime_nodes_bounded:
  assumes "supra_authorization S = auth_genesis nodes" and "length nodes \<le> 8" "list_all (keeps_pallets other) cs"
  shows "let A = supra_authorization (run_calls (runtime_dispatch env other) cs S) in
     auth_inv A \<and> btree_len (WellKnownNodes A) \<le> 8 \<and> set (WellKnownNodes A) \<subseteq> dom (Owners A)"
  using runtime_auth_inv [OF assms, of env] runtime_auth_bound [OF assms, of env] by (simp add: auth_inv_def Let_def)

lemma runtime_nodes_bounded_example:
  "let A = supra_authorization (run_calls (runtime_dispatch example_env no_other)
       [((Root, 1), SupraAuthorization (Call_add_well_known_node (PeerId [3]) 3)),
        ((Signed 2, 1), SupraAuthorization (Call_transfer_node (PeerId [2]) 1))] example_state) in
     auth_inv A \<and> btree_len (WellKnownNodes A) \<le> 8 \<and> set (WellKnownNodes A) \<subseteq> dom (Owners A)"
  by (rule runtime_nodes_bounded [where nodes = "[(PeerId [1], 1), (PeerId [2], 2)]"]) (simp_all add: example_state_def)

text \<open>
  No sequence of calls without a root origin changes the set of well known nodes.
\<close>

lemma only_root_governs_nodes:
  assumes "\<forall>x \<in> set cs. \<not> fo_root (env_origins env) (fst (fst x))" "raw_writes_need_root env other"
  shows "WellKnownNodes (supra_authorization (run_calls (runtime_dispatch env other) cs S)) =
      WellKnownNodes (supra_authorization S)"
  unfolding rt_auth.run_component [OF unprivileged_keeps [OF assms(2,1)]]
  by (rule run_calls_unchanged) (use assms in \<open>auto intro!: known_nodes_need_governance dest!: selected_origin\<close>)

lemma only_root_governs_nodes_example:
  "WellKnownNodes (supra_authorization (run_calls (runtime_dispatch example_env no_other)
     [((Signed 1, 1), SupraAuthorization (Call_remove_well_known_node (PeerId [1]))),
      ((Unsigned, 1), SupraAuthorization (Call_reset_well_known_nodes []))] example_state)) = [PeerId [1], PeerId [2]]"
proof -
  have "WellKnownNodes (supra_authorization example_state) = [PeerId [1], PeerId [2]]"
    by (simp add: example_state_def auth_genesis_def initialize_nodes_def empty_auth_state_def Let_def
        btree_from_iter_def btree_insert_def btree_new_def insort_insert_key_def less_eq_peer_id_def less_peer_id_def)
  moreover have "WellKnownNodes (supra_authorization (run_calls (runtime_dispatch example_env no_other)
     [((Signed 1, 1), SupraAuthorization (Call_remove_well_known_node (PeerId [1]))),
      ((Unsigned, 1), SupraAuthorization (Call_reset_well_known_nodes []))] example_state)) =
     WellKnownNodes (supra_authorization example_state)"
    by (rule only_root_governs_nodes) (simp_all add: example_env_def raw_origins_def)
  ultimately show ?thesis by simp
qed

text \<open>
  C28. Calls that carry neither a root origin nor a signer (unsigned transactions) change nothing in
  the authorization and template pallets, when the library lets only root write raw storage, and the only events they leave in the client pallet
  are price submissions without an account.
\<close>

theorem unsigned_calls_only_submit_prices:
  assumes "\<forall>x \<in> set cs. \<not> fo_root (env_origins env) (fst (fst x)) \<and> fo_signed (env_origins env) (fst (fst x)) = None"
    and "raw_writes_need_root env other"
  shows "let S' = run_calls (runtime_dispatch env other) cs S in
      supra_authorization S' = supra_authorization S \<and> template_module S' = template_module S \<and>
      (\<exists>ps. client_events (light_client_module S') =
         client_events (light_client_module S) @ map (SubmitEthereumPrice None) ps)"
proof -
  have keeps: "list_all (keeps_pallets other) cs" using assms by (intro unprivileged_keeps) auto
  have a: "supra_authorization (run_calls (runtime_dispatch env other) cs S) = supra_authorization S"
    unfolding rt_auth.run_component [OF keeps]
    by (rule run_calls_unchanged [where g = "\<lambda>s. s"])
      (use assms in \<open>auto intro!: auth_needs_origin dest!: selected_origin\<close>)
  have t: "template_module (run_calls (runtime_dispatch env other) cs S) = template_module S"
    unfolding rt_template.run_component [OF keeps]
    by (rule run_calls_unchanged [where g = "\<lambda>s. s"])
      (use assms in \<open>auto simp: runtime_template_config_def intro!: template_needs_signer dest!: selected_origin(2)\<close>)
  let ?evs = "List.map_filter (\<lambda>((org, bn), c). call_event (runtime_client_config env) org c) (List.map_filter client_calls cs)"
  have "\<exists>p. ev = SubmitEthereumPrice None p" if ev: "ev \<in> set ?evs" for ev
  proof -
    obtain org bn c where c: "((org, bn), c) \<in> set (List.map_filter client_calls cs)"
        "call_event (runtime_client_config env) org c = Some ev"
      using in_map_filterD [OF ev] by auto
    have "fo_signed (env_origins env) org = None"
      using assms selected_origin(3) [OF c(1)] by force
    with c(2) show ?thesis by (cases c) (auto simp: runtime_client_config_def split: if_splits)
  qed
  then have "\<exists>ps. ?evs = map (SubmitEthereumPrice None) ps" by (subst ex_map_conv) blast
  then obtain ps where "?evs = map (SubmitEthereumPrice None) ps" by blast
  then show ?thesis
    by (simp add: Let_def a t rt_client.run_component [OF keeps] run_client_events) blast
qed

theorem unsigned_calls_only_submit_prices_witness:
  "supra_authorization (run_calls (runtime_dispatch example_env no_other)
     [((Unsigned, 1), LightClient (Call_submit_ethereum_price [49])),
      ((Unsigned, 1), SupraAuthorization (Call_claim_node (PeerId [9])))] example_state) = supra_authorization example_state"
  using unsigned_calls_only_submit_prices [of "[((Unsigned, 1), LightClient (Call_submit_ethereum_price [49])),
      ((Unsigned, 1), SupraAuthorization (Call_claim_node (PeerId [9])))]" example_env no_other example_state]
  by (simp add: example_env_def raw_origins_def Let_def del: run_calls.simps)

section \<open>Signed transactions\<close>

lemma saturating_sub_unat: "unat (saturating_sub a b) = unat a - unat b"
  by (auto simp: saturating_sub_def unat_sub word_le_nat_alt)

text \<open>
  C29. A transaction built for an off-chain worker carries exactly the call, account and
  nonce it was asked for, no tip, and an era that starts at the block before the current one (at
  zero for block zero, where a plain subtraction would wrap around) with the period for
  which block hashes are kept; it is refused exactly when the payload cannot be built or the key does not sign.
\<close>

theorem create_transaction_faithful:
  assumes "\<And>c e p. payload_new api c e = Some p \<Longrightarrow> payload_deconstruct api p = (c, e)"
  shows "\<exists>start. unat start = unat block_number - 1 \<and>
     (let extra = \<lparr>check_spec_version = CheckSpecVersion, check_tx_version = CheckTxVersion, check_genesis = CheckGenesis,
       check_era = era_mortal api 2400 start, check_nonce = index, check_weight = CheckWeight, charge_tip = 0\<rparr> in
      create_transaction api block_number call public account index =
        Option.bind (payload_new api call extra) (\<lambda>p.
          map_option (\<lambda>s. (call, account, s, extra)) (sign_with api (payload_encoded api p) public)))"
proof -
  have "unat (ucast block_number :: u64) = unat block_number"
    by transfer simp
  then have "unat (saturating_sub (ucast block_number) 1) = unat block_number - 1"
    by (simp add: saturating_sub_unat)
  then show ?thesis
    by (intro exI [of _ "saturating_sub (ucast block_number) 1"])
      (auto simp: create_transaction_def BlockHashCount_def Let_def assms split: option.split)
qed

definition plain_signing :: "(nat, u64 \<times> u64, nat \<times> (u64 \<times> u64) signed_extra, nat, bytes) signing_api" where
  "plain_signing = \<lparr>era_mortal = Pair, payload_new = (\<lambda>c e. Some (c, e)), payload_encoded = (\<lambda>_. [1]),
     payload_deconstruct = (\<lambda>p. p), sign_with = (\<lambda>bs k. if k = 0 then None else Some bs)\<rparr>"

theorem create_transaction_faithful_witness:
  "create_transaction plain_signing 0 5 1 (7 :: nat) 3 =
     Some (5, 7, [1], \<lparr>check_spec_version = CheckSpecVersion, check_tx_version = CheckTxVersion, check_genesis = CheckGenesis,
       check_era = (2400, 0), check_nonce = 3, check_weight = CheckWeight, charge_tip = 0\<rparr>)"
proof -
  have "payload_deconstruct plain_signing p = (c, e)" if "payload_new plain_signing c e = Some p" for c e p
    using that by (simp add: plain_signing_def)
  from create_transaction_faithful [OF this, of 0 3 5 1 "7 :: nat"] show ?thesis
    by (auto simp: plain_signing_def Let_def unat_eq_0)
qed

section \<open>Time\<close>

lemma time_constants: "unat MINUTES = 10" "unat HOURS = 600" "unat DAYS = 14400" "MinimumPeriod = 3000"
  by (simp_all add: MINUTES_def HOURS_def DAYS_def MILLISECS_PER_BLOCK_def MinimumPeriod_def SLOT_DURATION_def)

end
