(* ===== verification/Client_Liveness.thy ===== *)
theory Client_Liveness
  imports Client_Handoff
begin

text \<open>
  That the off-chain worker of \<^verbatim>\<open>client/src/lib.rs\<close> comes to an end after a bounded
  number of effects whatever the host does, and that it reaches its goal when the host answers.
\<close>

section \<open>Termination of the protocol\<close>

fun phase_rank :: "phase \<Rightarrow> nat" where
  "phase_rank Idle = 10"
| "phase_rank Holding = 9"
| "phase_rank Fetching = 8"
| "phase_rank Fetched = 7"
| "phase_rank Saved = 6"
| "phase_rank Released = 5"
| "phase_rank Estimating = 4"
| "phase_rank Estimated = 3"
| "phase_rank Sending = 2"
| "phase_rank Failing = 1"
| "phase_rank Sent = 1"
| "phase_rank Finished = 0"

lemma next_phase_rank: "next_phase h p e = Some p' \<Longrightarrow> phase_rank p' < phase_rank p"
  by (cases "(h, p, e)" rule: next_phase.cases) (auto split: if_splits)

lemma run_phases_rank: "run_phases h p tr = Some p' \<Longrightarrow> length tr + phase_rank p' \<le> phase_rank p"
proof (induction tr arbitrary: p)
  case (Cons e tr)
  then obtain q where q: "next_phase h p e = Some q" "run_phases h q tr = Some p'"
    by (auto simp: bind_eq_Some_conv)
  from next_phase_rank [OF q(1)] Cons.IH [OF q(2)] show ?case by simp
qed simp

section \<open>A host that answers\<close>

text \<open>
  In a good world the host gives the lock unless it is taken, answers each request that \<open>srv\<close> serves with status 200 and
  the body that \<open>srv\<close> gives for it, accepts the submission, and stays in a good world. It may refuse a taken lock, and fail every
  other request.
\<close>

definition reliable_host ::
  "('w, 'id) offchain_host \<Rightarrow> ('w \<Rightarrow> bool) \<Rightarrow> ('w \<Rightarrow> bool) \<Rightarrow> (http_verb \<Rightarrow> str \<Rightarrow> bytes list \<Rightarrow> bytes option) \<Rightarrow> bool" where
  "reliable_host host taken good srv \<longleftrightarrow> (\<forall>w. good w \<longrightarrow>
     good (snd (timestamp host w)) \<and> good (lock_release host LOCK_KEY w) \<and>
     (\<not> taken w \<longrightarrow> (\<exists>w'. lock_try host LOCK_KEY LOCK_BLOCK_EXPIRATION LOCK_TIMEOUT_EXPIRATION w = (True, w') \<and> good w')) \<and>
     (\<forall>q b. srv (hr_verb q) (hr_url q) (hr_body q) = Some b \<longrightarrow> (\<exists>p w'. http_send host q w = (Some p, w') \<and>
        (\<forall>d. \<exists>w'' w3. http_try_wait host p d w' = (Response 200, w'') \<and> http_body host p w'' = (b, w3) \<and> good w3))) \<and>
     (\<forall>c. \<exists>w'. submit_unsigned host c w = (True, w') \<and> good w'))"

text \<open>The JSON library prints every value, as UTF-8.\<close>

definition json_prints :: "'d json_api \<Rightarrow> bool" where
  "json_prints api \<longleftrightarrow> (\<forall>v. \<exists>b. to_vec api v = Some b \<and> utf8_valid b)"

text \<open>The ticker answers a numeric price, the local node a gas estimate, the given address any text.\<close>

definition answers_well :: "'d json_api \<Rightarrow> (http_verb \<Rightarrow> str \<Rightarrow> bytes list \<Rightarrow> bytes option) \<Rightarrow> str \<Rightarrow> light_client \<Rightarrow> bool" where
  "answers_well api srv h c \<longleftrightarrow>
     (\<exists>b. srv GET HTTP_REMOTE_REQUEST [] = Some b \<and> utf8_valid b \<and> light_client_from_str api b = Some c) \<and>
     parse_f32 (lc_price c) \<noteq> None \<and>
     (\<forall>body. \<exists>b. srv POST HTTP_ETHEREUM_HOST [body] = Some b \<and> utf8_valid b \<and> eth_result_from_str api b \<noteq> None) \<and>
     (\<forall>body. \<exists>b. srv POST h [body] = Some b \<and> utf8_valid b)"

lemma exchange_reliable:
  assumes "reliable_host host taken good srv" "good (os_world st)" "srv (hr_verb req) (hr_url req) (hr_body req) = Some b"
  obtains st' q where "exchange host req st = (Ok b, st')"
    "good (os_world st')" "os_storage st' = os_storage st" "os_trace st' = os_trace st @ [Requested q, Responded 200]"
proof -
  obtain now w where t: "timestamp host (os_world st) = (now, w)" by (rule prod.exhaust)
  with assms have w: "good w" by (force simp: reliable_host_def)
  let ?q = "req\<lparr>hr_deadline := Some (ts_add host now FETCH_TIMEOUT_PERIOD)\<rparr>"
  have "srv (hr_verb ?q) (hr_url ?q) (hr_body ?q) = Some b" using assms(3) by simp
  with assms(1) w obtain p w' where s: "http_send host ?q w = (Some p, w')"
      "\<forall>d. \<exists>w'' w3. http_try_wait host p d w' = (Response 200, w'') \<and> http_body host p w'' = (b, w3) \<and> good w3"
    unfolding reliable_host_def by blast
  then obtain w'' w3 where r: "http_try_wait host p (ts_add host now FETCH_TIMEOUT_PERIOD) w' = (Response 200, w'')"
      "http_body host p w'' = (b, w3)" "good w3" by blast
  show thesis
    by (rule that [of "record_effect (Responded 200) (record_effect (Requested ?q) (st\<lparr>os_world := w3\<rparr>))" ?q])
      (use t s r in \<open>simp_all add: exchange_def record_effect_def Let_def\<close>)
qed

lemma json_body_prints:
  assumes "json_prints api" "s = Ok v"
  shows "\<exists>b. json_body api s = Ok b"
proof -
  from assms(1) obtain b where "to_vec api v = Some b" "utf8_valid b" unfolding json_prints_def by blast
  with assms(2) show ?thesis by (simp add: json_body_def)
qed

lemma serialize_gas_ok:
  assumes "utf8_valid d" "utf8_valid f" "utf8_valid t"
  shows "\<exists>v. serialize_estimate_gas_request (gas_request d f t) = (Ok v :: (ser, client_error) outcome)"
  using assms
  by (cases "serialize_estimate_gas_request (gas_request d f t) :: (ser, client_error) outcome")
    (auto simp: serialize_no_err serialize_estimate_gas_request_panic_iff estimate_gas_request_text_def
      gas_request_def gas_request_param_text_def utf8_valid_lit)

lemma serialize_tx_ok:
  assumes "utf8_valid d" "utf8_valid f" "utf8_valid t" "utf8_valid g"
  shows "\<exists>v. serialize_eth_transaction (eth_transaction_for f t g d) = (Ok v :: (ser, client_error) outcome)"
  using assms
  by (cases "serialize_eth_transaction (eth_transaction_for f t g d) :: (ser, client_error) outcome")
    (auto simp: serialize_no_err serialize_eth_transaction_panic_iff eth_transaction_for_text)

lemma refresh_reliable:
  assumes "reliable_host host taken good srv" "good (os_world st)" "\<not> taken (os_world st)" "answers_well api srv h c"
  obtains st' q where "refresh_price k api host st = (Ok (), st')" "good (os_world st')"
    "os_storage st' = (os_storage st)(INFO_KEY \<mapsto> encode_light_client k c)"
    "os_trace st' = os_trace st @ [LockTaken, Requested q, Responded 200, Stored INFO_KEY, LockReleased]"
proof -
  from assms(1-3) obtain w' where l: "lock_try host LOCK_KEY LOCK_BLOCK_EXPIRATION LOCK_TIMEOUT_EXPIRATION (os_world st) = (True, w')" "good w'"
    unfolding reliable_host_def by blast
  from assms(4) obtain b where b: "srv GET HTTP_REMOTE_REQUEST [] = Some b" "utf8_valid b" "light_client_from_str api b = Some c"
    by (auto simp: answers_well_def)
  let ?st0 = "record_effect LockTaken (st\<lparr>os_world := w'\<rparr>)"
  let ?req = "add_header (lit ''User-Agent'') HTTP_HEADER_USER_AGENT (request_get HTTP_REMOTE_REQUEST)"
  have "good (os_world ?st0)" "srv (hr_verb ?req) (hr_url ?req) (hr_body ?req) = Some b" using l b by (simp_all add: record_effect_def)
  from exchange_reliable [OF assms(1) this] obtain st1 q where
      x: "fetch_from_remote host ?st0 = (Ok b, st1)" "good (os_world st1)"
      "os_storage st1 = os_storage ?st0" "os_trace st1 = os_trace ?st0 @ [Requested q, Responded 200]"
    unfolding fetch_from_remote_def by metis
  then have f: "fetch_n_parse api host ?st0 = (Ok c, st1)"
    using b by (simp add: fetch_n_parse_eq)
  let ?st2 = "st1\<lparr>os_storage := (os_storage st1)(INFO_KEY \<mapsto> encode_light_client k c),
     os_world := lock_release host LOCK_KEY (os_world st1), os_trace := os_trace st1 @ [Stored INFO_KEY, LockReleased]\<rparr>"
  have "refresh_price k api host st = (Ok (), ?st2)"
    using l f by (simp add: refresh_price_def Let_def record_effect_def)
  moreover have "good (os_world ?st2)" using assms(1) x(2) by (simp add: reliable_host_def)
  ultimately show thesis
    using x(3,4) by (intro that [of ?st2 q]) (simp_all add: record_effect_def)
qed

lemma gas_reliable:
  assumes "reliable_host host taken good srv" "good (os_world st)" "json_prints api" "answers_well api srv h c"
    and "utf8_valid d" "utf8_valid f" "utf8_valid t"
  obtains st' b er q where "get_estimated_gas api host d f t st = (Ok b, st')" "utf8_valid b" "eth_result_from_str api b = Some er"
    "good (os_world st')" "os_storage st' = os_storage st" "os_trace st' = os_trace st @ [Requested q, Responded 200]"
proof -
  from serialize_gas_ok [OF assms(5-7)] json_body_prints [OF assms(3)]
  obtain body where b: "json_body api (serialize_estimate_gas_request (gas_request d f t)) = Ok body" by blast
  from assms(4) obtain g er where g: "srv POST HTTP_ETHEREUM_HOST [body] = Some g" "utf8_valid g" "eth_result_from_str api g = Some er"
    unfolding answers_well_def by blast
  let ?req = "add_header (lit ''Content-Type'') (lit ''application/json'') (request_post HTTP_ETHEREUM_HOST [body])"
  have "srv (hr_verb ?req) (hr_url ?req) (hr_body ?req) = Some g" using g(1) by simp
  from exchange_reliable [OF assms(1,2) this] obtain st' q where "exchange host ?req st = (Ok g, st')"
      "good (os_world st')" "os_storage st' = os_storage st" "os_trace st' = os_trace st @ [Requested q, Responded 200]" by blast
  with g show thesis by (intro that [of g st' er q]) (simp_all add: get_estimated_gas_def b)
qed

lemma submt_price_reliable:
  assumes "reliable_host host taken good srv" "good (os_world st)" "answers_well api srv h c"
    and "json_prints api" "json_text_valid api" "utf8_valid (lc_price c)" "utf8_valid f" "utf8_valid t"
  obtains st' b g q where "submt_price_to_ethereum api host (lc_price c) h f t st = (Ok b, st')" "utf8_valid b"
    "good (os_world st')" "os_storage st' = os_storage st"
    "os_trace st' = os_trace st @ [Requested g, Responded 200, Requested q, Responded 200]"
proof -
  from assms(3) obtain v where v: "parse_f32 (lc_price c) = Some v" by (auto simp: answers_well_def)
  let ?d = "call_data (f32_as_u32 v)"
  obtain st1 gb er g where g: "get_estimated_gas api host ?d f t st = (Ok gb, st1)" "utf8_valid gb" "eth_result_from_str api gb = Some er"
      "good (os_world st1)" "os_storage st1 = os_storage st" "os_trace st1 = os_trace st @ [Requested g, Responded 200]"
    by (rule gas_reliable [OF assms(1,2,4,3) utf8_valid_call_data assms(7,8)])
  from serialize_tx_ok [OF utf8_valid_call_data assms(7,8), of "er_result er"] json_body_prints [OF assms(4)]
  obtain body where b: "json_body api (serialize_eth_transaction (eth_transaction_for f t (er_result er) ?d)) = Ok body"
    using eth_result_from_str_valid [OF assms(5) g(3)] by blast
  from assms(3) obtain a where a: "srv POST h [body] = Some a" "utf8_valid a" unfolding answers_well_def by blast
  let ?req = "add_header (lit ''Content-Type'') (lit ''application/json'') (request_post h [body])"
  have "srv (hr_verb ?req) (hr_url ?req) (hr_body ?req) = Some a" using a(1) by simp
  from exchange_reliable [OF assms(1) g(4) this] obtain st2 q where x: "exchange host ?req st1 = (Ok a, st2)"
      "good (os_world st2)" "os_storage st2 = os_storage st1" "os_trace st2 = os_trace st1 @ [Requested q, Responded 200]" by blast
  show thesis
    using assms(6) v g a b x by (intro that [of a st2 g q]) (simp_all add: submt_price_eq)
qed

lemma worker_reliable:
  assumes "reliable_host host taken good srv" "good (os_world st)" "\<not> taken (os_world st)" "answers_well api srv h c"
    and "json_prints api" "json_text_valid api" "codec_roundtrip k" "utf8_valid f" "utf8_valid t"
  obtains st' tr where "update_ethereum_price_worker k api host h f t st = (Ok (), st')" "good (os_world st')"
    "os_storage st' = (os_storage st)(INFO_KEY \<mapsto> encode_light_client k c)"
    "os_trace st' = os_trace st @ tr @ [Submitted (Call_submit_ethereum_price (lc_price c)) True]" "length tr = 9"
    "\<forall>c b. Submitted c b \<notin> set tr"
proof -
  obtain st1 q0 where r: "refresh_price k api host st = (Ok (), st1)" "good (os_world st1)"
      "os_storage st1 = (os_storage st)(INFO_KEY \<mapsto> encode_light_client k c)"
      "os_trace st1 = os_trace st @ [LockTaken, Requested q0, Responded 200, Stored INFO_KEY, LockReleased]"
    using refresh_reliable [OF assms(1-4)] by blast
  have p: "stored_price k (os_storage st1) = lc_price c"
    using assms(7) by (simp add: stored_price_def r(3) codec_roundtrip_def)
  have u: "utf8_valid (lc_price c)"
    using assms(4) light_client_from_str_valid [OF assms(6)] by (auto simp: answers_well_def)
  obtain st2 b g q where s: "submt_price_to_ethereum api host (lc_price c) h f t st1 = (Ok b, st2)" "utf8_valid b"
      "good (os_world st2)" "os_storage st2 = os_storage st1"
      "os_trace st2 = os_trace st1 @ [Requested g, Responded 200, Requested q, Responded 200]"
    by (rule submt_price_reliable [OF assms(1) r(2) assms(4-6) u assms(8,9)])
  from assms(1) s(3) obtain w where w: "submit_unsigned host (Call_submit_ethereum_price (lc_price c)) (os_world st2) = (True, w)" "good w"
    unfolding reliable_host_def by blast
  let ?tr = "[LockTaken, Requested q0, Responded 200, Stored INFO_KEY, LockReleased, Requested g, Responded 200, Requested q, Responded 200]"
  show thesis
    by (rule that [of "record_effect (Submitted (Call_submit_ethereum_price (lc_price c)) True) (st2\<lparr>os_world := w\<rparr>)" ?tr])
      (use r s w p in \<open>simp_all add: worker_eq submit_call_def record_effect_def Let_def\<close>)
qed

text \<open>
  When a block left an update request, the lock is free, the host answers the three requests of the worker, the ticker's answer holds a number and
  the node's answer a gas estimate, the off-chain worker returns, has stored the price of the ticker, and its tenth
  and last effect is the accepted submission of exactly that price.
\<close>

lemma offchain_worker_reliable:
  assumes "reliable_host host taken good srv" "good (os_world st)" "\<not> taken (os_world st)"
    and "json_prints api" "json_text_valid api" "codec_roundtrip k"
    and "pending_update k bn (os_storage st) = Some (h, f, t)" "answers_well api srv (prefixed h) c"
  shows "\<exists>st' tr. client_offchain_worker k api host bn st = (Ok (), st') \<and> good (os_world st') \<and>
     stored_price k (os_storage st') = lc_price c \<and>
     os_trace st' = os_trace st @ tr @ [Submitted (Call_submit_ethereum_price (lc_price c)) True] \<and> length tr = 9"
proof -
  obtain st' tr where "update_ethereum_price_worker k api host (prefixed h) (prefixed f) (prefixed t) st = (Ok (), st')" "good (os_world st')"
    "os_storage st' = (os_storage st)(INFO_KEY \<mapsto> encode_light_client k c)"
    "os_trace st' = os_trace st @ tr @ [Submitted (Call_submit_ethereum_price (lc_price c)) True]" "length tr = 9"
    by (rule worker_reliable [OF assms(1-3,8,4-6) utf8_valid_prefixed [of f] utf8_valid_prefixed [of t]])
  with assms(6,7) show ?thesis
    by (auto simp: offchain_worker_eq stored_price_def codec_roundtrip_def)
qed

section \<open>A host that serves URLs only\<close>

text \<open>A host that starts a request only for an HTTP URL.\<close>

definition http_url :: "str \<Rightarrow> bool" where
  "http_url u \<longleftrightarrow> take 7 u = lit ''http://'' \<or> take 8 u = lit ''https://''"

definition http_only :: "('w, 'id) offchain_host \<Rightarrow> bool" where
  "http_only host \<longleftrightarrow> (\<forall>q w. \<not> http_url (hr_url q) \<longrightarrow> fst (http_send host q w) = None)"

lemma prefixed_no_url: "\<not> http_url (prefixed h)"
  by (simp add: http_url_def prefixed_def lit_def)

lemma exchange_no_url: "http_only host \<Longrightarrow> \<not> http_url (hr_url req) \<Longrightarrow> fst (exchange host req st) = Err HttpFetchingError"
proof -
  assume h: "http_only host" "\<not> http_url (hr_url req)"
  obtain now w where t: "timestamp host (os_world st) = (now, w)" by (rule prod.exhaust)
  let ?q = "req\<lparr>hr_deadline := Some (ts_add host now FETCH_TIMEOUT_PERIOD)\<rparr>"
  have "fst (http_send host ?q w) = None" using h by (simp add: http_only_def)
  then obtain w' where "http_send host ?q w = (None, w')" by (metis prod.collapse)
  with t show ?thesis by (simp add: exchange_def Let_def)
qed

lemma submt_price_no_url:
  assumes "http_only host" "\<not> http_url h" "submt_price_to_ethereum api host price h f t st = (r, st')"
  shows "r \<noteq> Ok b"
proof
  assume "r = Ok b"
  with assms(3) obtain body st1 where "exchange host (add_header (lit ''Content-Type'') (lit ''application/json'') (request_post h [body])) st1 = (Ok b, st')"
    by (auto simp: submt_price_eq split: if_splits option.splits prod.splits outcome.splits)
  with exchange_no_url [OF assms(1), of "add_header (lit ''Content-Type'') (lit ''application/json'') (request_post h [body])" st1] assms(2)
  show False by simp
qed

text \<open>On such a host the worker never succeeds for a request of the chain and submits nothing.\<close>

lemma worker_no_url:
  assumes "http_only host" "\<not> http_url h" "update_ethereum_price_worker k api host h f t st = (r, st')"
  obtains tr where "r \<noteq> Ok ()" "os_trace st' = os_trace st @ tr" "\<forall>c b. Submitted c b \<notin> set tr"
proof -
  obtain r0 st1 where r0: "refresh_price k api host st = (r0, st1)" by (rule prod.exhaust)
  obtain tr0 where tr0: "os_trace st1 = os_trace st @ tr0" "\<forall>c b. Submitted c b \<notin> set tr0"
    using refresh_price_effects [OF r0] by metis
  show thesis
  proof (cases "r0 = Ok ()")
    case False
    with assms(3) r0 have "r \<noteq> Ok () \<and> st' = st1" by (cases r0) (auto simp: worker_eq)
    with tr0 show thesis by (intro that [of tr0]) auto
  next
    case True
    obtain r1 st2 where s: "submt_price_to_ethereum api host (stored_price k (os_storage st1)) h f t st1 = (r1, st2)" by (rule prod.exhaust)
    have "r \<noteq> Ok () \<and> st' = st2"
      using assms(3) r0 True s submt_price_no_url [OF assms(1,2) s] by (cases r1) (auto simp: worker_eq Let_def)
    moreover from s obtain tr1 where "os_trace st2 = os_trace st1 @ tr1" "\<forall>c b. Submitted c b \<notin> set tr1"
      by (rule submt_price_effects) auto
    ultimately show thesis using tr0 by (intro that [of "tr0 @ tr1"]) auto
  qed
qed

lemma offchain_worker_no_url:
  assumes "http_only host"
  shows "\<exists>tr. os_trace (snd (client_offchain_worker k api host n st)) = os_trace st @ tr \<and> (\<forall>c b. Submitted c b \<notin> set tr)"
proof (cases "pending_update k n (os_storage st)")
  case (Some x)
  obtain h f t where x: "x = (h, f, t)" by (metis prod.collapse)
  obtain r st' where w: "update_ethereum_price_worker k api host (prefixed h) (prefixed f) (prefixed t) st = (r, st')" by (rule prod.exhaust)
  have "snd (swallow_error (r, st')) = st'" by (cases r) auto
  moreover obtain tr where "os_trace st' = os_trace st @ tr" "\<forall>c b. Submitted c b \<notin> set tr"
    by (rule worker_no_url [OF assms prefixed_no_url w])
  ultimately show ?thesis by (auto simp: offchain_worker_eq Some x w)
qed (simp add: offchain_worker_eq)

section \<open>Properties\<close>

text \<open>
  The protocol of the price worker is well founded, so that no host can keep it going: the
  worker makes at most ten effects (requests, answers, lock operations, writes, submissions) before it returns or panics.
\<close>

lemma worker_effects_terminate:
  "wf {(p', p). \<exists>h e. next_phase h p e = Some p'} \<and>
   (\<exists>tr. os_trace (snd (update_ethereum_price_worker k api host eth_host f t st)) = os_trace st @ tr \<and> length tr \<le> 10)"
proof
  show "wf {(p', p). \<exists>h e. next_phase h p e = Some p'}"
    by (rule wf_subset [OF wf_measure [of phase_rank]]) (auto dest: next_phase_rank)
  from worker_effects [of k api host eth_host f t st]
  obtain tr p where tr: "os_trace (snd (update_ethereum_price_worker k api host eth_host f t st)) = os_trace st @ tr"
      "run_phases eth_host Idle tr = Some p"
    by (auto simp: Let_def split: prod.splits)
  from run_phases_rank [OF tr(2)] tr(1)
  show "\<exists>tr. os_trace (snd (update_ethereum_price_worker k api host eth_host f t st)) = os_trace st @ tr \<and> length tr \<le> 10"
    by auto
qed

text \<open>A host with a lock, which serves three addresses and answers there with the digit 1.\<close>

definition served :: "str \<Rightarrow> bool" where
  "served u \<longleftrightarrow> u \<in> {HTTP_REMOTE_REQUEST, HTTP_ETHEREUM_HOST, prefixed [104]}"

definition helpful_host :: "(bool, unit) offchain_host" where
  "helpful_host = \<lparr>timestamp = (\<lambda>w. (1000, w)), ts_add = (+), http_send = (\<lambda>q w. (if served (hr_url q) then Some () else None, w)),
     http_try_wait = (\<lambda>_ _ w. (Response 200, w)), http_body = (\<lambda>_ w. ([49], w)),
     lock_try = (\<lambda>_ _ _ w. (\<not> w, True)), lock_release = (\<lambda>_ _. False), submit_unsigned = (\<lambda>_ w. (True, w))\<rparr>"

definition digit_server :: "http_verb \<Rightarrow> str \<Rightarrow> bytes list \<Rightarrow> bytes option" where
  "digit_server v u body = (if served u then Some [49] else None)"

lemma helpful_reliable: "reliable_host helpful_host (\<lambda>w. w) (\<lambda>_. True) digit_server"
  by (auto simp: reliable_host_def helpful_host_def digit_server_def)

lemma digit_server_simps [simp]:
  "digit_server v HTTP_REMOTE_REQUEST body = Some [49]" "digit_server v HTTP_ETHEREUM_HOST body = Some [49]"
  "digit_server v (prefixed [104]) body = Some [49]"
  by (simp_all add: digit_server_def served_def)

lemma echo_json_prints: "json_prints echo_json"
  by (simp add: json_prints_def echo_json_def)

lemma json_body_echo: "s \<noteq> Panic \<Longrightarrow> (\<And>e. s \<noteq> Err e) \<Longrightarrow> json_body echo_json s = Ok []"
  by (cases s) (auto simp: json_body_def echo_json_def)

lemma json_body_echo_gas:
  "utf8_valid d \<Longrightarrow> utf8_valid f \<Longrightarrow> utf8_valid t \<Longrightarrow>
     json_body echo_json (serialize_estimate_gas_request (gas_request d f t)) = Ok []"
  by (rule json_body_echo)
    (auto simp: serialize_estimate_gas_request_panic_iff serialize_no_err estimate_gas_request_text_def
      gas_request_def gas_request_param_text_def utf8_valid_lit)

lemma json_body_echo_tx:
  "utf8_valid d \<Longrightarrow> utf8_valid f \<Longrightarrow> utf8_valid t \<Longrightarrow> utf8_valid g \<Longrightarrow>
     json_body echo_json (serialize_eth_transaction (eth_transaction_for f t g d)) = Ok []"
  by (rule json_body_echo) (auto simp: serialize_eth_transaction_panic_iff serialize_no_err eth_transaction_for_text)

lemma parse_one: "parse_f32 [49] \<noteq> None"
  by (simp add: parse_f32_def parse_decimal_def digit_of_def)

lemma helpful_answers: "answers_well echo_json digit_server (prefixed [104]) \<lparr>lc_price = [49], lc_time = [49]\<rparr>"
  by (simp add: answers_well_def parse_one light_client_from_str_def eth_result_from_str_def echo_json_def
      de_string_to_bytes_def)

lemma worker_reaches_submission_example:
  "\<exists>st' tr. client_offchain_worker marked_codec echo_json helpful_host 7 (waiting False (Call_update_ethereum_price [104] [102] [116])) = (Ok (), st') \<and>
     os_trace st' = tr @ [Submitted (Call_submit_ethereum_price [49]) True]"
proof -
  let ?st = "waiting False (Call_update_ethereum_price [104] [102] [116])"
  have "True" "\<not> os_world ?st" "os_trace ?st = []" by (simp_all add: waiting_def)
  with offchain_worker_reliable [OF helpful_reliable this(1,2) echo_json_prints echo_json_valid marked_codec_roundtrip pending_waiting helpful_answers]
  show ?thesis by auto
qed

text \<open>
  C27. When another worker holds the lock and no price has been stored yet, the worker goes on with the price text \<open>0\<close>: once the Ethereum node has answered
  the gas estimate for the number zero and the contract's host has answered the transaction that carries the number zero, the
  worker ends by submitting the price \<open>0\<close> to the chain. Its only requests are these two, and nothing is stored: the exchange is not asked.
\<close>

theorem busy_lock_reports_zero:
  assumes "lock_try host LOCK_KEY LOCK_BLOCK_EXPIRATION LOCK_TIMEOUT_EXPIRATION (os_world st) = (False, w)" "os_storage st INFO_KEY = None"
    and "get_estimated_gas api host (call_data 0) f t (st\<lparr>os_world := w\<rparr>) = (Ok gas, st1)"
    and "utf8_valid gas" "eth_result_from_str api gas = Some er"
    and "json_body api (serialize_eth_transaction (eth_transaction_for f t (er_result er) (call_data 0))) = Ok body"
    and "exchange host (add_header (lit ''Content-Type'') (lit ''application/json'') (request_post eth_host [body])) st1 = (Ok answer, st2)"
    and "utf8_valid answer"
  shows "update_ethereum_price_worker k api host eth_host f t st = submit_call host (Call_submit_ethereum_price (lit ''0'')) st2 \<and>
    (\<exists>tr. os_trace st2 = os_trace st @ tr \<and> os_storage st2 = os_storage st \<and>
       map (\<lambda>q. (hr_verb q, hr_url q)) (requests tr) = [(POST, HTTP_ETHEREUM_HOST), (POST, eth_host)])"
proof
  let ?st = "st\<lparr>os_world := w\<rparr>"
  have s: "submt_price_to_ethereum api host (lit ''0'') eth_host f t ?st = (Ok answer, st2)"
    using assms(3-7) by (simp add: submt_price_eq parse_zero utf8_valid_lit)
  then show "update_ethereum_price_worker k api host eth_host f t st = submit_call host (Call_submit_ethereum_price (lit ''0'')) st2"
    using assms(8) by (simp add: worker_eq refresh_busy [OF assms(1)] stored_price_none [of "os_storage st", OF assms(2)] Let_def)
  from s obtain g q c where "hr_verb g = POST" "hr_url g = HTTP_ETHEREUM_HOST" "hr_verb q = POST" "hr_url q = eth_host"
      "os_trace st2 = os_trace ?st @ [Requested g, Responded 200, Requested q, Responded c]" "os_storage st2 = os_storage ?st"
    by (rule submt_price_effects) auto
  then show "\<exists>tr. os_trace st2 = os_trace st @ tr \<and> os_storage st2 = os_storage st \<and>
       map (\<lambda>q. (hr_verb q, hr_url q)) (requests tr) = [(POST, HTTP_ETHEREUM_HOST), (POST, eth_host)]"
    by (intro exI [of _ "[Requested g, Responded 200, Requested q, Responded c]"]) simp
qed

text \<open>A script of two answers, on a host whose lock is taken.\<close>

lemma exchange_scripted:
  "os_world st = (Response 200, b) # rs \<Longrightarrow>
     \<exists>st'. exchange scripted_host q st = (Ok b, st') \<and> os_world st' = rs \<and> os_storage st' = os_storage st"
  by (simp add: exchange_def scripted_host_def record_effect_def Let_def)

lemma scripted_answers:
  assumes "utf8_valid f" "utf8_valid t" "os_world ws = [(Response 200, [49]), (Response 200, [50])]"
  obtains er st1 st2 where "get_estimated_gas echo_json scripted_host (call_data 0) f t ws = (Ok [49], st1)"
    "eth_result_from_str echo_json [49] = Some er"
    "json_body echo_json (serialize_eth_transaction (eth_transaction_for f t (er_result er) (call_data 0))) = Ok []"
    "exchange scripted_host (add_header (lit ''Content-Type'') (lit ''application/json'') (request_post h [[]])) st1 = (Ok [50], st2)"
proof -
  obtain st1 where g: "get_estimated_gas echo_json scripted_host (call_data 0) f t ws = (Ok [49], st1)"
      "os_world st1 = [(Response 200, [50])]"
    using exchange_scripted [of ws "[49]" "[(Response 200, [50])]"] assms(3)
    by (fastforce simp: get_estimated_gas_def json_body_echo_gas assms(1,2))
  obtain er where er: "eth_result_from_str echo_json [49] = Some er" "utf8_valid (er_result er)"
    by (auto simp: eth_result_from_str_def echo_json_def de_string_to_bytes_def)
  obtain st2 where "exchange scripted_host (add_header (lit ''Content-Type'') (lit ''application/json'') (request_post h [[]])) st1 = (Ok [50], st2)"
    using exchange_scripted [of st1 "[50]" "[]"] g(2) by blast
  with g(1) er json_body_echo_tx [OF utf8_valid_call_data assms(1,2) er(2)] show thesis by (intro that) auto
qed

lemma scripted_success:
  assumes "utf8_valid f" "utf8_valid t" "os_storage ws INFO_KEY = None" "os_world ws = [(Response 200, [49]), (Response 200, [50])]"
  shows "\<exists>ws'. update_ethereum_price_worker marked_codec echo_json scripted_host h f t ws = (Ok (), ws')"
proof -
  have ws: "ws\<lparr>os_world := os_world ws\<rparr> = ws" by simp
  obtain er st1 st2 where a: "get_estimated_gas echo_json scripted_host (call_data 0) f t ws = (Ok [49], st1)"
    "eth_result_from_str echo_json [49] = Some er"
    "json_body echo_json (serialize_eth_transaction (eth_transaction_for f t (er_result er) (call_data 0))) = Ok []"
    "exchange scripted_host (add_header (lit ''Content-Type'') (lit ''application/json'') (request_post h [[]])) st1 = (Ok [50], st2)"
    by (rule scripted_answers [OF assms(1,2,4)])
  have r: "refresh_price marked_codec echo_json scripted_host ws = (Ok (), ws)"
    using refresh_busy [of scripted_host ws "os_world ws" marked_codec echo_json] by (simp add: scripted_host_def)
  have "submt_price_to_ethereum echo_json scripted_host (lit ''0'') h f t ws = (Ok [50], st2)"
    using a by (simp add: submt_price_eq parse_zero utf8_valid_lit)
  moreover have "\<exists>ws'. submit_call scripted_host c st2 = (Ok (), ws')" for c
    by (simp add: submit_call_def scripted_host_def Let_def)
  ultimately show ?thesis
    by (simp add: worker_eq r stored_price_none [of "os_storage ws", OF assms(3)])
qed

theorem busy_lock_reports_zero_witness:
  "\<exists>st'. update_ethereum_price_worker marked_codec echo_json scripted_host (prefixed [104]) (prefixed [102]) (prefixed [116])
       (waiting [(Response 200, [49]), (Response 200, [50])] (Call_submit_ethereum_price [57])) = (Ok (), st') \<and>
     last (os_trace st') = Submitted (Call_submit_ethereum_price (lit ''0'')) True"
proof -
  let ?ws = "waiting [(Response 200, [49]), (Response 200, [50])] (Call_submit_ethereum_price [57])"
  have w: "os_world ?ws = [(Response 200, [49]), (Response 200, [50])]" "?ws\<lparr>os_world := os_world ?ws\<rparr> = ?ws" by (simp_all add: waiting_def)
  obtain er st1 st2 where a: "get_estimated_gas echo_json scripted_host (call_data 0) (prefixed [102]) (prefixed [116]) ?ws = (Ok [49], st1)"
    "eth_result_from_str echo_json [49] = Some er"
    "json_body echo_json (serialize_eth_transaction (eth_transaction_for (prefixed [102]) (prefixed [116]) (er_result er) (call_data 0))) = Ok []"
    "exchange scripted_host (add_header (lit ''Content-Type'') (lit ''application/json'') (request_post (prefixed [104]) [[]])) st1 = (Ok [50], st2)"
    by (rule scripted_answers [OF utf8_valid_prefixed utf8_valid_prefixed w(1)])
  have busy: "lock_try scripted_host LOCK_KEY LOCK_BLOCK_EXPIRATION LOCK_TIMEOUT_EXPIRATION (os_world ?ws) = (False, os_world ?ws)"
    by (simp add: scripted_host_def)
  have "os_storage ?ws INFO_KEY = None" by (simp add: waiting_def keys_distinct)
  from busy_lock_reports_zero [OF busy this, unfolded w(2), OF a(1) _ a(2-4), of marked_codec]
  have "update_ethereum_price_worker marked_codec echo_json scripted_host (prefixed [104]) (prefixed [102]) (prefixed [116]) ?ws =
      submit_call scripted_host (Call_submit_ethereum_price (lit ''0'')) st2" by simp
  then show ?thesis by (simp add: submit_call_def scripted_host_def record_effect_def Let_def)
qed

end
