(* ===== verification/Chain_System.thy ===== *)
theory Chain_System
  imports Runtime Client_Liveness
begin

text \<open>
  Blocks: a node that imports them one after the other, with its runtime storage, its local off-chain
  storage and the off-chain workers of \<^verbatim>\<open>authorization/src/lib.rs\<close> and \<^verbatim>\<open>client/src/lib.rs\<close> that run
  after each block (\<^verbatim>\<open>execute_block\<close> and \<^verbatim>\<open>offchain_worker\<close> of the runtime APIs in \<^verbatim>\<open>runtime/src/lib.rs\<close>).
  Between blocks the world outside may change at will.

  When a block is imported is decided outside this repository, by the Substrate client; \<open>import_block\<close> is the environment that these
  theorems assume of it: off-chain indexing and off-chain workers are enabled (they are settings of the node), what a block wrote to the
  index reaches the off-chain storage, and then the workers of the two pallets run.
\<close>

section \<open>Importing a block\<close>

text \<open>What the library provides to the node.\<close>

record ('o, 'acc, 'x, 'e, 'r, 'd, 'w, 'id) node_lib =
  nl_env :: "('o, 'acc) runtime_env"
  nl_other :: "'o \<times> u32 \<Rightarrow> 'x \<Rightarrow> ('e, unit, ('acc, 'r) runtime_state) dispatchable"
  nl_json :: "'d json_api"
  nl_host :: "('w, 'id) offchain_host"
  nl_decode :: "bytes \<Rightarrow> bytes option"

record ('acc, 'r, 'w) node_state =
  ns_number :: u32
  ns_runtime :: "('acc, 'r) runtime_state"
  ns_offchain :: "'w ocw_state"
  ns_peers :: "u32 auth_worker_effect option"

text \<open>A call without signer that is not one of the library's is in a block only when its pallet validates it.\<close>

fun includable_call :: "('o, 'acc) frame_origins \<Rightarrow> 'o \<times> ('acc, 'x) runtime_call \<Rightarrow> bool" where
  "includable_call fo (org, OtherPallet x) = True"
| "includable_call fo (org, c) =
     (if fo_none fo org then case runtime_validate_unsigned InBlock c of Validated (Inr v) \<Rightarrow> True | _ \<Rightarrow> False else True)"

definition block_calls :: "u32 \<Rightarrow> ('o \<times> ('acc, 'x) runtime_call) list \<Rightarrow> (('o \<times> u32) \<times> ('acc, 'x) runtime_call) list" where
  "block_calls n b = map (\<lambda>(org, c). ((org, n), c)) b"

definition execute_block ::
  "('o, 'acc, 'x, 'e, 'r, 'd, 'w, 'id) node_lib \<Rightarrow> u32 \<Rightarrow> ('o \<times> ('acc, 'x) runtime_call) list \<Rightarrow>
     ('acc, 'r) runtime_state \<Rightarrow> ('acc, 'r) runtime_state" where
  "execute_block lib n b = run_calls (runtime_dispatch (nl_env lib) (nl_other lib)) (block_calls n b)"

text \<open>A block without a raw write of the storage: its calls of the library leave the three pallets alone.\<close>

definition no_raw_writes ::
  "('o, 'acc, 'x, 'e, 'r, 'd, 'w, 'id) node_lib \<Rightarrow> u32 \<Rightarrow> ('o \<times> ('acc, 'x) runtime_call) list \<Rightarrow> bool" where
  "no_raw_writes lib n b \<longleftrightarrow> list_all (keeps_pallets (nl_other lib)) (block_calls n b)"

text \<open>
  What the block wrote to the index goes to the off-chain storage, then both workers run; they touch different
  state, so their order does not matter. A panic of a worker ends the worker and not the node.
\<close>

definition import_block ::
  "('o, 'acc, 'x, 'e, 'r, 'd, 'w, 'id) node_lib \<Rightarrow> bytes option \<Rightarrow> ('o \<times> ('acc, 'x) runtime_call) list \<Rightarrow>
     ('acc, 'r, 'w) node_state \<Rightarrow> ('acc, 'r, 'w) node_state" where
  "import_block lib network_state b s =
     (let n = ns_number s + 1;
          S = execute_block lib n b (ns_runtime s);
          ocw = (ns_offchain s)\<lparr>os_storage := os_storage (ns_offchain s) ++ offchain_index (light_client_module S)\<rparr>
      in \<lparr>ns_number = n, ns_runtime = S,
          ns_offchain = snd (client_offchain_worker (env_codec (nl_env lib)) (nl_json lib) (nl_host lib) n ocw),
          ns_peers = Some (auth_offchain_worker network_state (nl_decode lib) n (supra_authorization S))\<rparr>)"

text \<open>The genesis of the chain on a node whose off-chain storage is empty.\<close>

definition genesis_runtime :: "(peer_id \<times> 'acc) list \<Rightarrow> 'r \<Rightarrow> ('acc, 'r) runtime_state" where
  "genesis_runtime nodes r =
     \<lparr>template_module = empty_template_state, light_client_module = empty_client_state,
      supra_authorization = auth_genesis nodes, other_pallets = r\<rparr>"

definition genesis_node :: "(peer_id \<times> 'acc) list \<Rightarrow> 'r \<Rightarrow> 'w \<Rightarrow> ('acc, 'r, 'w) node_state" where
  "genesis_node nodes r w =
     \<lparr>ns_number = 0,
      ns_runtime = genesis_runtime nodes r,
      ns_offchain = \<lparr>os_world = w, os_storage = Map.empty, os_trace = []\<rparr>,
      ns_peers = None\<rparr>"

text \<open>
  A step imports a block in which root writes no raw storage, or changes the world; it is labelled with the blocks it adds to the chain.
\<close>

inductive node_step ::
  "('o, 'acc, 'x, 'e, 'r, 'd, 'w, 'id) node_lib \<Rightarrow> ('acc, 'r, 'w) node_state \<Rightarrow> ('o \<times> ('acc, 'x) runtime_call) list list \<Rightarrow>
     ('acc, 'r, 'w) node_state \<Rightarrow> bool"
  for lib :: "('o, 'acc, 'x, 'e, 'r, 'd, 'w, 'id) node_lib" where
  block: "list_all (includable_call (env_origins (nl_env lib))) b \<Longrightarrow> unat (ns_number s) + 1 < 2 ^ 32 \<Longrightarrow>
    no_raw_writes lib (ns_number s + 1) b \<Longrightarrow>
    node_step lib s [b] (import_block lib network_state b s)"
| world: "node_step lib s [] (s\<lparr>ns_offchain := (ns_offchain s)\<lparr>os_world := w\<rparr>\<rparr>)"

inductive_cases node_stepE: "node_step lib s bs s'"

inductive node_reachable ::
  "('o, 'acc, 'x, 'e, 'r, 'd, 'w, 'id) node_lib \<Rightarrow> (peer_id \<times> 'acc) list \<Rightarrow> ('o \<times> ('acc, 'x) runtime_call) list list \<Rightarrow>
     ('acc, 'r, 'w) node_state \<Rightarrow> bool"
  for lib :: "('o, 'acc, 'x, 'e, 'r, 'd, 'w, 'id) node_lib" and nodes :: "(peer_id \<times> 'acc) list" where
  genesis: "node_reachable lib nodes [] (genesis_node nodes r w)"
| step: "node_reachable lib nodes bs s \<Longrightarrow> node_step lib s bs' s' \<Longrightarrow> node_reachable lib nodes (bs @ bs') s'"

section \<open>The parts of a block\<close>

lemma import_block_sel:
  "ns_number (import_block lib netst b s) = ns_number s + 1"
  "ns_runtime (import_block lib netst b s) = execute_block lib (ns_number s + 1) b (ns_runtime s)"
  by (simp_all add: import_block_def Let_def)

text \<open>The client calls of a block, each with the number of the block.\<close>

definition block_client_calls :: "u32 \<Rightarrow> ('o \<times> ('acc, 'x) runtime_call) list \<Rightarrow> (('o \<times> u32) \<times> client_call) list" where
  "block_client_calls n b = List.map_filter client_calls (block_calls n b)"

lemma block_client_calls_number: "((org, m), c) \<in> set (block_client_calls n b) \<Longrightarrow> m = n"
  unfolding block_client_calls_def
  by (drule selected_origin(3)) (auto simp: block_calls_def)

lemma accepted_other_block: "m \<noteq> n \<Longrightarrow> accepted cfg m (block_client_calls n b) = []"
  by (auto simp: accepted_def filter_empty_conv dest: block_client_calls_number)

lemma execute_block_client:
  "no_raw_writes lib n b \<Longrightarrow> light_client_module (execute_block lib n b S) =
     run_calls (client_dispatch (env_codec (nl_env lib)) (runtime_client_config (nl_env lib))) (block_client_calls n b) (light_client_module S)"
  by (simp add: execute_block_def rt_client.run_component block_client_calls_def no_raw_writes_def)

lemma run_index_other:
  assumes "\<And>m. key \<noteq> derived_key k m"
  shows "offchain_index (run_calls (client_dispatch k cfg) cs st) key = offchain_index st key"
proof (induction cs arbitrary: st)
  case (Cons x cs)
  obtain org b c where x: "x = ((org, b), c)" by (metis prod.collapse)
  show ?case
    using assms [of b] by (simp add: x Cons.IH client_dispatch_eq split: option.split)
qed simp

lemma fetch_n_parse_storage: "fetch_n_parse api host st = (r, st') \<Longrightarrow> os_storage st' = os_storage st"
  by (auto simp: fetch_n_parse_eq fetch_from_remote_def Let_def split: prod.splits elim!: exchangeE)

text \<open>The worker writes nothing to the off-chain storage but the price.\<close>

lemma refresh_storage:
  assumes "refresh_price k api host st = (r, st')"
  shows "os_storage st' \<in> {os_storage st} \<union> range (\<lambda>c. (os_storage st)(INFO_KEY \<mapsto> encode_light_client k c))"
proof -
  obtain l w where l: "lock_try host LOCK_KEY LOCK_BLOCK_EXPIRATION LOCK_TIMEOUT_EXPIRATION (os_world st) = (l, w)" by (rule prod.exhaust)
  obtain r0 st0 where f: "fetch_n_parse api host (record_effect LockTaken (st\<lparr>os_world := w\<rparr>)) = (r0, st0)" by (rule prod.exhaust)
  from fetch_n_parse_storage [OF f] have "os_storage st0 = os_storage st" by (simp add: record_effect_def)
  with assms l f show ?thesis
    by (cases r0) (auto simp: refresh_price_def record_effect_def Let_def split: if_splits)
qed

lemma worker_storage:
  assumes "update_ethereum_price_worker k api host h f t st = (r, st')"
  shows "os_storage st' \<in> {os_storage st} \<union> range (\<lambda>c. (os_storage st)(INFO_KEY \<mapsto> encode_light_client k c))"
proof -
  obtain r0 st1 where r0: "refresh_price k api host st = (r0, st1)" by (rule prod.exhaust)
  note s1 = refresh_storage [OF r0]
  show ?thesis
  proof (cases "r0 = Ok ()")
    case False
    with assms r0 have "st' = st1" by (auto simp: worker_eq split: outcome.splits)
    with s1 show ?thesis by simp
  next
    case True
    define p where "p = stored_price k (os_storage st1)"
    obtain r1 st2 where s: "submt_price_to_ethereum api host p h f t st1 = (r1, st2)" by (rule prod.exhaust)
    have "(r, st') = (case r1 of
       Ok b \<Rightarrow> if utf8_valid b then submit_call host (Call_submit_ethereum_price p) st2 else (Err HttpFetchingError, st2)
     | Err e \<Rightarrow> (Err e, st2) | Panic \<Rightarrow> (Panic, st2))"
      using assms r0 True s by (cases r1) (auto simp: worker_eq p_def Let_def split: if_splits)
    with s have "os_storage st' = os_storage st1" by (rule submission_effects [where p = Idle]) auto
    with s1 show ?thesis by simp
  qed
qed

lemma offchain_worker_storage:
  "os_storage (snd (client_offchain_worker k api host n st)) \<in>
     {os_storage st} \<union> range (\<lambda>c. (os_storage st)(INFO_KEY \<mapsto> encode_light_client k c))"
proof (cases "pending_update k n (os_storage st)")
  case (Some x)
  obtain h f t where x: "x = (h, f, t)" by (metis prod.collapse)
  obtain r st' where w: "update_ethereum_price_worker k api host (prefixed h) (prefixed f) (prefixed t) st = (r, st')" by (rule prod.exhaust)
  have "snd (swallow_error (r, st')) = st'" by (cases r) auto
  with worker_storage [OF w] show ?thesis by (simp add: offchain_worker_eq Some x w)
qed (simp add: offchain_worker_eq)

section \<open>Invariants\<close>

text \<open>The lock operations of a worker are balanced when it ends in a phase without the lock.\<close>

fun held :: "phase \<Rightarrow> nat" where
  "held p = (if lock_free p then 0 else 1)"

lemma next_phase_held:
  "next_phase h p e = Some p' \<Longrightarrow> of_bool (e = LockTaken) + held p = of_bool (e = LockReleased) + held p'"
  by (cases "(h, p, e)" rule: next_phase.cases) (auto simp: lock_free_def split: if_splits)

lemma run_phases_held:
  "run_phases h p tr = Some p' \<Longrightarrow> count_list tr LockTaken + held p = count_list tr LockReleased + held p'"
proof (induction tr arbitrary: p)
  case (Cons e tr)
  then obtain q where q: "next_phase h p e = Some q" "run_phases h q tr = Some p'"
    by (auto simp: bind_eq_Some_conv)
  from next_phase_held [OF q(1)] Cons.IH [OF q(2)] show ?case by (auto simp del: held.simps split: if_splits)
qed simp

lemma offchain_worker_balanced:
  "\<exists>tr. os_trace (snd (client_offchain_worker k api host n st)) = os_trace st @ tr \<and>
     count_list tr LockTaken = count_list tr LockReleased"
proof (cases "pending_update k n (os_storage st)")
  case (Some x)
  obtain h f t where x: "x = (h, f, t)" by (metis prod.collapse)
  obtain r st' where w: "update_ethereum_price_worker k api host (prefixed h) (prefixed f) (prefixed t) st = (r, st')" by (rule prod.exhaust)
  have "snd (swallow_error (r, st')) = st'" by (cases r) auto
  moreover from worker_effects [of k api host "prefixed h" "prefixed f" "prefixed t" st] obtain tr p
    where "os_trace st' = os_trace st @ tr" "run_phases (prefixed h) Idle tr = Some p" "lock_free p"
    by (auto simp: w Let_def)
  moreover from this run_phases_held have "count_list tr LockTaken = count_list tr LockReleased"
    by (fastforce simp: lock_free_def)
  ultimately show ?thesis by (auto simp: offchain_worker_eq Some x w)
qed (simp add: offchain_worker_eq)

text \<open>The entry that the off-chain index holds for a block of the chain.\<close>

definition block_entry :: "'bn client_codec \<Rightarrow> ('o, 'acc) client_config \<Rightarrow> 'bn \<Rightarrow> (('o \<times> 'bn) \<times> client_call) list \<Rightarrow> bytes option" where
  "block_entry k cfg n cs =
     (case accepted cfg n cs of [] \<Rightarrow> None | c # cs' \<Rightarrow> Some (index_entry k (last (c # cs'))))"

definition chain_entry ::
  "('o, 'acc) runtime_env \<Rightarrow> ('o \<times> ('acc, 'x) runtime_call) list list \<Rightarrow> u32 \<Rightarrow> bytes option" where
  "chain_entry env bs m =
     (if 0 < unat m \<and> unat m \<le> length bs
      then block_entry (env_codec env) (runtime_client_config env) m (block_client_calls m (bs ! (unat m - 1))) else None)"

definition node_inv :: "('o, 'acc, 'x, 'e, 'r, 'd, 'w, 'id) node_lib \<Rightarrow> ('o \<times> ('acc, 'x) runtime_call) list list \<Rightarrow>
    ('acc, 'r, 'w) node_state \<Rightarrow> bool" where
  "node_inv lib bs s \<longleftrightarrow>
     (let k = env_codec (nl_env lib); S = ns_runtime s; ocw = ns_offchain s; idx = offchain_index (light_client_module S) in
      unat (ns_number s) = length bs \<and>
      auth_inv (supra_authorization S) \<and> auth_bounded (runtime_auth_config (nl_env lib)) (supra_authorization S) \<and>
      (\<forall>m. idx (derived_key k m) = chain_entry (nl_env lib) bs m) \<and> idx INFO_KEY = None \<and>
      (\<forall>m. os_storage ocw (derived_key k m) = idx (derived_key k m)) \<and>
      os_storage ocw INFO_KEY \<in> {None} \<union> range (\<lambda>c. Some (encode_light_client k c)) \<and>
      count_list (os_trace ocw) LockTaken = count_list (os_trace ocw) LockReleased)"

lemma block_entry_run:
  assumes "codec_block_inj k" "offchain_index st (derived_key k n) = None"
  shows "offchain_index (run_calls (client_dispatch k cfg) cs st) (derived_key k n) = block_entry k cfg n cs"
  using run_index [OF assms(1), of cfg cs st n] assms(2) by (auto simp: block_entry_def split: list.split)

lemma unat_Suc_number: "unat n + 1 < 2 ^ 32 \<Longrightarrow> unat ((n :: u32) + 1) = unat n + 1"
  by (simp add: unat_plus_if')

lemma chain_entry_snoc:
  assumes "unat n = length bs" "unat n + 1 < 2 ^ 32"
  shows "chain_entry env (bs @ [b]) m =
     (if m = n + 1 then block_entry (env_codec env) (runtime_client_config env) m (block_client_calls m b) else chain_entry env bs m)"
proof (cases "m = n + 1")
  case True
  then show ?thesis using assms by (simp add: chain_entry_def unat_Suc_number)
next
  case False
  then have "unat m \<noteq> length bs + 1" using assms unat_Suc_number [of n] by (metis word_unat_eq_iff)
  with False show ?thesis by (auto simp: chain_entry_def nth_append)
qed

lemma execute_block_index:
  assumes "codec_block_inj (env_codec (nl_env lib))"
    and "\<forall>m. offchain_index (light_client_module S) (derived_key (env_codec (nl_env lib)) m) = chain_entry (nl_env lib) bs m"
    and "unat n = length bs" "unat n + 1 < 2 ^ 32" "no_raw_writes lib (n + 1) b"
  shows "offchain_index (light_client_module (execute_block lib (n + 1) b S)) (derived_key (env_codec (nl_env lib)) m) =
     chain_entry (nl_env lib) (bs @ [b]) m"
proof (cases "m = n + 1")
  case True
  have "chain_entry (nl_env lib) bs m = None"
    using assms(3,4) True by (simp add: chain_entry_def unat_Suc_number)
  with assms(2) True show ?thesis
    by (simp add: execute_block_client [OF assms(5)] block_entry_run [OF assms(1)] chain_entry_snoc [OF assms(3,4)])
next
  case False
  with assms(2) show ?thesis
    by (simp add: execute_block_client [OF assms(5)] run_index [OF assms(1)] accepted_other_block chain_entry_snoc [OF assms(3,4)])
qed

lemma execute_block_auth:
  assumes "auth_inv (supra_authorization S) \<and> auth_bounded (runtime_auth_config (nl_env lib)) (supra_authorization S)"
    and "no_raw_writes lib n b"
  shows "auth_inv (supra_authorization (execute_block lib n b S)) \<and>
     auth_bounded (runtime_auth_config (nl_env lib)) (supra_authorization (execute_block lib n b S))"
  unfolding execute_block_def
  by (rule rt_auth.run_component_invariant [where P = "\<lambda>st. auth_inv st \<and> auth_bounded (runtime_auth_config (nl_env lib)) st"])
    (rule auth_machine.dispatch_inv assms(1) assms(2) [unfolded no_raw_writes_def] | assumption)+

lemma node_inv_genesis:
  assumes "length nodes \<le> 8"
  shows "node_inv lib [] (genesis_node nodes r w)"
proof -
  have "auth_bounded (runtime_auth_config (nl_env lib)) (auth_genesis nodes)"
    using assms by (intro auth_bounded_genesis) (auto simp: genesis_within_def)
  then show ?thesis
    by (auto simp: node_inv_def genesis_node_def genesis_runtime_def Let_def chain_entry_def empty_client_state_def auth_inv_genesis)
qed

lemma node_inv_import:
  assumes inj: "codec_block_inj (env_codec (nl_env lib))" and s: "node_inv lib bs s" and n: "unat (ns_number s) + 1 < 2 ^ 32"
    and raw: "no_raw_writes lib (ns_number s + 1) b"
  shows "node_inv lib (bs @ [b]) (import_block lib netst b s)"
proof -
  define k where "k = env_codec (nl_env lib)"
  define S where "S = execute_block lib (ns_number s + 1) b (ns_runtime s)"
  define ocw where "ocw = (ns_offchain s)\<lparr>os_storage := os_storage (ns_offchain s) ++ offchain_index (light_client_module S)\<rparr>"
  define ocw' where "ocw' = snd (client_offchain_worker k (nl_json lib) (nl_host lib) (ns_number s + 1) ocw)"
  have sel: "ns_number (import_block lib netst b s) = ns_number s + 1" "ns_runtime (import_block lib netst b s) = S"
      "ns_offchain (import_block lib netst b s) = ocw'"
    by (simp_all add: import_block_def Let_def S_def ocw_def ocw'_def k_def)
  note inv = s [unfolded node_inv_def Let_def, folded k_def]
  have idx: "offchain_index (light_client_module S) (derived_key k m) = chain_entry (nl_env lib) (bs @ [b]) m" for m
    using inv n raw execute_block_index [OF inj, of "ns_runtime s" bs "ns_number s" b m] by (simp add: S_def k_def)
  have info: "offchain_index (light_client_module S) INFO_KEY = None"
    using inv by (simp add: S_def execute_block_client [OF raw] run_index_other keys_distinct)
  have keep: "chain_entry (nl_env lib) bs m = Some e \<Longrightarrow> chain_entry (nl_env lib) (bs @ [b]) m = Some e" for m e
    by (auto simp: chain_entry_def nth_append split: if_splits)
  have st: "os_storage ocw (derived_key k m) = offchain_index (light_client_module S) (derived_key k m)" for m
    using inv keep [of m] by (cases "chain_entry (nl_env lib) bs m") (auto simp: ocw_def map_add_def idx split: option.split)
  have oi: "os_storage ocw INFO_KEY = os_storage (ns_offchain s) INFO_KEY"
    by (simp add: ocw_def map_add_def info)
  from offchain_worker_storage [of k "nl_json lib" "nl_host lib" "ns_number s + 1" ocw]
  have w: "os_storage ocw' \<in> {os_storage ocw} \<union> range (\<lambda>c. (os_storage ocw)(INFO_KEY \<mapsto> encode_light_client k c))"
    by (simp only: ocw'_def)
  have "os_storage ocw' (derived_key k m) = offchain_index (light_client_module S) (derived_key k m)" for m
    using w st [of m] by (auto simp: keys_distinct)
  moreover have "os_storage ocw' INFO_KEY \<in> {None} \<union> range (\<lambda>c. Some (encode_light_client k c))"
    using w oi inv by auto
  moreover have "count_list (os_trace ocw') LockTaken = count_list (os_trace ocw') LockReleased"
    using offchain_worker_balanced [of k "nl_json lib" "nl_host lib" "ns_number s + 1" ocw] inv
    by (auto simp: ocw'_def ocw_def)
  moreover have "auth_inv (supra_authorization S) \<and> auth_bounded (runtime_auth_config (nl_env lib)) (supra_authorization S)"
    using inv raw unfolding S_def by (intro execute_block_auth) simp_all
  ultimately show ?thesis
    using inv n by (simp add: node_inv_def sel unat_Suc_number idx info flip: k_def)
qed

lemma node_reachable_inv:
  assumes "node_reachable lib nodes bs s" "codec_block_inj (env_codec (nl_env lib))" "length nodes \<le> 8"
  shows "node_inv lib bs s"
  using assms(1)
proof (induction rule: node_reachable.induct)
  case (genesis r w)
  from assms(3) show ?case by (rule node_inv_genesis)
next
  case (step bs s bs' s')
  from step.hyps(2) show ?case
    by (rule node_stepE) (use step.IH node_inv_import [OF assms(2) step.IH] in \<open>auto simp: node_inv_def Let_def\<close>)
qed

section \<open>Properties\<close>

text \<open>
  C4. On a node that starts from a genesis with at most eight nodes and imports any blocks in which root writes no raw storage, whatever the
  world does in between: its
  number is the number of imported blocks, there are at most eight well known nodes, all owned; the off-chain storage holds
  for each block exactly the entry of its last accepted client call and nothing for blocks to come; the stored price, if any, decodes; and
  every lock that a worker took has been given back.
\<close>

theorem node_reachable_invariant:
  assumes "node_reachable lib nodes bs s" "codec_block_inj (env_codec (nl_env lib))" "codec_roundtrip (env_codec (nl_env lib))"
    and "length nodes \<le> 8"
  shows "let k = env_codec (nl_env lib); A = supra_authorization (ns_runtime s); ocw = ns_offchain s in
     unat (ns_number s) = length bs \<and>
     auth_inv A \<and> btree_len (WellKnownNodes A) \<le> 8 \<and> set (WellKnownNodes A) \<subseteq> dom (Owners A) \<and>
     (\<lambda>m. os_storage ocw (derived_key k m)) = chain_entry (nl_env lib) bs \<and>
     (\<exists>c. Option.bind (os_storage ocw INFO_KEY) (decode_light_client k) = (if os_storage ocw INFO_KEY = None then None else Some c)) \<and>
     count_list (os_trace ocw) LockTaken = count_list (os_trace ocw) LockReleased"
  using node_reachable_inv [OF assms(1,2,4)] assms(3)
  by (auto simp: node_inv_def Let_def auth_inv_def auth_bounded_def fun_eq_iff codec_roundtrip_def)

text \<open>A node for the examples, and its first block with a request.\<close>

definition example_lib :: "(raw_origin, nat, unit, unit, unit, str, bool, unit) node_lib" where
  "example_lib = \<lparr>nl_env = example_env, nl_other = no_other, nl_json = echo_json, nl_host = helpful_host, nl_decode = Some\<rparr>"

abbreviation request_block :: "(raw_origin \<times> (nat, unit) runtime_call) list" where
  "request_block \<equiv> [(Signed 3, LightClient (Call_update_ethereum_price [104] [102] [116]))]"

lemma example_lib_simps [simp]:
  "nl_env example_lib = example_env" "env_codec example_env = marked_codec" "nl_host example_lib = helpful_host"
  "nl_json example_lib = echo_json" "env_origins example_env = raw_origins"
  by (simp_all add: example_lib_def example_env_def)

lemma example_no_raw [simp]: "no_raw_writes example_lib n b"
  by (simp add: no_raw_writes_def example_lib_def list_all_iff)

lemma request_block_reachable:
  "node_reachable example_lib [] [request_block] (import_block example_lib None request_block (genesis_node [] () False))"
proof -
  have "node_reachable example_lib [] ([] @ [request_block]) (import_block example_lib None request_block (genesis_node [] () False))"
    by (rule node_reachable.step [OF node_reachable.genesis node_step.block])
      (simp_all add: genesis_node_def raw_origins_def)
  then show ?thesis by simp
qed

theorem node_reachable_invariant_witness:
  "let s = import_block example_lib None request_block (genesis_node [] () False) in
     unat (ns_number s) = 1 \<and>
     count_list (os_trace (ns_offchain s)) LockTaken = count_list (os_trace (ns_offchain s)) LockReleased"
  using node_reachable_invariant [OF request_block_reachable] by (simp add: marked_codec_laws Let_def)

lemma import_block_trace:
  assumes inj: "codec_block_inj (env_codec (nl_env lib))" and s: "node_inv lib bs s" and n: "unat (ns_number s) + 1 < 2 ^ 32"
    and raw: "no_raw_writes lib (ns_number s + 1) b"
  defines "k \<equiv> env_codec (nl_env lib)" and "m \<equiv> ns_number s + 1"
  obtains ocw where "ns_offchain (import_block lib netst b s) = snd (client_offchain_worker k (nl_json lib) (nl_host lib) m ocw)"
    "os_trace ocw = os_trace (ns_offchain s)" "os_world ocw = os_world (ns_offchain s)"
    "os_storage ocw (derived_key k m) = block_entry k (runtime_client_config (nl_env lib)) m (block_client_calls m b)"
proof -
  define S where "S = execute_block lib (ns_number s + 1) b (ns_runtime s)"
  define ocw where "ocw = (ns_offchain s)\<lparr>os_storage := os_storage (ns_offchain s) ++ offchain_index (light_client_module S)\<rparr>"
  note inv = s [unfolded node_inv_def Let_def]
  have old: "os_storage (ns_offchain s) (derived_key k m) = None"
    using inv n by (simp add: k_def m_def chain_entry_def unat_Suc_number)
  have "offchain_index (light_client_module S) (derived_key k m) = chain_entry (nl_env lib) (bs @ [b]) m"
    using inv n raw execute_block_index [OF inj, of "ns_runtime s" bs "ns_number s" b m] by (simp add: S_def k_def)
  also have "\<dots> = block_entry k (runtime_client_config (nl_env lib)) m (block_client_calls m b)"
    using inv n chain_entry_snoc [of "ns_number s" bs "nl_env lib" b m] by (simp add: m_def k_def)
  finally have new: "offchain_index (light_client_module S) (derived_key k m) =
      block_entry k (runtime_client_config (nl_env lib)) m (block_client_calls m b)" .
  show thesis
    by (rule that [of ocw]) (simp_all add: import_block_def Let_def ocw_def S_def k_def m_def map_add_def old [unfolded k_def m_def]
        new [unfolded S_def k_def m_def] split: option.split)
qed

text \<open>
  C10. A block without a raw write of the storage makes the node's client worker touch the outside (a lock, a request, a write, a submission) only when the last accepted client
  call of that same block is an update request of a signer: no unsigned transaction, no call of another pallet and no earlier block does.
\<close>

theorem worker_acts_on_own_block:
  assumes "node_reachable lib nodes bs s" "codec_block_inj (env_codec (nl_env lib))" "codec_short_input (env_codec (nl_env lib))"
    and "length nodes \<le> 8" "unat (ns_number s) + 1 < 2 ^ 32" "no_raw_writes lib (ns_number s + 1) b"
    and "os_trace (ns_offchain (import_block lib netst b s)) \<noteq> os_trace (ns_offchain s)"
  shows "\<exists>org who h f t. (org, LightClient (Call_update_ethereum_price h f t)) \<in> set b \<and>
     fo_signed (env_origins (nl_env lib)) org = Some who \<and>
     last (accepted (runtime_client_config (nl_env lib)) (ns_number s + 1) (block_client_calls (ns_number s + 1) b)) = Call_update_ethereum_price h f t"
proof -
  define k where "k = env_codec (nl_env lib)"
  define m where "m = ns_number s + 1"
  define cfg where "cfg = runtime_client_config (nl_env lib)"
  define acc where "acc = accepted cfg m (block_client_calls m b)"
  obtain ocw where o: "ns_offchain (import_block lib netst b s) = snd (client_offchain_worker k (nl_json lib) (nl_host lib) m ocw)"
    "os_trace ocw = os_trace (ns_offchain s)"
    "os_storage ocw (derived_key k m) = block_entry k cfg m (block_client_calls m b)"
    unfolding k_def m_def cfg_def
    by (rule import_block_trace [OF assms(2) node_reachable_inv [OF assms(1,2,4)] assms(5,6)])
  with assms(7) have "pending_update k m (os_storage ocw) \<noteq> None"
    by (auto simp: offchain_worker_eq split: option.splits)
  then have ne: "acc \<noteq> []" and dec: "decode_price_flag k (index_entry k (last acc)) \<noteq> None"
    by (auto simp: pending_update_def o(3) block_entry_def acc_def split: list.splits option.splits)
  from dec assms(3) obtain h f t where l: "last acc = Call_update_ethereum_price h f t"
    by (cases "last acc") (auto simp: codec_short_input_def k_def)
  from last_in_set [OF ne] have "Call_update_ethereum_price h f t \<in> set acc" by (simp add: l)
  then obtain org where c: "((org, m), Call_update_ethereum_price h f t) \<in> set (block_client_calls m b)"
      "call_event cfg org (Call_update_ethereum_price h f t) \<noteq> None"
    by (auto simp: acc_def accepted_def)
  from c(2) obtain who where "fo_signed (env_origins (nl_env lib)) org = Some who"
    by (auto simp: cfg_def runtime_client_config_def)
  moreover from c(1) have "(org, LightClient (Call_update_ethereum_price h f t)) \<in> set b"
    by (auto simp: block_client_calls_def block_calls_def elim!: client_calls.elims dest!: in_map_filterD)
  ultimately show ?thesis
    using l by (auto simp: acc_def cfg_def m_def)
qed

lemma example_request_accepted:
  "accepted (runtime_client_config example_env) m (block_client_calls m request_block) = [Call_update_ethereum_price [104] [102] [116]]"
  by (simp add: accepted_def block_client_calls_def block_calls_def map_filter_simps runtime_client_config_def raw_origins_def)

lemma pending_of_block:
  assumes "codec_roundtrip k" "accepted cfg n cs = pre @ [Call_update_ethereum_price h f t]"
    and "storage (derived_key k n) = block_entry k cfg n cs"
  shows "pending_update k n storage = Some (h, f, t)"
proof -
  have "block_entry k cfg n cs = Some (index_entry k (Call_update_ethereum_price h f t))"
    using assms(2) by (cases pre) (simp_all add: block_entry_def)
  with assms(1,3) show ?thesis by (simp add: pending_update_def codec_roundtrip_def)
qed

text \<open>
  The cycle of a request on a node whose host answers: the block with the request ends in a submission, and
  a block that carries the submission deposits its event.
\<close>

lemma request_submitted:
  assumes inv: "node_inv lib bs s" and laws: "codec_block_inj (env_codec (nl_env lib))" "codec_roundtrip (env_codec (nl_env lib))"
    and host: "reliable_host (nl_host lib) taken good srv" "good (os_world (ns_offchain s))" "\<not> taken (os_world (ns_offchain s))" "json_prints (nl_json lib)" "json_text_valid (nl_json lib)"
      "answers_well (nl_json lib) srv (prefixed h) c"
    and n: "unat (ns_number s) + 1 < 2 ^ 32" "no_raw_writes lib (ns_number s + 1) b"
    and acc: "accepted (runtime_client_config (nl_env lib)) (ns_number s + 1) (block_client_calls (ns_number s + 1) b) = pre @ [Call_update_ethereum_price h f t]"
  shows "\<exists>tr. os_trace (ns_offchain (import_block lib netst b s)) =
     os_trace (ns_offchain s) @ tr @ [Submitted (Call_submit_ethereum_price (lc_price c)) True]"
proof -
  obtain ocw where o: "ns_offchain (import_block lib netst b s) =
      snd (client_offchain_worker (env_codec (nl_env lib)) (nl_json lib) (nl_host lib) (ns_number s + 1) ocw)"
    "os_trace ocw = os_trace (ns_offchain s)" "os_world ocw = os_world (ns_offchain s)"
    "os_storage ocw (derived_key (env_codec (nl_env lib)) (ns_number s + 1)) =
       block_entry (env_codec (nl_env lib)) (runtime_client_config (nl_env lib)) (ns_number s + 1) (block_client_calls (ns_number s + 1) b)"
    by (rule import_block_trace [OF laws(1) inv n])
  have "pending_update (env_codec (nl_env lib)) (ns_number s + 1) (os_storage ocw) = Some (h, f, t)"
    by (rule pending_of_block [where storage = "os_storage ocw", OF laws(2) acc o(4)])
  from offchain_worker_reliable [OF host(1) host(2,3) [folded o(3)] host(4,5) laws(2) this host(6)] show ?thesis
    by (rule exE) (auto simp: o(1,2))
qed

lemma block_deposits_price:
  assumes "fo_none (env_origins (nl_env lib)) org" "(org, LightClient (Call_submit_ethereum_price p)) \<in> set b" "no_raw_writes lib n b"
  shows "SubmitEthereumPrice None p \<in> set (client_events (light_client_module (execute_block lib n b S)))"
proof -
  have "((org, n), Call_submit_ethereum_price p) \<in> set (block_client_calls n b)"
    using assms(2) by (force simp: block_client_calls_def block_calls_def List.map_filter_def)
  then show ?thesis
    using assms(1)
    by (force simp: execute_block_client [OF assms(3)] run_client_events List.map_filter_def runtime_client_config_def)
qed




text \<open>The host of the examples, when it starts requests for HTTP URLs only.\<close>

definition strict_lib :: "(raw_origin, nat, unit, unit, unit, str, bool, unit) node_lib" where
  "strict_lib = example_lib\<lparr>nl_host := helpful_host\<lparr>http_send := (\<lambda>q w. (if http_url (hr_url q) then Some () else None, w))\<rparr>\<rparr>"


lemma example_request_submitted:
  "\<exists>tr. os_trace (ns_offchain (import_block example_lib None request_block (genesis_node [] () False))) = tr @ [Submitted (Call_submit_ethereum_price [49]) True]"
proof -
  have "reliable_host (nl_host example_lib) (\<lambda>w. w) (\<lambda>_. True) digit_server" by (simp add: helpful_reliable)
  from request_submitted [OF node_inv_genesis [of "[]" example_lib "()" False] _ _ this, of "[104]"
        "\<lparr>lc_price = [49], lc_time = [49]\<rparr>" request_block "[]" "[102]" "[116]" None]
  show ?thesis
    by (auto simp: marked_codec_laws echo_json_prints echo_json_valid helpful_answers genesis_node_def example_request_accepted)
qed

theorem worker_acts_on_own_block_witness:
  "\<exists>org who h f t. (org, LightClient (Call_update_ethereum_price h f t)) \<in> set request_block \<and> fo_signed raw_origins org = Some who"
proof -
  from example_request_submitted have "os_trace (ns_offchain (import_block example_lib None request_block (genesis_node [] () False))) \<noteq> os_trace (ns_offchain (genesis_node [] () False))"
    by (auto simp: genesis_node_def)
  moreover have "unat (ns_number (genesis_node [] () False)) + 1 < 2 ^ 32" by (simp add: genesis_node_def)
  ultimately show ?thesis
    using worker_acts_on_own_block [OF node_reachable.genesis [of example_lib "[]" "()" False], of request_block None]
    by (fastforce simp: marked_codec_laws)
qed

section \<open>Peers\<close>

text \<open>
  C21. After every block without a raw write of the storage, a node that knows its own peer id has told the network to accept only the peers it lists, in
  ascending order and without repetitions: the connections that the storage after this block adds to it and, when it is
  a well known node, the other well known nodes, of which there are at most seven.
\<close>

theorem node_peers_follow_chain:
  assumes "node_reachable lib nodes bs s" "codec_block_inj (env_codec (nl_env lib))" "length nodes \<le> 8"
    and "unat (ns_number s) + 1 < 2 ^ 32" "nl_decode lib enc = Some n" "no_raw_writes lib (ns_number s + 1) b"
  shows "let s' = import_block lib (Some enc) b s; A = policy_of (supra_authorization (ns_runtime s')); me = PeerId n in
     \<exists>peers. ns_peers s' = Some (SetAuthorizedNodes peers True) \<and> sorted peers \<and> distinct peers \<and>
       set peers = allowed A me \<union> (if me \<in> known A then known A - {me} else {}) \<and>
       card (if me \<in> known A then known A - {me} else {}) \<le> 7"
proof -
  let ?s = "import_block lib (Some enc) b s"
  let ?st = "supra_authorization (ns_runtime ?s)"
  have inv: "node_inv lib (bs @ [b]) ?s"
    by (rule node_inv_import [OF assms(2) node_reachable_inv [OF assms(1-3)] assms(4,6)])
  then have ok: "auth_inv ?st" "btree_len (WellKnownNodes ?st) \<le> 8"
    by (auto simp: node_inv_def Let_def auth_bounded_def)
  have peers: "ns_peers ?s = Some (SetAuthorizedNodes (get_authorized_nodes ?st (PeerId n)) True)"
    by (simp add: import_block_def Let_def auth_offchain_worker_def assms(5))
  have "card (set (WellKnownNodes ?st)) \<le> 8"
    using ok(2) card_length [of "WellKnownNodes ?st"] by (simp add: btree_len_def)
  then show ?thesis
    using get_authorized_nodes_ok [OF ok(1), of "PeerId n"]
    by (auto simp: Let_def peers set_get_authorized_nodes btree_ok_def)
qed

lemma example_decode: "nl_decode example_lib enc = Some enc"
  by (simp add: example_lib_def)

theorem node_peers_follow_chain_witness:
  "\<exists>peers. ns_peers (import_block example_lib (Some [9]) request_block (genesis_node [(PeerId [9], 1)] () False)) = Some (SetAuthorizedNodes peers True)"
  using node_peers_follow_chain [OF node_reachable.genesis [of example_lib "[(PeerId [9], 1)]" "()" False], of "[9]" "[9]" request_block]
  by (auto simp: marked_codec_laws genesis_node_def example_decode Let_def)

end
