(* ===== verification/Client_Concurrent.thy ===== *)
theory Client_Concurrent
  imports Client_Liveness
begin

text \<open>
  Several workers at once: the off-chain worker of a block (\<^verbatim>\<open>client/src/lib.rs\<close>) may still run
  when that of the next block starts, and both share the off-chain storage and its lock. The worker
  is written here as a program of atomic actions on the host, which run alone is the function
  \<open>update_ethereum_price_worker\<close>; any number of such programs is then interleaved.
\<close>

section \<open>The worker as a program\<close>

datatype action =
    TryLock
  | Unlock
  | Ask http_request
  | Store bytes bytes
  | Load bytes
  | Submit client_call

datatype answer =
    Granted bool
  | Done
  | Body "(bytes, client_error) outcome"
  | Loaded "bytes option"
  | Accepted bool

datatype prog = Return "(unit, client_error) outcome" | Act action "answer \<Rightarrow> prog"

definition ticker_request :: http_request where
  "ticker_request = add_header (lit ''User-Agent'') HTTP_HEADER_USER_AGENT (request_get HTTP_REMOTE_REQUEST)"

definition json_request :: "str \<Rightarrow> bytes \<Rightarrow> http_request" where
  "json_request url body = add_header (lit ''Content-Type'') (lit ''application/json'') (request_post url [body])"

text \<open>The price record in the answer of the exchange.\<close>

definition fetched_client :: "'d json_api \<Rightarrow> (bytes, client_error) outcome \<Rightarrow> (light_client, client_error) outcome" where
  "fetched_client api r =
     obind (as_fetching_error r) (\<lambda>b. obind (or_err HttpFetchingError (from_utf8 b))
       (\<lambda>s. or_err HttpNotParsedInStruct (light_client_from_str api s)))"

definition price_of :: "'bn client_codec \<Rightarrow> bytes option \<Rightarrow> bytes" where
  "price_of k v = (case Option.bind v (decode_light_client k) of Some c \<Rightarrow> lc_price c | None \<Rightarrow> lit ''0'')"

definition submit_prog :: "bytes \<Rightarrow> prog" where
  "submit_prog price =
     Act (Submit (Call_submit_ethereum_price price)) (\<lambda>a. Return (if a = Accepted True then Ok () else Err OffchainUnsignedTxError))"

definition send_prog :: "str \<Rightarrow> bytes \<Rightarrow> bytes \<Rightarrow> prog" where
  "send_prog h price body =
     Act (Ask (json_request h body)) (\<lambda>a. case a of
         Body (Ok b) \<Rightarrow> if utf8_valid b then submit_prog price else Return (Err HttpFetchingError)
       | Body (Err e) \<Rightarrow> Return (Err e)
       | _ \<Rightarrow> Return Panic)"

definition estimated_prog :: "'d json_api \<Rightarrow> str \<Rightarrow> str \<Rightarrow> str \<Rightarrow> bytes \<Rightarrow> str \<Rightarrow> answer \<Rightarrow> prog" where
  "estimated_prog api h f t price data a =
     (case a of
        Body (Ok g) \<Rightarrow>
          (case Option.bind (from_utf8 g) (eth_result_from_str api) of
             None \<Rightarrow> Return Panic
           | Some er \<Rightarrow>
               (case json_body api (serialize_eth_transaction (eth_transaction_for f t (er_result er) data)) of
                  Ok body \<Rightarrow> send_prog h price body
                | Err e \<Rightarrow> Return (Err e)
                | Panic \<Rightarrow> Return Panic))
      | _ \<Rightarrow> Return Panic)"

definition report_prog :: "'d json_api \<Rightarrow> str \<Rightarrow> str \<Rightarrow> str \<Rightarrow> bytes \<Rightarrow> prog" where
  "report_prog api h f t price =
     (if \<not> utf8_valid price then Return (Err HttpFetchingError)
      else case parse_f32 price of
        None \<Rightarrow> Return (Err ParseFloatError)
      | Some v \<Rightarrow>
          (let data = call_data (f32_as_u32 v)
           in case json_body api (serialize_estimate_gas_request (gas_request data f t)) of
                Ok body \<Rightarrow> Act (Ask (json_request HTTP_ETHEREUM_HOST body)) (estimated_prog api h f t price data)
              | _ \<Rightarrow> Return Panic))"

definition load_prog :: "'bn client_codec \<Rightarrow> 'd json_api \<Rightarrow> str \<Rightarrow> str \<Rightarrow> str \<Rightarrow> prog" where
  "load_prog k api h f t =
     Act (Load INFO_KEY) (\<lambda>a. case a of Loaded v \<Rightarrow> report_prog api h f t (price_of k v) | _ \<Rightarrow> Return Panic)"

definition fetch_prog :: "'bn client_codec \<Rightarrow> 'd json_api \<Rightarrow> str \<Rightarrow> str \<Rightarrow> str \<Rightarrow> prog" where
  "fetch_prog k api h f t =
     Act (Ask ticker_request) (\<lambda>a. case a of
         Body r \<Rightarrow>
           (case fetched_client api r of
              Ok c \<Rightarrow> Act (Store INFO_KEY (encode_light_client k c)) (\<lambda>_. Act Unlock (\<lambda>_. load_prog k api h f t))
            | Err e \<Rightarrow> Act Unlock (\<lambda>_. Return (Err e))
            | Panic \<Rightarrow> Return Panic)
       | _ \<Rightarrow> Return Panic)"

definition worker_prog :: "'bn client_codec \<Rightarrow> 'd json_api \<Rightarrow> str \<Rightarrow> str \<Rightarrow> str \<Rightarrow> prog" where
  "worker_prog k api h f t =
     Act TryLock (\<lambda>a. if a = Granted True then fetch_prog k api h f t else load_prog k api h f t)"

section \<open>Running a program alone\<close>

fun perform_action :: "('w, 'id) offchain_host \<Rightarrow> action \<Rightarrow> 'w ocw_state \<Rightarrow> answer \<times> 'w ocw_state" where
  "perform_action host TryLock st =
     (let (locked, w) = lock_try host LOCK_KEY LOCK_BLOCK_EXPIRATION LOCK_TIMEOUT_EXPIRATION (os_world st);
          st = st\<lparr>os_world := w\<rparr>
      in (Granted locked, if locked then record_effect LockTaken st else st))"
| "perform_action host Unlock st =
     (Done, record_effect LockReleased (st\<lparr>os_world := lock_release host LOCK_KEY (os_world st)\<rparr>))"
| "perform_action host (Ask q) st = (let (r, st') = exchange host q st in (Body r, st'))"
| "perform_action host (Store key v) st =
     (Done, record_effect (Stored key) (st\<lparr>os_storage := (os_storage st)(key \<mapsto> v)\<rparr>))"
| "perform_action host (Load key) st = (Loaded (os_storage st key), st)"
| "perform_action host (Submit c) st =
     (let (sent, w) = submit_unsigned host c (os_world st)
      in (Accepted sent, record_effect (Submitted c sent) (st\<lparr>os_world := w\<rparr>)))"

primrec run_prog :: "('w, 'id) offchain_host \<Rightarrow> prog \<Rightarrow> (unit, 'w) worker" where
  "run_prog host (Return r) = (\<lambda>st. (r, st))"
| "run_prog host (Act a k) = (\<lambda>st. case perform_action host a st of (x, st') \<Rightarrow> run_prog host (k x) st')"

lemma run_submit: "run_prog host (submit_prog price) st = submit_call host (Call_submit_ethereum_price price) st"
  by (simp add: submit_prog_def submit_call_def Let_def split: prod.split)

lemma run_report:
  "run_prog host (report_prog api h f t price) st =
     (case submt_price_to_ethereum api host price h f t st of
        (Ok b, st2) \<Rightarrow> if utf8_valid b then submit_call host (Call_submit_ethereum_price price) st2 else (Err HttpFetchingError, st2)
      | (Err e, st2) \<Rightarrow> (Err e, st2)
      | (Panic, st2) \<Rightarrow> (Panic, st2))"
proof (cases "utf8_valid price \<and> parse_f32 price \<noteq> None")
  case False
  then show ?thesis by (auto simp: report_prog_def submt_price_eq split: option.splits)
next
  case True
  then obtain v where v: "utf8_valid price" "parse_f32 price = Some v" by auto
  let ?d = "call_data (f32_as_u32 v)"
  have send: "run_prog host (send_prog h price body) st1 =
      (case exchange host (json_request h body) st1 of
         (Ok b, st2) \<Rightarrow> if utf8_valid b then submit_call host (Call_submit_ethereum_price price) st2 else (Err HttpFetchingError, st2)
       | (Err e, st2) \<Rightarrow> (Err e, st2) | (Panic, st2) \<Rightarrow> (Panic, st2))" for body st1
    by (auto simp: send_prog_def run_submit Let_def split: prod.split outcome.split)
  show ?thesis
  proof (cases "json_body api (serialize_estimate_gas_request (gas_request ?d f t))")
    case (Ok body)
    then have g: "get_estimated_gas api host ?d f t st = exchange host (json_request HTTP_ETHEREUM_HOST body) st"
      by (simp add: get_estimated_gas_def json_request_def)
    show ?thesis
      by (auto simp: report_prog_def v Ok submt_price_eq g estimated_prog_def send json_request_def [symmetric] Let_def
          split: prod.split outcome.split option.split)
  next
    case (Err e)
    then show ?thesis by (simp add: report_prog_def v submt_price_eq get_estimated_gas_def)
  next
    case Panic
    then show ?thesis by (simp add: report_prog_def v submt_price_eq get_estimated_gas_def)
  qed
qed

lemma run_load:
  "run_prog host (load_prog k api h f t) st =
     run_prog host (report_prog api h f t (stored_price k (os_storage st))) st"
  by (simp add: load_prog_def price_of_def stored_price_def)

lemma run_fetch:
  "run_prog host (fetch_prog k api h f t) st =
     (case fetch_n_parse api host st of
        (Ok c, st1) \<Rightarrow> run_prog host (load_prog k api h f t)
          (record_effect LockReleased (record_effect (Stored INFO_KEY)
             (st1\<lparr>os_storage := (os_storage st1)(INFO_KEY \<mapsto> encode_light_client k c),
                  os_world := lock_release host LOCK_KEY (os_world st1)\<rparr>)))
      | (Err e, st1) \<Rightarrow> (Err e, record_effect LockReleased (st1\<lparr>os_world := lock_release host LOCK_KEY (os_world st1)\<rparr>))
      | (Panic, st1) \<Rightarrow> (Panic, st1))"
proof -
  have "fetch_from_remote host st = exchange host ticker_request st"
    by (simp add: fetch_from_remote_def ticker_request_def)
  then show ?thesis
    by (auto simp: fetch_prog_def fetch_n_parse_eq fetched_client_def record_effect_def Let_def
        split: prod.split outcome.split)
qed

lemma run_worker_prog: "run_prog host (worker_prog k api h f t) st = update_ethereum_price_worker k api host h f t st"
proof -
  obtain locked w where l: "lock_try host LOCK_KEY LOCK_BLOCK_EXPIRATION LOCK_TIMEOUT_EXPIRATION (os_world st) = (locked, w)"
    by (rule prod.exhaust)
  show ?thesis
  proof (cases locked)
    case False
    then show ?thesis
      by (simp add: worker_prog_def l run_load run_report worker_eq refresh_busy [of host st w] Let_def split: prod.split outcome.split)
  next
    case True
    then show ?thesis
      by (auto simp: worker_prog_def l run_fetch run_load run_report worker_eq refresh_price_def record_effect_def Let_def
          split: prod.split outcome.split)
  qed
qed

section \<open>Interleaving\<close>

text \<open>
  The state of a node with many workers: their programs, the shared storage, who holds the lock, and the
  log of the actions with their answers.
\<close>

record conc =
  co_progs :: "prog list"
  co_storage :: "bytes \<rightharpoonup> bytes"
  co_holder :: "nat option"
  co_log :: "(action \<times> answer) list"

text \<open>
  What one action answers and does: a lock that is held is not granted; the network and the transaction pool answer what they like.
\<close>

inductive act_step :: "nat \<Rightarrow> action \<Rightarrow> conc \<Rightarrow> answer \<Rightarrow> conc \<Rightarrow> bool" where
  grant: "co_holder s = None \<Longrightarrow> act_step i TryLock s (Granted True) (s\<lparr>co_holder := Some i\<rparr>)"
| refuse: "co_holder s \<noteq> None \<Longrightarrow> act_step i TryLock s (Granted False) s"
| release: "act_step i Unlock s Done (s\<lparr>co_holder := None\<rparr>)"
| ask: "r \<noteq> Panic \<Longrightarrow> act_step i (Ask q) s (Body r) s"
| store: "act_step i (Store key v) s Done (s\<lparr>co_storage := (co_storage s)(key \<mapsto> v)\<rparr>)"
| load: "act_step i (Load key) s (Loaded (co_storage s key)) s"
| submit: "act_step i (Submit c) s (Accepted b) s"

text \<open>
  A step of the workers: one of them does its next action, or, where \<open>expiry\<close> is allowed, the lock expires under its holder.
  A step of the node: a new worker starts, the import of a block writes other keys of the storage, or the workers step.
\<close>

inductive work_step :: "bool \<Rightarrow> conc \<Rightarrow> conc \<Rightarrow> bool" for expiry :: bool where
  action: "i < length (co_progs s) \<Longrightarrow> co_progs s ! i = Act a p \<Longrightarrow> act_step i a s x s' \<Longrightarrow>
    work_step expiry s (s'\<lparr>co_progs := (co_progs s)[i := p x], co_log := co_log s @ [(a, x)]\<rparr>)"
| expire: "expiry \<Longrightarrow> work_step expiry s (s\<lparr>co_holder := None\<rparr>)"

inductive conc_step :: "bool \<Rightarrow> 'bn client_codec \<Rightarrow> 'd json_api \<Rightarrow> conc \<Rightarrow> conc \<Rightarrow> bool"
  for expiry :: bool and k :: "'bn client_codec" and api :: "'d json_api" where
  spawn: "conc_step expiry k api s (s\<lparr>co_progs := co_progs s @ [worker_prog k api h f t]\<rparr>)"
| index: "m INFO_KEY = None \<Longrightarrow> conc_step expiry k api s (s\<lparr>co_storage := co_storage s ++ m\<rparr>)"
| work: "work_step expiry s s' \<Longrightarrow> conc_step expiry k api s s'"

inductive_cases act_stepE: "act_step i a s x s'"
inductive_cases work_stepE: "work_step expiry s s'"
inductive_cases conc_stepE: "conc_step expiry k api s s'"

definition conc_start :: "(bytes \<rightharpoonup> bytes) \<Rightarrow> conc" where
  "conc_start storage = \<lparr>co_progs = [], co_storage = storage, co_holder = None, co_log = []\<rparr>"

inductive conc_reachable :: "bool \<Rightarrow> 'bn client_codec \<Rightarrow> 'd json_api \<Rightarrow> conc \<Rightarrow> bool"
  for expiry :: bool and k :: "'bn client_codec" and api :: "'d json_api" where
  start: "storage INFO_KEY = None \<Longrightarrow> conc_reachable expiry k api (conc_start storage)"
| step: "conc_reachable expiry k api s \<Longrightarrow> conc_step expiry k api s s' \<Longrightarrow> conc_reachable expiry k api s'"

section \<open>The lock discipline\<close>

text \<open>
  A program that holds the lock or not keeps to the discipline: it takes the lock only without it, gives it back and writes only
  with it, and does not end with it.
\<close>

primrec disciplined :: "prog \<Rightarrow> bool \<Rightarrow> bool" where
  "disciplined (Return r) = (\<lambda>held. \<not> held)"
| "disciplined (Act a p) = (\<lambda>held. case a of
     TryLock \<Rightarrow> \<not> held \<and> disciplined (p (Granted True)) True \<and> disciplined (p (Granted False)) False
   | Unlock \<Rightarrow> held \<and> disciplined (p Done) False
   | Store key v \<Rightarrow> held \<and> disciplined (p Done) True
   | Ask q \<Rightarrow> (\<forall>r. r \<noteq> Panic \<longrightarrow> disciplined (p (Body r)) held)
   | Load key \<Rightarrow> (\<forall>v. disciplined (p (Loaded v)) held)
   | Submit c \<Rightarrow> (\<forall>b. disciplined (p (Accepted b)) held))"

lemma disciplined_report: "disciplined (report_prog api h f t price) False"
  by (auto simp: report_prog_def estimated_prog_def send_prog_def submit_prog_def Let_def
      split: option.split outcome.split)

lemma fetched_client_no_panic: "r \<noteq> Panic \<Longrightarrow> fetched_client api r \<noteq> Panic"
  by (cases r) (auto simp: fetched_client_def obind_Panic_iff)

lemma disciplined_load: "disciplined (load_prog k api h f t) False"
  by (simp add: load_prog_def disciplined_report)

lemma disciplined_worker: "disciplined (worker_prog k api h f t) False"
  using fetched_client_no_panic [of _ api]
  by (auto simp: worker_prog_def fetch_prog_def disciplined_load split: outcome.split)

definition lock_inv :: "conc \<Rightarrow> bool" where
  "lock_inv s \<longleftrightarrow> (\<forall>i < length (co_progs s). disciplined (co_progs s ! i) (co_holder s = Some i)) \<and>
     (\<forall>i. co_holder s = Some i \<longrightarrow> i < length (co_progs s))"

lemma lock_inv_action:
  assumes inv: "lock_inv s" and i: "i < length (co_progs s)" "co_progs s ! i = Act a p" and a: "act_step i a s x s'"
  shows "lock_inv (s'\<lparr>co_progs := (co_progs s)[i := p x], co_log := l\<rparr>)"
proof -
  from inv i have d: "disciplined (Act a p) (co_holder s = Some i)" by (metis lock_inv_def)
  from a show ?thesis
    by (rule act_stepE) (use inv i(1) d in \<open>auto simp: lock_inv_def nth_list_update\<close>)
qed

lemma lock_inv_spawn: "lock_inv s \<Longrightarrow> lock_inv (s\<lparr>co_progs := co_progs s @ [worker_prog k api h f t]\<rparr>)"
proof -
  assume s: "lock_inv s"
  then have "co_holder s \<noteq> Some (length (co_progs s))" by (auto simp: lock_inv_def)
  with s show ?thesis by (auto simp: lock_inv_def nth_append disciplined_worker less_Suc_eq)
qed

lemma conc_reachable_lock:
  assumes "conc_reachable False k api s"
  shows "lock_inv s"
  using assms
proof (induction rule: conc_reachable.induct)
  case (start storage)
  then show ?case by (simp add: lock_inv_def conc_start_def)
next
  case (step s s')
  from step.hyps(2) show ?case
  proof (rule conc_stepE)
    fix m assume "s' = s\<lparr>co_storage := co_storage s ++ m\<rparr>"
    with step.IH show ?case by (simp add: lock_inv_def)
  next
    assume "work_step False s s'"
    then show ?case by (rule work_stepE) (use step.IH in \<open>auto intro: lock_inv_action\<close>)
  qed (use step.IH in \<open>auto intro: lock_inv_spawn\<close>)
qed

text \<open>A program in the section that the lock guards: before the answer of the exchange, the write, or the release.\<close>

definition guarded :: "'bn client_codec \<Rightarrow> 'd json_api \<Rightarrow> prog \<Rightarrow> bool" where
  "guarded k api p \<longleftrightarrow> (\<exists>h f t. p = fetch_prog k api h f t) \<or> (\<exists>key v q. p = Act (Store key v) q) \<or> (\<exists>q. p = Act Unlock q)"

lemma guarded_intros:
  "guarded k api (fetch_prog k api h f t)" "guarded k api (Act (Store key v) q)" "guarded k api (Act Unlock q)"
  unfolding guarded_def by blast+

lemma fetch_needs_lock: "disciplined (fetch_prog k api h f t) held \<Longrightarrow> held"
proof -
  assume "disciplined (fetch_prog k api h f t) held"
  then have "disciplined (case fetched_client api (Err HttpFetchingError) of
      Ok c \<Rightarrow> Act (Store INFO_KEY (encode_light_client k c)) (\<lambda>_. Act Unlock (\<lambda>_. load_prog k api h f t))
    | Err e \<Rightarrow> Act Unlock (\<lambda>_. Return (Err e)) | Panic \<Rightarrow> Return Panic) held"
    by (auto simp: fetch_prog_def dest: spec [of _ "Err HttpFetchingError"])
  then show held by (simp add: fetched_client_def)
qed

lemma guarded_needs_lock: "guarded k api p \<Longrightarrow> disciplined p held \<Longrightarrow> held"
  by (auto simp: guarded_def dest: fetch_needs_lock)

section \<open>Schedules\<close>

text \<open>The reachable states with the schedule that leads there: which worker did which action, with what answer.\<close>

inductive sched :: "bool \<Rightarrow> 'bn client_codec \<Rightarrow> 'd json_api \<Rightarrow> (nat \<times> action \<times> answer) list \<Rightarrow> conc \<Rightarrow> bool"
  for expiry :: bool and k :: "'bn client_codec" and api :: "'d json_api" where
  begins: "storage INFO_KEY = None \<Longrightarrow> sched expiry k api [] (conc_start storage)"
| new_worker: "sched expiry k api l s \<Longrightarrow> sched expiry k api l (s\<lparr>co_progs := co_progs s @ [worker_prog k api h f t]\<rparr>)"
| new_block: "sched expiry k api l s \<Longrightarrow> m INFO_KEY = None \<Longrightarrow> sched expiry k api l (s\<lparr>co_storage := co_storage s ++ m\<rparr>)"
| lapse: "sched expiry k api l s \<Longrightarrow> expiry \<Longrightarrow> sched expiry k api l (s\<lparr>co_holder := None\<rparr>)"
| turn: "sched expiry k api l s \<Longrightarrow> i < length (co_progs s) \<Longrightarrow> co_progs s ! i = Act a p \<Longrightarrow> act_step i a s x s' \<Longrightarrow>
    sched expiry k api (l @ [(i, a, x)]) (s'\<lparr>co_progs := (co_progs s)[i := p x], co_log := co_log s @ [(a, x)]\<rparr>)"

lemma act_step_progs: "act_step i a s x s' \<Longrightarrow> co_progs s' = co_progs s \<and> co_log s' = co_log s"
  by (auto elim!: act_stepE)

lemma sched_log: "sched expiry k api l s \<Longrightarrow> co_log s = map snd l"
  by (induction rule: sched.induct) (auto simp: conc_start_def)

text \<open>The schedules are those of the reachable states.\<close>

lemma reachable_sched: "(\<exists>l. sched expiry k api l s) \<longleftrightarrow> conc_reachable expiry k api s"
proof
  assume "\<exists>l. sched expiry k api l s"
  then obtain l where "sched expiry k api l s" ..
  then show "conc_reachable expiry k api s"
    by (induction rule: sched.induct)
      (auto intro: conc_reachable.start conc_reachable.step [OF _ spawn] conc_reachable.step [OF _ index]
        conc_reachable.step [OF _ work [OF expire]] conc_reachable.step [OF _ work [OF action]])
next
  assume "conc_reachable expiry k api s"
  then show "\<exists>l. sched expiry k api l s"
  proof (induction rule: conc_reachable.induct)
    case (step s s')
    then show ?case by (auto elim!: conc_stepE work_stepE intro: sched.intros)
  qed (auto intro: begins)
qed

text \<open>The actions of one worker in a schedule, and the ways through a program.\<close>

definition own_actions :: "nat \<Rightarrow> (nat \<times> action \<times> answer) list \<Rightarrow> (action \<times> answer) list" where
  "own_actions i l = map snd (filter (\<lambda>(j, e). j = i) l)"

inductive path :: "prog \<Rightarrow> (action \<times> answer) list \<Rightarrow> prog \<Rightarrow> bool" where
  here: "path p [] p"
| on: "path p l (Act a q) \<Longrightarrow> path p (l @ [(a, x)]) (q x)"

lemma sched_path:
  assumes "sched expiry k api l s" "i < length (co_progs s)"
  shows "\<exists>h f t. path (worker_prog k api h f t) (own_actions i l) (co_progs s ! i)"
  using assms
proof (induction arbitrary: i rule: sched.induct)
  case (new_worker l s h f t)
  have "own_actions (length (co_progs s)) l = []"
  proof -
    from new_worker.hyps have "\<forall>(j, e) \<in> set l. j < length (co_progs s)"
      by (induction rule: sched.induct) (auto dest: act_step_progs)
    then show ?thesis by (auto simp: own_actions_def filter_empty_conv)
  qed
  then have "path (worker_prog k api h f t) (own_actions (length (co_progs s)) l) (worker_prog k api h f t)" by (simp add: here)
  with new_worker.IH [of i] new_worker.prems show ?case by (cases "i = length (co_progs s)") (auto simp: nth_append)
next
  case (turn l s j a p x s')
  show ?case
  proof (cases "i = j")
    case True
    from turn.IH [OF turn.hyps(2)] obtain h f t where "path (worker_prog k api h f t) (own_actions j l) (Act a p)"
      by (auto simp: turn.hyps(3))
    from on [OF this, of x] True turn.hyps(2) show ?thesis by (auto simp: own_actions_def)
  next
    case False
    with turn show ?thesis by (auto simp: own_actions_def)
  qed
qed (auto simp: conc_start_def)

section \<open>Workers come to an end\<close>

abbreviation is_request :: "action \<times> answer \<Rightarrow> bool" where
  "is_request e \<equiv> (\<exists>q. fst e = Ask q)"

abbreviation is_submission :: "action \<times> answer \<Rightarrow> bool" where
  "is_submission e \<equiv> (\<exists>c. fst e = Submit c)"

abbreviation is_attempt :: "action \<times> answer \<Rightarrow> bool" where
  "is_attempt e \<equiv> fst e = TryLock"

text \<open>
  A program that does at most so many actions, requests and attempts at the lock, whatever the answers are, and returns right
  after a submission.
\<close>

primrec budget :: "prog \<Rightarrow> nat \<Rightarrow> nat \<Rightarrow> nat \<Rightarrow> bool" where
  "budget (Return r) = (\<lambda>n m j. True)"
| "budget (Act a p) = (\<lambda>n m j. 0 < n \<and> ((\<exists>q. a = Ask q) \<longrightarrow> 0 < m) \<and> (a = TryLock \<longrightarrow> 0 < j) \<and>
     (\<forall>x. ((\<exists>c. a = Submit c) \<longrightarrow> (\<exists>r. p x = Return r)) \<and>
        budget (p x) (n - 1) (if \<exists>q. a = Ask q then m - 1 else m) (if a = TryLock then j - 1 else j)))"

lemma budget_worker: "budget (worker_prog k api h f t) 8 3 1"
proof -
  have send: "budget (send_prog h price body) (Suc (Suc n)) (Suc m) j" for price body n m j
    by (auto simp: send_prog_def submit_prog_def split: answer.split outcome.split)
  have report: "budget (report_prog api h f t price) (Suc (Suc (Suc n))) (Suc (Suc m)) j" for price n m j
    by (auto simp: report_prog_def estimated_prog_def send Let_def split: answer.split outcome.split option.split)
  have "budget (load_prog k api h f t) (Suc (Suc (Suc (Suc n)))) (Suc (Suc m)) j" for n m j
    by (auto simp: load_prog_def report split: answer.split)
  then show ?thesis
    by (auto simp: worker_prog_def fetch_prog_def numeral_eq_Suc split: answer.split outcome.split)
qed

lemma path_budget:
  assumes "path p l q" "budget p n m j"
  shows "\<exists>n' m' j'. budget q n' m' j' \<and> length l + n' \<le> n \<and> length (filter is_request l) + m' \<le> m \<and>
    length (filter is_attempt l) + j' \<le> j \<and> (\<forall>pre e post. l = pre @ e # post \<and> is_submission e \<longrightarrow> post = [] \<and> (\<exists>r. q = Return r))"
  using assms
proof (induction rule: path.induct)
  case (here p)
  then show ?case by (intro exI [of _ n] exI [of _ m] exI [of _ j]) simp
next
  case (on p l a q x)
  then obtain n' m' j' where b: "budget (Act a q) n' m' j'" "length l + n' \<le> n" "length (filter is_request l) + m' \<le> m"
    "length (filter is_attempt l) + j' \<le> j" "\<forall>e \<in> set l. \<not> is_submission e"
    by (metis prog.distinct(1) split_list)
  from b(1) have c: "0 < n'" "(\<exists>q. a = Ask q) \<Longrightarrow> 0 < m'" "a = TryLock \<Longrightarrow> 0 < j'"
    "(\<exists>c. a = Submit c) \<Longrightarrow> \<exists>r. q x = Return r"
    "budget (q x) (n' - 1) (if \<exists>q. a = Ask q then m' - 1 else m') (if a = TryLock then j' - 1 else j')" by auto
  have "post = [] \<and> (\<exists>r. q x = Return r)" if s: "l @ [(a, x)] = pre @ e # post" "is_submission e" for pre e post
  proof (cases post rule: rev_cases)
    case Nil
    with s c(4) show ?thesis by auto
  next
    case (snoc ys y)
    with s(1) have "e \<in> set l" by (metis append_assoc append_Cons butlast_snoc in_set_conv_decomp)
    with b(5) s(2) show ?thesis by blast
  qed
  moreover have "length (l @ [(a, x)]) + (n' - 1) \<le> n" "length (filter is_attempt (l @ [(a, x)])) + (if a = TryLock then j' - 1 else j') \<le> j"
    "length (filter is_request (l @ [(a, x)])) + (if \<exists>q. a = Ask q then m' - 1 else m') \<le> m"
    using b(2-4) c(1-3) by auto
  ultimately show ?case using c(5) by blast
qed

section \<open>Where a price comes from\<close>

definition fetched_from :: "'d json_api \<Rightarrow> http_request \<Rightarrow> (bytes, client_error) outcome \<Rightarrow> light_client set" where
  "fetched_from api q r = (if q = ticker_request then {c. fetched_client api r = Ok c} else {})"

fun fetched_by :: "'d json_api \<Rightarrow> action \<times> answer \<Rightarrow> light_client set" where
  "fetched_by api (Ask q, Body r) = fetched_from api q r"
| "fetched_by api _ = {}"

definition fetched_log :: "'d json_api \<Rightarrow> (action \<times> answer) list \<Rightarrow> light_client set" where
  "fetched_log api l = (\<Union>e \<in> set l. fetched_by api e)"

abbreviation prices :: "light_client set \<Rightarrow> bytes set" where
  "prices F \<equiv> insert (lit ''0'') (lc_price ` F)"

abbreviation records :: "'bn client_codec \<Rightarrow> light_client set \<Rightarrow> bytes option set" where
  "records k F \<equiv> insert None ((\<lambda>c. Some (encode_light_client k c)) ` F)"

text \<open>
  Given the price records fetched so far, which other workers may add to, a program stores and submits only what was fetched.
\<close>

primrec honest :: "'bn client_codec \<Rightarrow> 'd json_api \<Rightarrow> prog \<Rightarrow> light_client set \<Rightarrow> bool" where
  "honest k api (Return r) = (\<lambda>F. True)"
| "honest k api (Act a p) = (\<lambda>F. \<forall>F'. F \<subseteq> F' \<longrightarrow> (case a of
     TryLock \<Rightarrow> (\<forall>b. honest k api (p (Granted b)) F')
   | Unlock \<Rightarrow> honest k api (p Done) F'
   | Store key v \<Rightarrow> Some v \<in> records k F' \<and> honest k api (p Done) F'
   | Ask q \<Rightarrow> (\<forall>r. r \<noteq> Panic \<longrightarrow> honest k api (p (Body r)) (F' \<union> fetched_from api q r))
   | Load key \<Rightarrow> (\<forall>v. (key = INFO_KEY \<longrightarrow> v \<in> records k F') \<longrightarrow> honest k api (p (Loaded v)) F')
   | Submit c \<Rightarrow> c \<in> Call_submit_ethereum_price ` prices F' \<and> (\<forall>b. honest k api (p (Accepted b)) F')))"

lemma honest_mono: "honest k api p F \<Longrightarrow> F \<subseteq> G \<Longrightarrow> honest k api p G"
proof (cases p)
  case (Act a q)
  assume "honest k api p F" "F \<subseteq> G"
  then show ?thesis unfolding Act honest.simps by (meson order_trans)
qed simp

lemma prices_mono: "price \<in> prices F \<Longrightarrow> F \<subseteq> G \<Longrightarrow> price \<in> prices G"
  by blast

lemma honest_submit: "price \<in> prices F \<Longrightarrow> honest k api (submit_prog price) F"
  unfolding submit_prog_def by (simp del: insert_iff) (blast intro: prices_mono)

lemma honest_send: "price \<in> prices F \<Longrightarrow> honest k api (send_prog h price body) F"
  unfolding send_prog_def
  by (simp del: insert_iff split: outcome.split) (meson Un_upper1 honest_submit order_trans prices_mono)

lemma honest_report: "price \<in> prices F \<Longrightarrow> honest k api (report_prog api h f t price) F"
  unfolding report_prog_def estimated_prog_def
  by (simp add: Let_def del: insert_iff split: option.split outcome.split)
    (meson Un_upper1 honest_send order_trans prices_mono)

lemma honest_load: "codec_roundtrip k \<Longrightarrow> honest k api (load_prog k api h f t) F"
  by (auto simp: load_prog_def price_of_def codec_roundtrip_def intro!: honest_report)

lemma honest_worker: "codec_roundtrip k \<Longrightarrow> honest k api (worker_prog k api h f t) F"
  by (auto simp: worker_prog_def fetch_prog_def honest_load fetched_from_def split: outcome.split)

lemma fetched_log_snoc: "fetched_log api (l @ [e]) = fetched_log api l \<union> fetched_by api e"
  by (auto simp: fetched_log_def)

text \<open>
  Every program is honest about what was fetched so far, the stored record was fetched, and so was every price submitted.
\<close>

definition price_inv :: "'bn client_codec \<Rightarrow> 'd json_api \<Rightarrow> conc \<Rightarrow> bool" where
  "price_inv k api s \<longleftrightarrow>
     (\<forall>p \<in> set (co_progs s). honest k api p (fetched_log api (co_log s))) \<and>
     co_storage s INFO_KEY \<in> records k (fetched_log api (co_log s)) \<and>
     (\<forall>c x. (Submit c, x) \<in> set (co_log s) \<longrightarrow> c \<in> Call_submit_ethereum_price ` prices (fetched_log api (co_log s)))"

lemma fetched_log_asked:
  "c \<in> fetched_log api l \<Longrightarrow> \<exists>r. (Ask ticker_request, Body r) \<in> set l \<and> fetched_client api r = Ok c"
proof -
  assume "c \<in> fetched_log api l"
  then obtain a x where "(a, x) \<in> set l" "c \<in> fetched_by api (a, x)" by (auto simp: fetched_log_def)
  then show ?thesis by (cases "(api, a, x)" rule: fetched_by.cases) (auto simp: fetched_from_def split: if_splits)
qed

lemma honest_answer:
  assumes a: "act_step i a s x s'" and h: "honest k api (Act a p) F"
    and st: "co_storage s INFO_KEY \<in> records k F"
  shows "honest k api (p x) (F \<union> fetched_by api (a, x))" "co_storage s' INFO_KEY \<in> records k F"
    "\<And>c. a = Submit c \<Longrightarrow> c \<in> Call_submit_ethereum_price ` prices F"
proof -
  from h have h': "case a of
     TryLock \<Rightarrow> (\<forall>b. honest k api (p (Granted b)) F)
   | Unlock \<Rightarrow> honest k api (p Done) F
   | Store key v \<Rightarrow> Some v \<in> records k F \<and> honest k api (p Done) F
   | Ask q \<Rightarrow> (\<forall>r. r \<noteq> Panic \<longrightarrow> honest k api (p (Body r)) (F \<union> fetched_from api q r))
   | Load key \<Rightarrow> (\<forall>v. (key = INFO_KEY \<longrightarrow> v \<in> records k F) \<longrightarrow> honest k api (p (Loaded v)) F)
   | Submit c \<Rightarrow> c \<in> Call_submit_ethereum_price ` prices F \<and> (\<forall>b. honest k api (p (Accepted b)) F)"
    unfolding honest.simps by (rule mp [OF spec [of _ F]]) simp
  from a show "honest k api (p x) (F \<union> fetched_by api (a, x))"
    by (rule act_stepE) (use h' st in \<open>simp_all del: insert_iff\<close>)
  from a show "co_storage s' INFO_KEY \<in> records k F"
    by (rule act_stepE) (use h' st in \<open>simp_all del: insert_iff\<close>)
  show "c \<in> Call_submit_ethereum_price ` prices F" if "a = Submit c" for c
    using h' that by simp
qed

lemma price_inv_action:
  assumes inv: "price_inv k api s" and i: "i < length (co_progs s)" "co_progs s ! i = Act a p" and a: "act_step i a s x s'"
  shows "price_inv k api (s'\<lparr>co_progs := (co_progs s)[i := p x], co_log := co_log s @ [(a, x)]\<rparr>)"
proof -
  let ?F = "fetched_log api (co_log s)"
  let ?G = "?F \<union> fetched_by api (a, x)"
  from inv i have h: "honest k api (Act a p) ?F" unfolding price_inv_def by (metis nth_mem)
  note ans = honest_answer [OF a h]
  have st: "co_storage s INFO_KEY \<in> records k ?F"
    and calls: "\<And>c y. (Submit c, y) \<in> set (co_log s) \<Longrightarrow> c \<in> Call_submit_ethereum_price ` prices ?F"
    and progs: "\<And>q. q \<in> set (co_progs s) \<Longrightarrow> honest k api q ?F"
    using inv unfolding price_inv_def by blast+
  have "honest k api q ?G" if "q \<in> set ((co_progs s)[i := p x])" for q
    using that ans(1) [OF st] progs honest_mono [of k api q ?F ?G] set_update_subset_insert [of "co_progs s" i "p x"] by blast
  moreover have "co_storage s' INFO_KEY \<in> records k ?G" using ans(2) [OF st] by blast
  moreover have "c \<in> Call_submit_ethereum_price ` prices ?G" if "(Submit c, y) \<in> set (co_log s @ [(a, x)])" for c y
  proof -
    from that calls ans(3) [OF st] have "c \<in> Call_submit_ethereum_price ` prices ?F" by auto
    then show ?thesis by blast
  qed
  ultimately show ?thesis by (simp add: price_inv_def fetched_log_snoc del: insert_iff set_append)
qed

lemma conc_reachable_prices:
  assumes "conc_reachable expiry k api s" and k: "codec_roundtrip k"
  shows "price_inv k api s"
  using assms(1)
proof (induction rule: conc_reachable.induct)
  case (start storage)
  then show ?case by (simp add: price_inv_def conc_start_def)
next
  case (step s s')
  from step.hyps(2) show ?case
  proof cases
    case (spawn h f t)
    with step.IH show ?thesis by (auto simp: price_inv_def honest_worker [OF k])
  next
    case (index m)
    with step.IH show ?thesis by (simp add: price_inv_def map_add_def)
  next
    case work
    then show ?thesis
      by (rule work_stepE) (use step.IH price_inv_action [OF step.IH] in \<open>auto simp: price_inv_def\<close>)
  qed
qed

section \<open>Properties\<close>

text \<open>
  C18. However many workers run and however they are scheduled, even when locks expire under their holders: each of them does at most eight actions, of which at most
  three are requests and at most one is an attempt at the lock; a submission is its last action; and a worker that has done eight actions has
  returned. So no host and no schedule keeps a worker going, and nothing is retried.
\<close>

theorem interleaved_workers_terminate:
  assumes "sched expiry k api l s" "i < length (co_progs s)"
  shows "let own = own_actions i l in
    length own \<le> 8 \<and> length (filter is_request own) \<le> 3 \<and> length (filter is_attempt own) \<le> 1 \<and>
    (\<forall>pre e post. own = pre @ e # post \<and> is_submission e \<longrightarrow> post = [] \<and> (\<exists>r. co_progs s ! i = Return r)) \<and>
    (length own = 8 \<longrightarrow> (\<exists>r. co_progs s ! i = Return r))"
proof -
  from sched_path [OF assms] obtain h f t where "path (worker_prog k api h f t) (own_actions i l) (co_progs s ! i)" by blast
  from path_budget [OF this budget_worker] obtain n m j where b: "budget (co_progs s ! i) n m j" "length (own_actions i l) + n \<le> 8"
    "length (filter is_request (own_actions i l)) + m \<le> 3" "length (filter is_attempt (own_actions i l)) + j \<le> 1"
    "\<forall>pre e post. own_actions i l = pre @ e # post \<and> is_submission e \<longrightarrow> post = [] \<and> (\<exists>r. co_progs s ! i = Return r)" by blast
  have "\<exists>r. co_progs s ! i = Return r" if "length (own_actions i l) = 8"
    using b(1,2) that by (cases "co_progs s ! i") auto
  with b show ?thesis by (auto simp: Let_def)
qed

text \<open>Two workers, of which the first has taken the lock and the second was refused.\<close>

theorem interleaved_workers_terminate_witness:
  "\<exists>s. sched False marked_codec echo_json [(0, TryLock, Granted True), (1, TryLock, Granted False)] s \<and>
     length (own_actions 1 [(0, TryLock, Granted True), (1, TryLock, Granted False)]) = 1 \<and>
     length (filter is_attempt (own_actions 1 [(0, TryLock, Granted True), (1, TryLock, Granted False)])) \<le> 1 \<and> length (co_progs s) = 2"
proof -
  let ?w = "worker_prog marked_codec echo_json [104] [102] [116]"
  let ?s = "conc_start Map.empty\<lparr>co_progs := [?w, ?w]\<rparr>"
  have "sched False marked_codec echo_json [] ?s"
    using new_worker [OF new_worker [OF begins [of Map.empty False marked_codec echo_json], of "[104]" "[102]" "[116]"], of "[104]" "[102]" "[116]"]
    by (simp add: conc_start_def)
  from turn [OF this, of 0 TryLock _ "Granted True", OF _ _ grant]
  have "sched False marked_codec echo_json [(0, TryLock, Granted True)]
      (?s\<lparr>co_progs := [fetch_prog marked_codec echo_json [104] [102] [116], ?w], co_holder := Some 0, co_log := [(TryLock, Granted True)]\<rparr>)"
    by (simp add: worker_prog_def conc_start_def)
  from turn [OF this, of 1 TryLock _ "Granted False", OF _ _ refuse] obtain s where
    s: "sched False marked_codec echo_json [(0, TryLock, Granted True), (1, TryLock, Granted False)] s" "length (co_progs s) = 2"
    by (auto simp: worker_prog_def conc_start_def)
  from interleaved_workers_terminate [OF s(1), of 1] s show ?thesis by (auto simp: own_actions_def Let_def)
qed

text \<open>
  C15. However the workers of many blocks are interleaved, as long as no lock expires under its holder (its
  deadline is a second past that of the request it guards): a worker between taking the lock and giving it back is
  the holder of the lock, so at most one worker is there; and when all workers have returned the lock is free.
\<close>

theorem workers_exclude_each_other:
  assumes "conc_reachable False k api s"
  shows "(\<forall>i < length (co_progs s). guarded k api (co_progs s ! i) \<longrightarrow> co_holder s = Some i) \<and>
    (\<forall>i < length (co_progs s). \<forall>j < length (co_progs s).
       guarded k api (co_progs s ! i) \<longrightarrow> guarded k api (co_progs s ! j) \<longrightarrow> i = j) \<and>
    ((\<forall>p \<in> set (co_progs s). \<exists>r. p = Return r) \<longrightarrow> co_holder s = None)"
proof -
  have inv: "lock_inv s" using assms by (rule conc_reachable_lock)
  then have holds: "co_holder s = Some i" if "i < length (co_progs s)" "guarded k api (co_progs s ! i)" for i
    using that guarded_needs_lock unfolding lock_inv_def by blast
  have "i = j" if "i < length (co_progs s)" "j < length (co_progs s)" "guarded k api (co_progs s ! i)" "guarded k api (co_progs s ! j)" for i j
    using holds [OF that(1,3)] holds [OF that(2,4)] by simp
  moreover have "co_holder s = None" if "\<forall>p \<in> set (co_progs s). \<exists>r. p = Return r"
    using inv that unfolding lock_inv_def by (metis disciplined.simps(1) not_None_eq nth_mem)
  ultimately show ?thesis using holds by blast
qed

theorem workers_exclude_each_other_witness:
  "conc_reachable False marked_codec echo_json
     \<lparr>co_progs = [fetch_prog marked_codec echo_json [104] [102] [116], worker_prog marked_codec echo_json [104] [102] [116]],
       co_storage = Map.empty, co_holder = Some 0, co_log = [(TryLock, Granted True)]\<rparr> \<and>
   guarded marked_codec echo_json (fetch_prog marked_codec echo_json [104] [102] [116]) \<and>
   \<not> guarded marked_codec echo_json (worker_prog marked_codec echo_json [104] [102] [116])"
proof -
  let ?w = "worker_prog marked_codec echo_json [104] [102] [116]" and ?f = "fetch_prog marked_codec echo_json [104] [102] [116]"
  let ?s = "\<lparr>co_progs = [?f, ?w], co_storage = Map.empty, co_holder = Some 0, co_log = [(TryLock, Granted True)]\<rparr>"
  have 0: "conc_reachable False marked_codec echo_json (conc_start Map.empty)" by (rule conc_reachable.start) simp
  have 2: "conc_reachable False marked_codec echo_json (conc_start Map.empty\<lparr>co_progs := [?w, ?w]\<rparr>)"
    using conc_reachable.step [OF conc_reachable.step [OF 0 spawn] spawn] by (simp add: conc_start_def)
  have r: "conc_reachable False marked_codec echo_json ?s"
    using conc_reachable.step [OF 2 work [OF action [of 0 _ TryLock _ "Granted True", OF _ _ grant]]]
    by (simp add: conc_start_def worker_prog_def)
  have g: "guarded marked_codec echo_json ?f" by (rule guarded_intros)
  have "\<not> guarded marked_codec echo_json ?w"
    using workers_exclude_each_other [OF r] by force
  with r g show ?thesis by blast
qed

text \<open>
  However the workers of many blocks are interleaved, and even when locks expire under their holders: every price
  that a worker submits is the text 0, or the price of a record that the exchange answered to some worker of the node before.
\<close>

lemma submitted_prices_were_fetched:
  assumes "conc_reachable expiry k api s" "codec_roundtrip k" "(Submit c, x) \<in> set (co_log s)"
  shows "c = Call_submit_ethereum_price (lit ''0'') \<or>
    (\<exists>r d. (Ask ticker_request, Body r) \<in> set (co_log s) \<and> fetched_client api r = Ok d \<and>
       c = Call_submit_ethereum_price (lc_price d))"
proof -
  have "c \<in> Call_submit_ethereum_price ` prices (fetched_log api (co_log s))"
    using conc_reachable_prices [OF assms(1,2)] assms(3) unfolding price_inv_def by blast
  then show ?thesis by (auto dest!: fetched_log_asked)
qed

lemma fetched_echo: "fetched_client echo_json (Ok [49]) = Ok \<lparr>lc_price = [49], lc_time = [49]\<rparr>"
  by (simp add: fetched_client_def light_client_from_str_def echo_json_def de_string_to_bytes_def)

end
