(* ===== verification/Client_Lock.thy ===== *)
theory Client_Lock
  imports Client_Concurrent
begin

text \<open>
  The lock of \<^verbatim>\<open>update_ethereum_price_worker\<close> (\<^verbatim>\<open>client/src/lib.rs\<close>) with its deadline. The interleaving of
  \<open>Client_Concurrent\<close> gets a clock and a block number; when a lock that was taken at some block and time has expired is decided by the library,
  from the two constants that the worker passes to it. How promptly a worker that holds the lock is scheduled, and how long it reads the body of a
  response, are arguments; the wait for a response ends by its own deadline.
\<close>

section \<open>Time\<close>

text \<open>
  \<^verbatim>\<open>BlockAndTime\<close>: whether a lock with the given numbers of blocks and milliseconds, taken at some block and time, has
  expired at another.
\<close>

type_synonym lock_expiry = "u32 \<Rightarrow> u64 \<Rightarrow> u32 \<times> nat \<Rightarrow> u32 \<times> nat \<Rightarrow> bool"

text \<open>A lock with a deadline in blocks and time does not expire before its time is over.\<close>

definition keeps_until_time :: "lock_expiry \<Rightarrow> bool" where
  "keeps_until_time expired \<longleftrightarrow> (\<forall>blocks ms b t b' t'. expired blocks ms (b, t) (b', t') \<longrightarrow> t + unat ms < t')"

record timed_state =
  ti_conc :: conc
  ti_now :: nat
  ti_block :: u32
  ti_taken :: "u32 \<times> nat"
  ti_ready :: "nat list"

text \<open>The number that the pallet gives to the lock: that of the current block.\<close>

definition current_block_number :: "timed_state \<Rightarrow> u32" where
  "current_block_number s = ti_block s"

definition lock_expired :: "lock_expiry \<Rightarrow> timed_state \<Rightarrow> bool" where
  "lock_expired expired s =
     expired LOCK_BLOCK_EXPIRATION LOCK_TIMEOUT_EXPIRATION (ti_taken s) (current_block_number s, ti_now s)"

text \<open>
  How long the next action of a prompt worker may take: everything the delay \<open>\<delta>\<close> of the host; a request its time-out and, since \<^verbatim>\<open>response.body().collect()\<close>
  has no deadline, the time \<open>\<beta>\<close> that reading the body takes.
\<close>

fun patience :: "nat \<Rightarrow> nat \<Rightarrow> prog \<Rightarrow> nat" where
  "patience \<beta> \<delta> (Act (Ask q) p) = unat FETCH_TIMEOUT_PERIOD + \<beta> + \<delta>"
| "patience \<beta> \<delta> _ = \<delta>"

text \<open>
  Time passes as long as the holder of the lock is not overdue; nothing is assumed about the other workers. An action notes its time, and
  taking the lock notes block and time. Blocks arrive at any time.
\<close>

inductive timed_step :: "lock_expiry \<Rightarrow> nat \<Rightarrow> nat \<Rightarrow> 'bn client_codec \<Rightarrow> 'd json_api \<Rightarrow> timed_state \<Rightarrow> timed_state \<Rightarrow> bool"
  for expired :: lock_expiry and \<beta> \<delta> :: nat and k :: "'bn client_codec" and api :: "'d json_api" where
  tick: "(\<And>i. co_holder (ti_conc s) = Some i \<Longrightarrow> now \<le> ti_ready s ! i + patience \<beta> \<delta> (co_progs (ti_conc s) ! i)) \<Longrightarrow> ti_now s \<le> now \<Longrightarrow>
    timed_step expired \<beta> \<delta> k api s (s\<lparr>ti_now := now\<rparr>)"
| block: "timed_step expired \<beta> \<delta> k api s (s\<lparr>ti_block := n\<rparr>)"
| starts: "timed_step expired \<beta> \<delta> k api s
    (s\<lparr>ti_conc := (ti_conc s)\<lparr>co_progs := co_progs (ti_conc s) @ [worker_prog k api h f t]\<rparr>, ti_ready := ti_ready s @ [ti_now s]\<rparr>)"
| writes: "m INFO_KEY = None \<Longrightarrow> timed_step expired \<beta> \<delta> k api s (s\<lparr>ti_conc := (ti_conc s)\<lparr>co_storage := co_storage (ti_conc s) ++ m\<rparr>\<rparr>)"
| acts: "i < length (co_progs (ti_conc s)) \<Longrightarrow> co_progs (ti_conc s) ! i = Act a p \<Longrightarrow> act_step i a (ti_conc s) x c \<Longrightarrow>
    timed_step expired \<beta> \<delta> k api s
      (s\<lparr>ti_conc := c\<lparr>co_progs := (co_progs (ti_conc s))[i := p x], co_log := co_log (ti_conc s) @ [(a, x)]\<rparr>,
         ti_taken := (if x = Granted True then (current_block_number s, ti_now s) else ti_taken s),
         ti_ready := (ti_ready s)[i := ti_now s]\<rparr>)"
| lapses: "lock_expired expired s \<Longrightarrow> timed_step expired \<beta> \<delta> k api s (s\<lparr>ti_conc := (ti_conc s)\<lparr>co_holder := None\<rparr>\<rparr>)"

inductive_cases timed_stepE: "timed_step expired \<beta> \<delta> k api s s'"

inductive timed_reachable :: "lock_expiry \<Rightarrow> nat \<Rightarrow> nat \<Rightarrow> 'bn client_codec \<Rightarrow> 'd json_api \<Rightarrow> timed_state \<Rightarrow> bool"
  for expired :: lock_expiry and \<beta> \<delta> :: nat and k :: "'bn client_codec" and api :: "'d json_api" where
  start: "storage INFO_KEY = None \<Longrightarrow> timed_reachable expired \<beta> \<delta> k api
    \<lparr>ti_conc = conc_start storage, ti_now = now, ti_block = n, ti_taken = l, ti_ready = []\<rparr>"
| step: "timed_reachable expired \<beta> \<delta> k api s \<Longrightarrow> timed_step expired \<beta> \<delta> k api s s' \<Longrightarrow> timed_reachable expired \<beta> \<delta> k api s'"

section \<open>A holder gives the lock back in time\<close>

text \<open>
  What remains of the time of the lock: a program without the lock may take it with the full time; one with the lock
  has time left for its next action, and gives it back before the time is used up.
\<close>

primrec timely :: "nat \<Rightarrow> nat \<Rightarrow> nat \<Rightarrow> prog \<Rightarrow> nat option \<Rightarrow> bool" where
  "timely \<beta> \<delta> L (Return r) = (\<lambda>left. left = None)"
| "timely \<beta> \<delta> L (Act a p) = (\<lambda>left. (\<forall>n. left = Some n \<longrightarrow> patience \<beta> \<delta> (Act a p) \<le> n) \<and>
     (let left' = map_option (\<lambda>n. n - patience \<beta> \<delta> (Act a p)) left in case a of
     TryLock \<Rightarrow> left = None \<and> timely \<beta> \<delta> L (p (Granted True)) (Some L) \<and> timely \<beta> \<delta> L (p (Granted False)) None
   | Unlock \<Rightarrow> left \<noteq> None \<and> timely \<beta> \<delta> L (p Done) None
   | Store key v \<Rightarrow> timely \<beta> \<delta> L (p Done) left'
   | Ask q \<Rightarrow> (\<forall>r. r \<noteq> Panic \<longrightarrow> timely \<beta> \<delta> L (p (Body r)) left')
   | Load key \<Rightarrow> (\<forall>v. timely \<beta> \<delta> L (p (Loaded v)) left')
   | Submit c \<Rightarrow> (\<forall>b. timely \<beta> \<delta> L (p (Accepted b)) left')))"

lemma timely_load: "timely \<beta> \<delta> L (load_prog k api h f t) None"
  by (auto simp: load_prog_def report_prog_def estimated_prog_def send_prog_def submit_prog_def Let_def
      split: option.split outcome.split)

lemma timely_worker:
  assumes "unat FETCH_TIMEOUT_PERIOD + \<beta> + 3 * \<delta> \<le> L"
  shows "timely \<beta> \<delta> L (worker_prog k api h f t) None"
  using assms fetched_client_no_panic [of _ api]
  by (auto simp: worker_prog_def fetch_prog_def timely_load Let_def split: outcome.split)

text \<open>A worker is on time: without the lock when it does not hold it, with enough time left and not overdue when it does.\<close>

definition on_time :: "nat \<Rightarrow> nat \<Rightarrow> timed_state \<Rightarrow> nat \<Rightarrow> bool" where
  "on_time \<beta> \<delta> s i \<longleftrightarrow> (let p = co_progs (ti_conc s) ! i; L = unat LOCK_TIMEOUT_EXPIRATION in
     if co_holder (ti_conc s) = Some i
     then \<exists>n. timely \<beta> \<delta> L p (Some n) \<and> ti_ready s ! i + n \<le> snd (ti_taken s) + L \<and> ti_now s \<le> ti_ready s ! i + patience \<beta> \<delta> p
     else timely \<beta> \<delta> L p None)"

definition time_inv :: "nat \<Rightarrow> nat \<Rightarrow> timed_state \<Rightarrow> bool" where
  "time_inv \<beta> \<delta> s \<longleftrightarrow> length (ti_ready s) = length (co_progs (ti_conc s)) \<and>
     (\<forall>i. co_holder (ti_conc s) = Some i \<longrightarrow> i < length (co_progs (ti_conc s))) \<and>
     (\<forall>i < length (co_progs (ti_conc s)). on_time \<beta> \<delta> s i)"

lemma timely_patience: "timely \<beta> \<delta> L p (Some n) \<Longrightarrow> patience \<beta> \<delta> p \<le> n"
  by (cases p) auto

lemma not_expired:
  assumes "keeps_until_time expired" "time_inv \<beta> \<delta> s" "lock_expired expired s"
  shows "co_holder (ti_conc s) = None"
proof (rule ccontr)
  assume "co_holder (ti_conc s) \<noteq> None"
  then obtain i where i: "co_holder (ti_conc s) = Some i" by blast
  with assms(2) have "on_time \<beta> \<delta> s i" by (simp add: time_inv_def)
  with i obtain n where n: "timely \<beta> \<delta> (unat LOCK_TIMEOUT_EXPIRATION) (co_progs (ti_conc s) ! i) (Some n)"
      "ti_ready s ! i + n \<le> snd (ti_taken s) + unat LOCK_TIMEOUT_EXPIRATION"
      "ti_now s \<le> ti_ready s ! i + patience \<beta> \<delta> (co_progs (ti_conc s) ! i)"
    by (auto simp: on_time_def Let_def)
  from timely_patience [OF n(1)] n(2,3) have "ti_now s \<le> snd (ti_taken s) + unat LOCK_TIMEOUT_EXPIRATION" by linarith
  moreover from assms(1,3) have "snd (ti_taken s) + unat LOCK_TIMEOUT_EXPIRATION < ti_now s"
    unfolding keeps_until_time_def lock_expired_def by (metis prod.collapse)
  ultimately show False by simp
qed

text \<open>What an action leaves of the time of the lock.\<close>

lemma timely_held:
  assumes "timely \<beta> \<delta> L (Act a p) (Some n)" "act_step i a s x s'"
  shows "patience \<beta> \<delta> (Act a p) \<le> n \<and> x \<noteq> Granted True \<and>
    (if a = Unlock then co_holder s' = None \<and> timely \<beta> \<delta> L (p x) None
     else co_holder s' = co_holder s \<and> timely \<beta> \<delta> L (p x) (Some (n - patience \<beta> \<delta> (Act a p))))"
  using assms(2) by (rule act_stepE) (use assms(1) in auto)

lemma timely_free:
  assumes "timely \<beta> \<delta> L (Act a p) None" "act_step i a s x s'" "co_holder s \<noteq> Some i"
  shows "if x = Granted True then co_holder s' = Some i \<and> timely \<beta> \<delta> L (p x) (Some L)
    else co_holder s' \<noteq> Some i \<and> timely \<beta> \<delta> L (p x) None"
  using assms(2) by (rule act_stepE) (use assms(1,3) in auto)

lemma on_time_acts:
  assumes inv: "time_inv \<beta> \<delta> s" and i: "i < length (co_progs (ti_conc s))" "co_progs (ti_conc s) ! i = Act a p"
    and a: "act_step i a (ti_conc s) x c" and j: "j < length (co_progs (ti_conc s))"
    and s'_def: "s' = s\<lparr>ti_conc := c\<lparr>co_progs := (co_progs (ti_conc s))[i := p x], co_log := l\<rparr>,
         ti_taken := (if x = Granted True then (b, ti_now s) else ti_taken s), ti_ready := (ti_ready s)[i := ti_now s]\<rparr>"
  shows "on_time \<beta> \<delta> s' j"
proof (cases "j = i")
  case False
  have "on_time \<beta> \<delta> s j" using inv j by (simp add: time_inv_def)
  moreover have "on_time \<beta> \<delta> s i" using inv i by (simp add: time_inv_def)
  then have "a = Unlock \<Longrightarrow> co_holder (ti_conc s) = Some i" using i by (auto simp: on_time_def Let_def split: if_splits)
  then have "co_holder c = Some j \<longleftrightarrow> co_holder (ti_conc s) = Some j" "x = Granted True \<longrightarrow> co_holder (ti_conc s) \<noteq> Some j"
    using a False by (auto elim!: act_stepE)
  ultimately show ?thesis
    using False by (auto simp: on_time_def s'_def Let_def)
next
  case True
  have rdy: "length (ti_ready s) = length (co_progs (ti_conc s))" and t: "on_time \<beta> \<delta> s i" using inv i by (simp_all add: time_inv_def)
  show ?thesis
  proof (cases "co_holder (ti_conc s) = Some i")
    case held: True
    with t i obtain n where n: "timely \<beta> \<delta> (unat LOCK_TIMEOUT_EXPIRATION) (Act a p) (Some n)"
        "ti_ready s ! i + n \<le> snd (ti_taken s) + unat LOCK_TIMEOUT_EXPIRATION" "ti_now s \<le> ti_ready s ! i + patience \<beta> \<delta> (Act a p)"
      by (auto simp: on_time_def Let_def)
    from timely_held [OF n(1) a] n(2,3) held have "if co_holder c = Some i then x \<noteq> Granted True \<and>
        timely \<beta> \<delta> (unat LOCK_TIMEOUT_EXPIRATION) (p x) (Some (n - patience \<beta> \<delta> (Act a p))) \<and>
        ti_now s + (n - patience \<beta> \<delta> (Act a p)) \<le> snd (ti_taken s) + unat LOCK_TIMEOUT_EXPIRATION
      else timely \<beta> \<delta> (unat LOCK_TIMEOUT_EXPIRATION) (p x) None" by (auto split: if_splits)
    then show ?thesis using True i rdy by (auto simp: on_time_def s'_def Let_def split: if_splits)
  next
    case False
    with t i have "timely \<beta> \<delta> (unat LOCK_TIMEOUT_EXPIRATION) (Act a p) None" by (simp add: on_time_def Let_def)
    from timely_free [OF this a False] show ?thesis
      using True i rdy by (auto simp: on_time_def s'_def Let_def split: if_splits)
  qed
qed

lemma time_inv_acts:
  assumes inv: "time_inv \<beta> \<delta> s" and i: "i < length (co_progs (ti_conc s))" "co_progs (ti_conc s) ! i = Act a p"
    and a: "act_step i a (ti_conc s) x c"
  shows "time_inv \<beta> \<delta> (s\<lparr>ti_conc := c\<lparr>co_progs := (co_progs (ti_conc s))[i := p x], co_log := l\<rparr>,
      ti_taken := (if x = Granted True then (b, ti_now s) else ti_taken s), ti_ready := (ti_ready s)[i := ti_now s]\<rparr>)"
proof -
  from a have "co_holder c \<in> {None, Some i, co_holder (ti_conc s)}" by (auto elim!: act_stepE)
  with inv i on_time_acts [OF inv i a _ refl, where l = l and b = b] show ?thesis by (auto simp: time_inv_def)
qed

lemma time_inv_starts:
  assumes inv: "time_inv \<beta> \<delta> s" and L: "unat FETCH_TIMEOUT_PERIOD + \<beta> + 3 * \<delta> \<le> unat LOCK_TIMEOUT_EXPIRATION"
  shows "time_inv \<beta> \<delta> (s\<lparr>ti_conc := (ti_conc s)\<lparr>co_progs := co_progs (ti_conc s) @ [worker_prog k api h f t]\<rparr>, ti_ready := ti_ready s @ [now]\<rparr>)"
    (is "time_inv \<beta> \<delta> ?s")
proof -
  let ?n = "length (co_progs (ti_conc s))"
  from inv have h: "co_holder (ti_conc s) \<noteq> Some ?n" "length (ti_ready s) = ?n" by (auto simp: time_inv_def)
  have "on_time \<beta> \<delta> ?s ?n" using h timely_worker [OF L] by (simp add: on_time_def Let_def)
  moreover have "on_time \<beta> \<delta> ?s i" if "i < ?n" for i
    using inv that h by (auto simp: time_inv_def on_time_def Let_def nth_append)
  ultimately show ?thesis using inv by (auto simp: time_inv_def less_Suc_eq)
qed

text \<open>The untimed interleaving without expiry has every step of the timed one.\<close>

lemma timed_simulated:
  assumes "timed_reachable expired \<beta> \<delta> k api s" and e: "keeps_until_time expired"
    and L: "unat FETCH_TIMEOUT_PERIOD + \<beta> + 3 * \<delta> \<le> unat LOCK_TIMEOUT_EXPIRATION"
  shows "time_inv \<beta> \<delta> s \<and> conc_reachable False k api (ti_conc s)"
  using assms(1)
proof (induction rule: timed_reachable.induct)
  case (start storage now n l)
  then show ?case by (simp add: time_inv_def conc_start_def conc_reachable.start [unfolded conc_start_def])
next
  case (step s s')
  note inv = step.IH [THEN conjunct1] and sim = conc_reachable.step [OF step.IH [THEN conjunct2]]
  from step.hyps(2) show ?case
  proof (cases rule: timed_step.cases)
    case (tick now)
    then show ?thesis using step.IH by (auto simp: time_inv_def on_time_def Let_def)
  next
    case (block n)
    then show ?thesis using step.IH by (auto simp: time_inv_def on_time_def Let_def)
  next
    case (starts h f t)
    then show ?thesis using time_inv_starts [OF inv L] sim [OF spawn] by simp
  next
    case (writes m)
    then show ?thesis using inv sim [OF index [of m]] by (auto simp: time_inv_def on_time_def Let_def)
  next
    case (acts i a p x c)
    then show ?thesis using time_inv_acts [OF inv acts(2-4)] sim [OF work [OF action [OF acts(2-4)]]] by simp
  next
    case lapses
    from not_expired [OF e inv lapses(2)] have "ti_conc s\<lparr>co_holder := None\<rparr> = ti_conc s" by simp
    with lapses(1) step.IH show ?thesis by simp
  qed
qed

section \<open>Properties\<close>

text \<open>
  C16. What the constants of the lock are good for: the lock is held a second longer than the wait for the response lasts. When reading the body and three delays of the
  host fit into that second, and the lock of the library does not expire before its time, then no worker is ever in the guarded part
  together with another, whatever the other workers, the blocks and the network do, and the lock is never taken from its holder:
  a worker in the guarded part is the holder.
\<close>

theorem lock_period_covers_fetch:
  assumes "timed_reachable expired \<beta> \<delta> k api s" "keeps_until_time expired" "\<beta> + 3 * \<delta> \<le> 1000"
  shows "(\<forall>i < length (co_progs (ti_conc s)). guarded k api (co_progs (ti_conc s) ! i) \<longrightarrow> co_holder (ti_conc s) = Some i) \<and>
    (\<forall>i < length (co_progs (ti_conc s)). \<forall>j < length (co_progs (ti_conc s)).
       guarded k api (co_progs (ti_conc s) ! i) \<longrightarrow> guarded k api (co_progs (ti_conc s) ! j) \<longrightarrow> i = j)"
proof -
  have "conc_reachable False k api (ti_conc s)"
    using timed_simulated [OF assms(1,2)] assms(3) by (simp add: FETCH_TIMEOUT_PERIOD_def LOCK_TIMEOUT_EXPIRATION_def)
  from conc_reachable_lock [OF this] show ?thesis
    by (metis guarded_needs_lock lock_inv_def option.inject)
qed

text \<open>An expiry by time alone, and the states of two workers on it, with the log left out.\<close>

definition by_time :: lock_expiry where
  "by_time blocks ms taken now \<longleftrightarrow> snd taken + unat ms < snd now"

lemma by_time_keeps: "keeps_until_time by_time"
  by (simp add: keeps_until_time_def by_time_def)

definition runs :: "'bn client_codec \<Rightarrow> 'd json_api \<Rightarrow> nat \<Rightarrow> nat \<Rightarrow> prog list \<Rightarrow> (bytes \<rightharpoonup> bytes) \<Rightarrow> nat option \<Rightarrow> nat \<Rightarrow> nat \<Rightarrow> nat list \<Rightarrow> bool" where
  "runs k api \<beta> \<delta> ps m holder now taken ready \<longleftrightarrow> (\<exists>l. timed_reachable by_time \<beta> \<delta> k api
     \<lparr>ti_conc = \<lparr>co_progs = ps, co_storage = m, co_holder = holder, co_log = l\<rparr>, ti_now = now, ti_block = 0, ti_taken = (0, taken), ti_ready = ready\<rparr>)"

lemma runs_start: "runs k api \<beta> \<delta> [worker_prog k api h f t, worker_prog k api h f t] Map.empty None 0 0 [0, 0]"
proof -
  have "timed_reachable by_time \<beta> \<delta> k api
      \<lparr>ti_conc = conc_start Map.empty, ti_now = 0, ti_block = 0, ti_taken = (0, 0), ti_ready = []\<rparr>"
    by (rule timed_reachable.start) simp
  from timed_reachable.step [OF timed_reachable.step [OF this starts [of _ _ _ _ _ _ h f t]] starts [of _ _ _ _ _ _ h f t]]
  show ?thesis unfolding runs_def by (auto simp: conc_start_def)
qed

lemma runs_act:
  assumes "runs k api \<beta> \<delta> ps m H now taken ready" "i < length ps" "ps ! i = Act a p"
    and "\<And>l. act_step i a \<lparr>co_progs = ps, co_storage = m, co_holder = H, co_log = l\<rparr> x \<lparr>co_progs = ps, co_storage = m', co_holder = H', co_log = l\<rparr>"
  shows "runs k api \<beta> \<delta> (ps[i := p x]) m' H' now (if x = Granted True then now else taken) (ready[i := now])"
proof -
  from assms(1) obtain l where "timed_reachable by_time \<beta> \<delta> k api
     \<lparr>ti_conc = \<lparr>co_progs = ps, co_storage = m, co_holder = H, co_log = l\<rparr>, ti_now = now, ti_block = 0, ti_taken = (0, taken), ti_ready = ready\<rparr>"
    unfolding runs_def by blast
  from timed_reachable.step [OF this acts [of i]] assms(2-4) show ?thesis
    unfolding runs_def by (fastforce simp: current_block_number_def if_distrib [of "Pair 0"] cong: if_cong)
qed

lemma runs_tick:
  assumes "runs k api \<beta> \<delta> ps m H now taken ready" "now \<le> now'" "\<And>i. H = Some i \<Longrightarrow> now' \<le> ready ! i + patience \<beta> \<delta> (ps ! i)"
  shows "runs k api \<beta> \<delta> ps m H now' taken ready"
  using assms(1) unfolding runs_def
  by (elim exE, intro exI) (drule timed_reachable.step, rule tick [where now = now'], use assms(2,3) in auto)

lemma runs_lapse:
  assumes "runs k api \<beta> \<delta> ps m H now taken ready" "taken + unat LOCK_TIMEOUT_EXPIRATION < now"
  shows "runs k api \<beta> \<delta> ps m None now taken ready"
  using assms(1) unfolding runs_def
  by (elim exE, intro exI) (drule timed_reachable.step, rule lapses, use assms(2) in \<open>auto simp: lock_expired_def by_time_def\<close>)

lemma runs_grant:
  assumes "runs k api \<beta> \<delta> ps m None now taken ready" "i < length ps" "ps ! i = worker_prog k api h f t"
  shows "runs k api \<beta> \<delta> (ps[i := fetch_prog k api h f t]) m (Some i) now now (ready[i := now])"
proof -
  have "act_step i TryLock \<lparr>co_progs = ps, co_storage = m, co_holder = None, co_log = l\<rparr> (Granted True)
      \<lparr>co_progs = ps, co_storage = m, co_holder = Some i, co_log = l\<rparr>" for l
    using act_step.grant [of "\<lparr>co_progs = ps, co_storage = m, co_holder = None, co_log = l\<rparr>" i] by simp
  from runs_act [OF assms(1,2) assms(3) [unfolded worker_prog_def] this] show ?thesis by simp
qed

lemma runs_granted:
  "runs k api \<beta> \<delta> [fetch_prog k api h f t, worker_prog k api h f t] Map.empty (Some 0) 0 0 [0, 0]"
  using runs_grant [OF runs_start [of k api \<beta> \<delta> h f t], of 0] by simp

lemma runs_reachable:
  "runs k api \<beta> \<delta> ps m H now taken ready \<Longrightarrow> \<exists>s. timed_reachable by_time \<beta> \<delta> k api s \<and> co_progs (ti_conc s) = ps"
  unfolding runs_def by (erule exE) (rule exI, erule conjI, simp)

theorem lock_period_covers_fetch_witness:
  "\<exists>s. timed_reachable by_time 400 200 marked_codec echo_json s \<and> length (co_progs (ti_conc s)) = 2 \<and>
     guarded marked_codec echo_json (co_progs (ti_conc s) ! 0) \<and> \<not> guarded marked_codec echo_json (co_progs (ti_conc s) ! 1)"
proof -
  from runs_reachable [OF runs_granted] obtain s where s: "timed_reachable by_time 400 200 marked_codec echo_json s"
      "co_progs (ti_conc s) = [fetch_prog marked_codec echo_json [104] [102] [116], worker_prog marked_codec echo_json [104] [102] [116]]"
    by blast
  then have g: "guarded marked_codec echo_json (co_progs (ti_conc s) ! 0)" by (simp add: guarded_intros)
  moreover have "\<not> guarded marked_codec echo_json (co_progs (ti_conc s) ! 1)"
  proof
    have l: "0 < length (co_progs (ti_conc s))" "1 < length (co_progs (ti_conc s))" by (simp_all add: s(2))
    have "400 + 3 * 200 \<le> (1000 :: nat)" by simp
    note holds = lock_period_covers_fetch [OF s(1) by_time_keeps this, THEN conjunct1, rule_format]
    assume "guarded marked_codec echo_json (co_progs (ti_conc s) ! 1)"
    from holds [OF l(2) this] holds [OF l(1) g] show False by simp
  qed
  ultimately show ?thesis using s by auto
qed


end
