(* ===== verification/Client_Schedule.thy ===== *)
theory Client_Schedule
  imports Client_Lock
begin

text \<open>
  Between the two views of the price worker of \<^verbatim>\<open>client/src/lib.rs\<close>: the worker started for a block among other workers, what a worker writes to
  the storage, and the run of the worker function on a host with an honest lock as a schedule of the interleaved workers.
\<close>

section \<open>Starting a worker\<close>

definition start_worker :: "'bn client_codec \<Rightarrow> 'd json_api \<Rightarrow> 'bn \<Rightarrow> conc \<Rightarrow> conc" where
  "start_worker k api block_number c =
     (case Option.bind (co_storage c (derived_key k block_number)) (decode_price_flag k) of
        Some (IndexingPriceFlag name h f t) \<Rightarrow>
          if from_utf8_or_error name = lit ''update_ethereum_price'' then
            (let eth_host = lit ''0x'' @ from_utf8_or_error h;
                 from_address = lit ''0x'' @ from_utf8_or_error f;
                 to_address = lit ''0x'' @ from_utf8_or_error t
             in c\<lparr>co_progs := co_progs c @ [worker_prog k api eth_host from_address to_address]\<rparr>)
          else c
      | None \<Rightarrow> c)"

lemma start_worker_eq:
  "start_worker k api n c = (case pending_update k n (co_storage c) of
      None \<Rightarrow> c | Some (h, f, t) \<Rightarrow> c\<lparr>co_progs := co_progs c @ [worker_prog k api (prefixed h) (prefixed f) (prefixed t)]\<rparr>)"
  by (auto simp: start_worker_def pending_update_def prefixed_def update_flag_name_iff Let_def
      split: option.split indexing_price_flag.split)

lemma start_worker_reachable:
  "conc_reachable expiry k api c \<Longrightarrow> conc_reachable expiry k api (start_worker k api n c)"
  by (auto simp: start_worker_eq split: option.split intro: conc_reachable.step [OF _ spawn])

text \<open>The workers write no other key of the storage than that of the price.\<close>

primrec stores_info :: "prog \<Rightarrow> bool" where
  "stores_info (Return r) = True"
| "stores_info (Act a p) = ((\<forall>key v. a = Store key v \<longrightarrow> key = INFO_KEY) \<and> (\<forall>x. stores_info (p x)))"

lemma stores_info_worker: "stores_info (worker_prog k api h f t)"
proof -
  have report: "stores_info (report_prog api h f t price)" for price
    by (auto simp: report_prog_def estimated_prog_def send_prog_def submit_prog_def Let_def
        split: option.split outcome.split answer.split)
  have "stores_info (load_prog k api h f t)" by (auto simp: load_prog_def report split: answer.split)
  then show ?thesis by (auto simp: worker_prog_def fetch_prog_def split: answer.split outcome.split)
qed

text \<open>A step of the workers keeps the entries of the blocks, and this limit on what the workers write.\<close>

lemma work_keeps_entries:
  assumes "\<forall>p \<in> set (co_progs s). stores_info p" "work_step e s c"
  shows "co_storage c (derived_key k m) = co_storage s (derived_key k m) \<and> (\<forall>p \<in> set (co_progs c). stores_info p)"
  using assms(2)
proof (rule work_stepE)
  assume "c = s\<lparr>co_holder := None\<rparr>"
  with assms(1) show ?thesis by simp
next
  fix i a p x s'
  assume c: "c = s'\<lparr>co_progs := (co_progs s)[i := p x], co_log := co_log s @ [(a, x)]\<rparr>"
    and i: "i < length (co_progs s)" "co_progs s ! i = Act a p" and a: "act_step i a s x s'"
  have p: "stores_info (Act a p)" using assms(1) i by (metis nth_mem)
  have "co_storage s' (derived_key k m) = co_storage s (derived_key k m)"
    using a by (rule act_stepE) (use p in \<open>auto simp: keys_distinct\<close>)
  moreover have "stores_info q" if "q \<in> set ((co_progs s)[i := p x])" for q
    using that p assms(1) set_update_subset_insert [of "co_progs s" i "p x"] by auto
  ultimately show ?thesis by (simp add: c)
qed

text \<open>Starting a worker changes nothing but the list of the workers.\<close>

lemma start_worker_keeps:
  "co_storage (start_worker k api m c) = co_storage c" "co_holder (start_worker k api m c) = co_holder c"
  "co_log (start_worker k api m c) = co_log c"
  "(\<forall>p \<in> set (co_progs (start_worker k api m c)). stores_info p) \<longleftrightarrow> (\<forall>p \<in> set (co_progs c). stores_info p)"
  by (auto simp: start_worker_eq stores_info_worker split: option.split)

section \<open>Workers that are not interrupted\<close>

text \<open>The submissions among the effects of a worker function and among the actions of interleaved workers.\<close>

fun submission :: "effect \<Rightarrow> (client_call \<times> bool) option" where
  "submission (Submitted c b) = Some (c, b)"
| "submission _ = None"

fun submit_action :: "action \<times> answer \<Rightarrow> (client_call \<times> bool) option" where
  "submit_action (Submit c, Accepted b) = Some (c, b)"
| "submit_action _ = None"

text \<open>
  A host with an honest lock: in the worlds where it is free it is granted, it is free once it has been released, and no other operation of the worker
  takes it.
\<close>

definition honest_lock :: "('w, 'id) offchain_host \<Rightarrow> ('w \<Rightarrow> bool) \<Rightarrow> bool" where
  "honest_lock host free \<longleftrightarrow> (\<forall>w. free (lock_release host LOCK_KEY w) \<and> (free w \<longrightarrow>
     fst (lock_try host LOCK_KEY LOCK_BLOCK_EXPIRATION LOCK_TIMEOUT_EXPIRATION w) \<and> free (snd (timestamp host w)) \<and>
     (\<forall>q. free (snd (http_send host q w))) \<and> (\<forall>p d. free (snd (http_try_wait host p d w))) \<and>
     (\<forall>p. free (snd (http_body host p w))) \<and> (\<forall>c. free (snd (submit_unsigned host c w)))))"

lemma map_filter_append: "List.map_filter f (xs @ ys) = List.map_filter f xs @ List.map_filter f ys"
  by (simp add: List.map_filter_def)

lemma exchange_quiet:
  assumes "exchange host q st = (r, st')"
  shows "r \<noteq> Panic \<and> os_storage st' = os_storage st \<and>
    List.map_filter submission (os_trace st') = List.map_filter submission (os_trace st)"
  using assms by (rule exchangeE) (auto simp: map_filter_append map_filter_simps split: if_splits)

lemma exchange_keeps_free:
  assumes "honest_lock host free" "free (os_world st)" "exchange host q st = (r, st')"
  shows "free (os_world st')"
proof -
  have keeps: "free w \<Longrightarrow> timestamp host w = (a, w1) \<Longrightarrow> free w1" "free w \<Longrightarrow> http_send host q' w = (b, w1) \<Longrightarrow> free w1"
    "free w \<Longrightarrow> http_try_wait host p d w = (c, w1) \<Longrightarrow> free w1" "free w \<Longrightarrow> http_body host p w = (e, w1) \<Longrightarrow> free w1" for w a w1 q' b p d c e
    using assms(1) unfolding honest_lock_def by (metis snd_conv)+
  from assms(2,3) show ?thesis
    by (auto simp: exchange_def record_effect_def Let_def dest!: keeps [rotated] split: prod.splits option.splits http_wait.splits if_splits)
qed

lemma perform_step:
  assumes d: "disciplined (Act a q) own" and h: "honest_lock host free" "co_holder s = (if own then Some i else None)"
    and f: "own \<or> free (os_world st)"
    and st: "co_storage s = os_storage st" and p: "perform_action host a st = (x, st1)"
  obtains c own' where "act_step i a s x c" "disciplined (q x) own'" "co_holder c = (if own' then Some i else None)"
    "co_storage c = os_storage st1" "own' \<or> free (os_world st1)"
    "List.map_filter submission (os_trace st1) = List.map_filter submission (os_trace st) @ List.map_filter submit_action [(a, x)]"
proof (cases a)
  case TryLock
  have "free (os_world st)" using TryLock d f by simp
  then obtain w where "lock_try host LOCK_KEY LOCK_BLOCK_EXPIRATION LOCK_TIMEOUT_EXPIRATION (os_world st) = (True, w)"
    using h(1) unfolding honest_lock_def by (metis prod.collapse)
  with TryLock d p have "x = Granted True" "\<not> own" "os_storage st1 = os_storage st"
    "List.map_filter submission (os_trace st1) = List.map_filter submission (os_trace st)"
    by (auto simp: record_effect_def map_filter_append map_filter_simps)
  with TryLock d h st act_step.grant [of s i] show ?thesis
    by (intro that [of "s\<lparr>co_holder := Some i\<rparr>" True]) (auto simp: map_filter_simps)
next
  case Unlock
  moreover have "free (lock_release host LOCK_KEY (os_world st))" using h(1) by (simp add: honest_lock_def)
  ultimately show ?thesis
    using d p st act_step.release [of i s]
    by (intro that [of "s\<lparr>co_holder := None\<rparr>" False]) (auto simp: record_effect_def map_filter_append map_filter_simps)
next
  case (Ask req)
  obtain r st' where e: "exchange host req st = (r, st')" by (rule prod.exhaust)
  from exchange_quiet [OF e] exchange_keeps_free [OF h(1) _ e] f Ask d h(2) p st e act_step.ask [of r i req s] show ?thesis
    by (intro that [of s own]) (auto simp: map_filter_simps)
next
  case (Store key v)
  with d f h(2) p st act_step.store [of i key v s] show ?thesis
    by (intro that [of "s\<lparr>co_storage := (co_storage s)(key \<mapsto> v)\<rparr>" own]) (auto simp: record_effect_def map_filter_append map_filter_simps)
next
  case (Load key)
  with d f h(2) p st act_step.load [of i key s] show ?thesis by (intro that [of s own]) (auto simp: map_filter_simps)
next
  case (Submit c)
  have "free w \<Longrightarrow> submit_unsigned host c w = (b, w1) \<Longrightarrow> free w1" for w b w1 using h(1) unfolding honest_lock_def by (metis snd_conv)
  with Submit d f h(2) p st act_step.submit [of i c s] show ?thesis
    by (intro that [of s own]) (auto simp: record_effect_def map_filter_append map_filter_simps split: prod.splits)
qed

text \<open>The run of a program on such a host is a schedule of the interleaved workers in which only this worker acts.\<close>

lemma run_is_schedule:
  assumes "disciplined p own" "honest_lock host free" "co_holder s = (if own then Some i else None)" "co_storage s = os_storage st"
    and "own \<or> free (os_world st)"
    and "i < length (co_progs s)" "co_progs s ! i = p" "run_prog host p st = (r, st')"
    and "List.map_filter submission (os_trace st) = List.map_filter submit_action (co_log s)"
  shows "\<exists>s'. (work_step False)\<^sup>*\<^sup>* s s' \<and> co_progs s' = (co_progs s)[i := Return r] \<and> co_holder s' = None \<and>
    co_storage s' = os_storage st' \<and> List.map_filter submission (os_trace st') = List.map_filter submit_action (co_log s')"
  using assms
proof (induction p arbitrary: own s st)
  case (Return r')
  then have "(co_progs s)[i := Return r] = co_progs s" by (simp add: list_update_same_conv)
  with Return show ?case by (intro exI [of _ s]) auto
next
  case (Act a q)
  obtain x st1 where x: "perform_action host a st = (x, st1)" by (rule prod.exhaust)
  obtain c own' where c: "act_step i a s x c" "disciplined (q x) own'" "co_holder c = (if own' then Some i else None)"
    "co_storage c = os_storage st1" "own' \<or> free (os_world st1)"
    "List.map_filter submission (os_trace st1) = List.map_filter submission (os_trace st) @ List.map_filter submit_action [(a, x)]"
    by (rule perform_step [OF Act.prems(1-3,5,4) x])
  let ?s1 = "c\<lparr>co_progs := (co_progs s)[i := q x], co_log := co_log s @ [(a, x)]\<rparr>"
  have "work_step False s ?s1" by (rule action [OF Act.prems(6,7) c(1)])
  moreover have "\<exists>s'. (work_step False)\<^sup>*\<^sup>* ?s1 s' \<and> co_progs s' = (co_progs ?s1)[i := Return r] \<and> co_holder s' = None \<and>
    co_storage s' = os_storage st' \<and> List.map_filter submission (os_trace st') = List.map_filter submit_action (co_log s')"
    using Act.prems x c by (intro Act.IH [of "q x" own' _ st1]) (auto simp: map_filter_append)
  ultimately show ?case by (auto intro: converse_rtranclp_into_rtranclp)
qed

end
