(* ===== verification/Chain_Forks.thy ===== *)
theory Chain_Forks
  imports Chain_System Client_Schedule
begin

text \<open>
  A node on a chain that forks: it imports blocks on any chain it knows, keeps the runtime state of each of them, and has one off-chain storage
  for all. The library promises no more for that storage: it is persistent and does not follow forks, and a block adds to it what its own calls
  wrote. Whether the off-chain worker (\<^verbatim>\<open>offchain_worker\<close> of \<^verbatim>\<open>client/src/lib.rs\<close>) runs for a block is decided by the library, which
  starts it when the block becomes the best one. A chain is the list of its blocks, and a block the list of its calls: blocks that differ in
  their header only are imports of the same chain.
\<close>

section \<open>The node\<close>

type_synonym ('o, 'acc, 'x) chain = "('o \<times> ('acc, 'x) runtime_call) list list"

record ('o, 'acc, 'x, 'r) fork_node =
  fk_blocks :: "(('o, 'acc, 'x) chain \<times> ('acc, 'r) runtime_state) list"
  fk_workers :: conc

text \<open>The off-chain index is not part of the state of the chain: a block is executed with an empty one.\<close>

definition forget_index :: "('acc, 'r) runtime_state \<Rightarrow> ('acc, 'r) runtime_state" where
  "forget_index S = S\<lparr>light_client_module := (light_client_module S)\<lparr>offchain_index := Map.empty\<rparr>\<rparr>"

definition fork_import ::
  "('o, 'acc, 'x, 'e, 'r, 'd, 'w, 'id) node_lib \<Rightarrow> bool \<Rightarrow> ('o, 'acc, 'x) chain \<Rightarrow> ('acc, 'r) runtime_state \<Rightarrow>
     ('o \<times> ('acc, 'x) runtime_call) list \<Rightarrow> ('o, 'acc, 'x, 'r) fork_node \<Rightarrow> ('o, 'acc, 'x, 'r) fork_node" where
  "fork_import lib new_best parent S b s =
     (let n = of_nat (length parent) + 1;
          S' = execute_block lib n b (forget_index S);
          c = (fk_workers s)\<lparr>co_storage := co_storage (fk_workers s) ++ offchain_index (light_client_module S')\<rparr>
      in \<lparr>fk_blocks = fk_blocks s @ [(parent @ [b], S')],
          fk_workers = (if new_best then start_worker (env_codec (nl_env lib)) (nl_json lib) n c else c)\<rparr>)"

definition fork_genesis :: "(peer_id \<times> 'acc) list \<Rightarrow> 'r \<Rightarrow> ('o, 'acc, 'x, 'r) fork_node" where
  "fork_genesis nodes r = \<lparr>fk_blocks = [([], genesis_runtime nodes r)], fk_workers = conc_start Map.empty\<rparr>"

inductive fork_step ::
  "bool \<Rightarrow> ('o, 'acc, 'x, 'e, 'r, 'd, 'w, 'id) node_lib \<Rightarrow> ('o, 'acc, 'x, 'r) fork_node \<Rightarrow> ('o, 'acc, 'x, 'r) fork_node \<Rightarrow> bool"
  for expiry :: bool and lib :: "('o, 'acc, 'x, 'e, 'r, 'd, 'w, 'id) node_lib" where
  fork: "(parent, S) \<in> set (fk_blocks s) \<Longrightarrow> list_all (includable_call (env_origins (nl_env lib))) b \<Longrightarrow> length parent + 1 < 2 ^ 32 \<Longrightarrow>
    no_raw_writes lib (of_nat (length parent) + 1) b \<Longrightarrow> fork_step expiry lib s (fork_import lib new_best parent S b s)"
| busy: "work_step expiry (fk_workers s) c \<Longrightarrow> fork_step expiry lib s (s\<lparr>fk_workers := c\<rparr>)"

inductive_cases fork_stepE: "fork_step expiry lib s s'"

inductive fork_reachable ::
  "bool \<Rightarrow> ('o, 'acc, 'x, 'e, 'r, 'd, 'w, 'id) node_lib \<Rightarrow> (peer_id \<times> 'acc) list \<Rightarrow> 'r \<Rightarrow> ('o, 'acc, 'x, 'r) fork_node \<Rightarrow> bool"
  for expiry :: bool and lib :: "('o, 'acc, 'x, 'e, 'r, 'd, 'w, 'id) node_lib" and nodes :: "(peer_id \<times> 'acc) list" and r :: 'r where
  genesis: "fork_reachable expiry lib nodes r (fork_genesis nodes r)"
| step: "fork_reachable expiry lib nodes r s \<Longrightarrow> fork_step expiry lib s s' \<Longrightarrow> fork_reachable expiry lib nodes r s'"

section \<open>The index of one block\<close>

lemma forget_index_sel [simp]:
  "offchain_index (light_client_module (forget_index S)) = Map.empty"
  "client_events (light_client_module (forget_index S)) = client_events (light_client_module S)"
  "supra_authorization (forget_index S) = supra_authorization S" "template_module (forget_index S) = template_module S"
  "other_pallets (forget_index S) = other_pallets S" "forget_index (forget_index S) = forget_index S"
  by (simp_all add: forget_index_def)

lemma execute_block_info:
  "no_raw_writes lib n b \<Longrightarrow> offchain_index (light_client_module S) INFO_KEY = None \<Longrightarrow> offchain_index (light_client_module (execute_block lib n b S)) INFO_KEY = None"
  by (simp add: execute_block_client run_index_other keys_distinct)

lemma index_of_block:
  assumes "codec_block_inj (env_codec (nl_env lib))" "no_raw_writes lib n b"
  shows "offchain_index (light_client_module (execute_block lib n b (forget_index S))) (derived_key (env_codec (nl_env lib)) m) =
     block_entry (env_codec (nl_env lib)) (runtime_client_config (nl_env lib)) m (block_client_calls n b)"
  by (simp add: execute_block_client [OF assms(2)] block_entry_run [OF assms(1)])

section \<open>What the node keeps\<close>

text \<open>The state after a chain.\<close>

fun chain_state ::
  "('o, 'acc, 'x, 'e, 'r, 'd, 'w, 'id) node_lib \<Rightarrow> u32 \<Rightarrow> ('o, 'acc, 'x) chain \<Rightarrow> ('acc, 'r) runtime_state \<Rightarrow> ('acc, 'r) runtime_state" where
  "chain_state lib n [] S = S"
| "chain_state lib n (b # bs) S = chain_state lib (n + 1) bs (execute_block lib (n + 1) b (forget_index S))"

lemma chain_state_snoc:
  "chain_state lib n (bs @ [b]) S = execute_block lib (n + of_nat (length bs) + 1) b (forget_index (chain_state lib n bs S))"
  by (induction bs arbitrary: n S) (simp_all add: algebra_simps)

text \<open>The accepted client calls of all imported blocks with a number, in the order of the imports.\<close>

definition fork_calls :: "('o, 'acc) runtime_env \<Rightarrow> ('o, 'acc, 'x) chain list \<Rightarrow> u32 \<Rightarrow> client_call list" where
  "fork_calls env known_chains m =
     concat (map (\<lambda>bs. accepted (runtime_client_config env) m (block_client_calls m (last bs)))
       (filter (\<lambda>bs. bs \<noteq> [] \<and> length bs = unat m) known_chains))"

definition last_entry :: "'bn client_codec \<Rightarrow> client_call list \<Rightarrow> bytes option" where
  "last_entry k cs = (if cs = [] then None else Some (index_entry k (last cs)))"

abbreviation fk_chains :: "('o, 'acc, 'x, 'r) fork_node \<Rightarrow> ('o, 'acc, 'x) chain list" where
  "fk_chains s \<equiv> map fst (fk_blocks s)"

definition fork_inv ::
  "('o, 'acc, 'x, 'e, 'r, 'd, 'w, 'id) node_lib \<Rightarrow> ('o, 'acc, 'x, 'r) fork_node \<Rightarrow> bool" where
  "fork_inv lib s \<longleftrightarrow> (let k = env_codec (nl_env lib) in
     (\<forall>m. co_storage (fk_workers s) (derived_key k m) = last_entry k (fork_calls (nl_env lib) (fk_chains s) m)) \<and>
     (\<forall>p \<in> set (co_progs (fk_workers s)). stores_info p))"

lemma fork_calls_snoc:
  assumes "length bs + 1 < 2 ^ 32"
  shows "fork_calls env (known_chains @ [bs @ [b]]) m =
     fork_calls env known_chains m @ accepted (runtime_client_config env) m (block_client_calls (of_nat (length bs) + 1) b)"
proof (cases "m = of_nat (length bs) + 1")
  case True
  then have "unat m = Suc (length bs)" using assms by (simp add: unat_word_ariths unat_of_nat)
  with True show ?thesis by (simp add: fork_calls_def)
next
  case False
  have "unat m \<noteq> Suc (length bs)"
  proof
    assume "unat m = Suc (length bs)"
    then have "(of_nat (unat m) :: u32) = of_nat (length bs) + 1" by simp
    with False show False by simp
  qed
  with False show ?thesis by (simp add: fork_calls_def accepted_other_block)
qed

lemma last_entry_append: "last_entry k (xs @ ys) = (case last_entry k ys of None \<Rightarrow> last_entry k xs | Some e \<Rightarrow> Some e)"
  by (simp add: last_entry_def)

lemma block_entry_last: "block_entry k cfg n cs = last_entry k (accepted cfg n cs)"
  by (auto simp: block_entry_def last_entry_def split: list.split)

lemma fork_import_storage:
  assumes "codec_block_inj (env_codec (nl_env lib))" "fork_inv lib s" "length parent + 1 < 2 ^ 32" "no_raw_writes lib (of_nat (length parent) + 1) b"
  shows "co_storage (fk_workers (fork_import lib new_best parent S b s)) (derived_key (env_codec (nl_env lib)) m) =
    last_entry (env_codec (nl_env lib)) (fork_calls (nl_env lib) (fk_chains (fork_import lib new_best parent S b s)) m)"
  using assms(2)
  by (simp add: fork_import_def Let_def start_worker_keeps map_add_def index_of_block [OF assms(1,4)] fork_calls_snoc [OF assms(3)]
      last_entry_append block_entry_last fork_inv_def split: option.split)

lemma fork_inv_import:
  assumes "codec_block_inj (env_codec (nl_env lib))" "fork_inv lib s" "length parent + 1 < 2 ^ 32" "no_raw_writes lib (of_nat (length parent) + 1) b"
  shows "fork_inv lib (fork_import lib new_best parent S b s)"
proof -
  have "\<forall>p \<in> set (co_progs (fk_workers (fork_import lib new_best parent S b s))). stores_info p"
    using assms(2) by (simp add: fork_import_def Let_def start_worker_keeps fork_inv_def)
  with fork_import_storage [OF assms] show ?thesis by (simp add: fork_inv_def)
qed

text \<open>The node keeps for each of its chains the state that the calls of the chain lead to.\<close>

lemma fork_reachable_states:
  assumes "fork_reachable expiry lib nodes r s" "(bs, S) \<in> set (fk_blocks s)"
  shows "S = chain_state lib 0 bs (genesis_runtime nodes r)"
  using assms
proof (induction arbitrary: bs S rule: fork_reachable.induct)
  case genesis
  then show ?case by (simp add: fork_genesis_def)
next
  case (step s s')
  from step.hyps(2) show ?case
    by (rule fork_stepE) (use step.prems step.IH in \<open>auto simp: fork_import_def Let_def chain_state_snoc\<close>)
qed

lemma fork_reachable_inv:
  assumes "fork_reachable expiry lib nodes r s" "codec_block_inj (env_codec (nl_env lib))"
  shows "fork_inv lib s"
  using assms(1)
proof (induction rule: fork_reachable.induct)
  case genesis
  show ?case by (auto simp: fork_inv_def fork_genesis_def conc_start_def fork_calls_def last_entry_def Let_def)
next
  case (step s s')
  from step.hyps(2) show ?case
  proof (rule fork_stepE)
    fix c assume c: "s' = s\<lparr>fk_workers := c\<rparr>" "work_step expiry (fk_workers s) c"
    from step.IH work_keeps_entries [OF _ c(2), of "env_codec (nl_env lib)"] show ?thesis by (simp add: fork_inv_def Let_def c(1))
  qed (use fork_inv_import [OF assms(2) step.IH] in auto)
qed

lemma fork_import_workers:
  "no_raw_writes lib (of_nat (length parent) + 1) b \<Longrightarrow> conc_reachable expiry (env_codec (nl_env lib)) (nl_json lib) (fk_workers s) \<Longrightarrow>
     conc_reachable expiry (env_codec (nl_env lib)) (nl_json lib) (fk_workers (fork_import lib new_best parent S b s))"
  by (auto simp: fork_import_def Let_def execute_block_info intro!: start_worker_reachable conc_reachable.step [OF _ index])

lemma fork_reachable_workers:
  assumes "fork_reachable expiry lib nodes r s"
  shows "conc_reachable expiry (env_codec (nl_env lib)) (nl_json lib) (fk_workers s)"
  using assms
proof (induction rule: fork_reachable.induct)
  case genesis
  show ?case by (simp add: fork_genesis_def conc_reachable.start)
next
  case (step s s')
  from step.hyps(2) show ?case
    by (rule fork_stepE) (use step.IH in \<open>auto intro: fork_import_workers conc_reachable.step [OF _ work]\<close>)
qed

section \<open>Properties\<close>

text \<open>
  C11. In every reachable state of a node, whatever forks it has imported and whatever its workers are doing: a block without a raw write of the storage that becomes the best one starts
  exactly one worker, for the update request that is the last accepted client call of the block, and none when that call is a price submission. A
  block without accepted client calls starts the worker for the last accepted client call among the blocks of the same number that the node
  imported before, on whatever fork they are: the index is keyed by the number only. A block that does not become the best one starts none.
\<close>

theorem fork_import_starts_worker:
  assumes "fork_reachable expiry lib nodes r s" "length parent + 1 < 2 ^ 32" "no_raw_writes lib (of_nat (length parent) + 1) b"
    and "codec_block_inj (env_codec (nl_env lib))" "codec_roundtrip (env_codec (nl_env lib))" "codec_short_input (env_codec (nl_env lib))"
  shows "let c = fk_workers s; c' = fk_workers (fork_import lib new_best parent S b s); m = of_nat (length parent) + 1;
       own = accepted (runtime_client_config (nl_env lib)) m (block_client_calls m b);
       calls = (if own = [] then fork_calls (nl_env lib) (fk_chains s) m else own)
     in co_progs c' = co_progs c @ (if \<not> new_best \<or> calls = [] then [] else case last calls of
            Call_update_ethereum_price h f t \<Rightarrow> [worker_prog (env_codec (nl_env lib)) (nl_json lib) (prefixed h) (prefixed f) (prefixed t)]
          | Call_submit_ethereum_price p \<Rightarrow> []) \<and>
        co_holder c' = co_holder c \<and> co_log c' = co_log c \<and> co_storage c' INFO_KEY = co_storage c INFO_KEY"
proof -
  define k where "k = env_codec (nl_env lib)"
  define m :: u32 where "m = of_nat (length parent) + 1"
  define own where "own = accepted (runtime_client_config (nl_env lib)) m (block_client_calls m b)"
  define calls where "calls = (if own = [] then fork_calls (nl_env lib) (fk_chains s) m else own)"
  let ?S = "execute_block lib m b (forget_index S)"
  define c where "c = (fk_workers s)\<lparr>co_storage := co_storage (fk_workers s) ++ offchain_index (light_client_module ?S)\<rparr>"
  have imp: "fk_workers (fork_import lib new_best parent S b s) = (if new_best then start_worker k (nl_json lib) m c else c)" for new_best
    by (simp add: fork_import_def Let_def k_def m_def c_def)
  have "co_storage c (derived_key k m) = last_entry k (fork_calls (nl_env lib) (fk_chains s) m @ own)"
    using fork_import_storage [OF assms(4) fork_reachable_inv [OF assms(1,4)] assms(2,3), of False S m]
    by (simp add: fork_import_def Let_def fork_calls_snoc [OF assms(2)] k_def m_def own_def c_def)
  also have "\<dots> = last_entry k calls" by (simp add: last_entry_def calls_def)
  finally have "pending_update k m (co_storage c) = (if calls = [] then None else case last calls of
      Call_update_ethereum_price h f t \<Rightarrow> Some (h, f, t) | Call_submit_ethereum_price p \<Rightarrow> None)"
    using assms(5,6) by (simp add: pending_update_def last_entry_def codec_roundtrip_def codec_short_input_def k_def split: client_call.split)
  moreover have "offchain_index (light_client_module ?S) INFO_KEY = None" using assms(3) by (simp add: execute_block_info m_def)
  ultimately show ?thesis
    unfolding Let_def m_def [symmetric] own_def [symmetric] calls_def [symmetric] imp
    by (auto simp: start_worker_eq c_def k_def map_add_def split: client_call.split)
qed

text \<open>Two blocks with the number 1, of which only the first asks for the price: the second starts a worker for the same request again.\<close>

theorem fork_import_starts_worker_witness:
  "co_progs (fk_workers (fork_import example_lib True [] (genesis_runtime [] ()) [] (fork_import example_lib True [] (genesis_runtime [] ()) request_block (fork_genesis [] ())))) =
     [worker_prog marked_codec echo_json (prefixed [104]) (prefixed [102]) (prefixed [116]),
      worker_prog marked_codec echo_json (prefixed [104]) (prefixed [102]) (prefixed [116])]"
proof -
  let ?g = "fork_genesis [] () :: (raw_origin, nat, unit, unit) fork_node"
  let ?s = "fork_import example_lib True [] (genesis_runtime [] ()) request_block ?g"
  have g: "fork_reachable True example_lib [] () ?g" by (rule fork_reachable.genesis)
  have s: "fork_reachable True example_lib [] () ?s"
    by (rule fork_reachable.step [OF g fork]) (simp_all add: fork_genesis_def raw_origins_def)
  have "accepted (runtime_client_config example_env) 1 (block_client_calls 1 ([] :: (raw_origin \<times> (nat, unit) runtime_call) list)) = []"
    by (simp add: accepted_def block_client_calls_def block_calls_def map_filter_simps)
  moreover have "fork_calls example_env (fk_chains ?s) 1 = [Call_update_ethereum_price [104] [102] [116]]"
    by (simp add: fork_import_def fork_genesis_def Let_def fork_calls_def example_request_accepted)
  moreover note fork_import_starts_worker [OF s, of "[]" "[]" True "genesis_runtime [] ()"]
    fork_import_starts_worker [OF g, of "[]" request_block True "genesis_runtime [] ()"]
  moreover have "co_progs (fk_workers ?g) = []" by (simp add: fork_genesis_def conc_start_def)
  ultimately show ?thesis
    by (simp add: marked_codec_laws example_request_accepted Let_def)
qed

end
