(* ===== verification/Oracle_Network.thy ===== *)
theory Oracle_Network
  imports Chain_Forks
begin

text \<open>
  The oracle as a whole: any number of nodes that import blocks, on one chain or on forks of it, each at its own pace and with the off-chain workers of
  its blocks running in the meantime. A worker's submission goes out as a call of the runtime (\<^verbatim>\<open>SendTransactionTypes\<close> in
  \<^verbatim>\<open>runtime/src/lib.rs\<close>), and a block may contain the submissions of any node.
\<close>

section \<open>The network\<close>

text \<open>The call of the runtime that a call of the client pallet becomes.\<close>

definition into_call :: "client_call \<Rightarrow> ('acc, 'x) runtime_call" where
  "into_call c = LightClient c"

record ('o, 'acc, 'x, 'r) oracle_net =
  net_chains :: "('o, 'acc, 'x) chain list"
  net_nodes :: "('o, 'acc, 'x, 'r) fork_node list"

definition submitted_by :: "('o, 'acc, 'x, 'r) fork_node \<Rightarrow> ('acc, 'x) runtime_call set" where
  "submitted_by s = {into_call c | c. (Submit c, Accepted True) \<in> set (co_log (fk_workers s))}"

definition submitted_calls :: "('o, 'acc, 'x, 'r) oracle_net \<Rightarrow> ('acc, 'x) runtime_call set" where
  "submitted_calls N = (\<Union>s \<in> set (net_nodes N). submitted_by s)"

text \<open>The client calls of a block that nobody signed were submitted by workers of the network.\<close>

definition from_workers :: "('o, 'acc) frame_origins \<Rightarrow> ('acc, 'x) runtime_call set \<Rightarrow> ('o \<times> ('acc, 'x) runtime_call) list \<Rightarrow> bool" where
  "from_workers fo C b \<longleftrightarrow> (\<forall>org c. (org, LightClient c) \<in> set b \<longrightarrow> fo_none fo org \<longrightarrow> LightClient c \<in> C)"

text \<open>A block in which root writes no raw storage is added to a chain, a node imports a block whose parent it has, workers of a node act, or a node joins.\<close>

inductive net_step ::
  "('o, 'acc, 'x, 'e, 'r, 'd, 'w, 'id) node_lib \<Rightarrow> (peer_id \<times> 'acc) list \<Rightarrow> 'r \<Rightarrow> ('o, 'acc, 'x, 'r) oracle_net \<Rightarrow> ('o, 'acc, 'x, 'r) oracle_net \<Rightarrow> bool"
  for lib :: "('o, 'acc, 'x, 'e, 'r, 'd, 'w, 'id) node_lib" and nodes :: "(peer_id \<times> 'acc) list" and r :: 'r where
  author: "parent \<in> set (net_chains N) \<Longrightarrow> list_all (includable_call (env_origins (nl_env lib))) b \<Longrightarrow>
    from_workers (env_origins (nl_env lib)) (submitted_calls N) b \<Longrightarrow> length parent + 1 < 2 ^ 32 \<Longrightarrow>
    no_raw_writes lib (of_nat (length parent) + 1) b \<Longrightarrow>
    net_step lib nodes r N (N\<lparr>net_chains := net_chains N @ [parent @ [b]]\<rparr>)"
| follows: "i < length (net_nodes N) \<Longrightarrow> (parent, S) \<in> set (fk_blocks (net_nodes N ! i)) \<Longrightarrow> parent @ [b] \<in> set (net_chains N) \<Longrightarrow>
    net_step lib nodes r N (N\<lparr>net_nodes := (net_nodes N)[i := fork_import lib new_best parent S b (net_nodes N ! i)]\<rparr>)"
| acts: "i < length (net_nodes N) \<Longrightarrow> work_step True (fk_workers (net_nodes N ! i)) c \<Longrightarrow>
    net_step lib nodes r N (N\<lparr>net_nodes := (net_nodes N)[i := (net_nodes N ! i)\<lparr>fk_workers := c\<rparr>]\<rparr>)"
| joins: "net_step lib nodes r N (N\<lparr>net_nodes := net_nodes N @ [fork_genesis nodes r]\<rparr>)"

inductive net_reachable ::
  "('o, 'acc, 'x, 'e, 'r, 'd, 'w, 'id) node_lib \<Rightarrow> (peer_id \<times> 'acc) list \<Rightarrow> 'r \<Rightarrow> ('o, 'acc, 'x, 'r) oracle_net \<Rightarrow> bool"
  for lib :: "('o, 'acc, 'x, 'e, 'r, 'd, 'w, 'id) node_lib" and nodes :: "(peer_id \<times> 'acc) list" and r :: 'r where
  empty: "net_reachable lib nodes r \<lparr>net_chains = [[]], net_nodes = []\<rparr>"
| step: "net_reachable lib nodes r N \<Longrightarrow> net_step lib nodes r N N' \<Longrightarrow> net_reachable lib nodes r N'"

section \<open>What holds in the network\<close>

text \<open>No block of the chain writes raw storage.\<close>

definition raw_free :: "('o, 'acc, 'x, 'e, 'r, 'd, 'w, 'id) node_lib \<Rightarrow> ('o, 'acc, 'x) chain \<Rightarrow> bool" where
  "raw_free lib bs \<longleftrightarrow> (\<forall>i < length bs. no_raw_writes lib (of_nat i + 1) (bs ! i))"

lemma raw_free_snoc: "raw_free lib (bs @ [b]) \<longleftrightarrow> raw_free lib bs \<and> no_raw_writes lib (of_nat (length bs) + 1) b"
  by (auto simp: raw_free_def nth_append less_Suc_eq)

text \<open>
  Every node has imported chains of the network only; a block holds what passed its validation, and of unsigned client calls only what workers
  have submitted.
\<close>

definition net_inv ::
  "('o, 'acc, 'x, 'e, 'r, 'd, 'w, 'id) node_lib \<Rightarrow> (peer_id \<times> 'acc) list \<Rightarrow> 'r \<Rightarrow> ('o, 'acc, 'x, 'r) oracle_net \<Rightarrow> bool" where
  "net_inv lib nodes r N \<longleftrightarrow> [] \<in> set (net_chains N) \<and>
     (\<forall>s \<in> set (net_nodes N). set (fk_chains s) \<subseteq> set (net_chains N) \<and> fork_reachable True lib nodes r s) \<and>
     (\<forall>bs \<in> set (net_chains N). length bs < 2 ^ 32 \<and> raw_free lib bs \<and>
        (\<forall>b \<in> set bs. list_all (includable_call (env_origins (nl_env lib))) b \<and> from_workers (env_origins (nl_env lib)) (submitted_calls N) b))"

lemma from_workers_mono: "from_workers fo C b \<Longrightarrow> C \<subseteq> D \<Longrightarrow> from_workers fo D b"
  by (auto simp: from_workers_def)

text \<open>A node that changes in one place keeps what it has submitted.\<close>

lemma net_inv_update:
  assumes inv: "net_inv lib nodes r N" and i: "i < length (net_nodes N)"
    and s: "fork_reachable True lib nodes r s" "set (fk_chains s) \<subseteq> set (net_chains N)"
    and sub: "submitted_by (net_nodes N ! i) \<subseteq> submitted_by s"
  shows "net_inv lib nodes r (N\<lparr>net_nodes := (net_nodes N)[i := s]\<rparr>)"
proof -
  let ?N = "N\<lparr>net_nodes := (net_nodes N)[i := s]\<rparr>"
  have "submitted_by t \<subseteq> submitted_calls ?N" if "t \<in> set (net_nodes N)" for t
  proof -
    from that obtain j where j: "j < length (net_nodes N)" "t = net_nodes N ! j" by (metis in_set_conv_nth)
    then have "net_nodes ?N ! j \<in> set (net_nodes ?N)" by simp
    then have "submitted_by (net_nodes ?N ! j) \<subseteq> submitted_calls ?N" unfolding submitted_calls_def by blast
    with j sub show ?thesis by (cases "j = i") auto
  qed
  then have "submitted_calls N \<subseteq> submitted_calls ?N" unfolding submitted_calls_def [of N] by blast
  with inv have "from_workers (env_origins (nl_env lib)) (submitted_calls ?N) b" if "bs \<in> set (net_chains N)" "b \<in> set bs" for b bs
    using that unfolding net_inv_def by (blast intro: from_workers_mono)
  moreover have "set (fk_chains t) \<subseteq> set (net_chains N) \<and> fork_reachable True lib nodes r t" if "t \<in> set ((net_nodes N)[i := s])" for t
    using that inv s set_update_subset_insert [of "net_nodes N" i s] unfolding net_inv_def by blast
  ultimately show ?thesis using inv by (simp add: net_inv_def)
qed

lemma submitted_by_import: "submitted_by (fork_import lib new_best parent S b s) = submitted_by s"
  by (simp add: submitted_by_def fork_import_def Let_def start_worker_keeps)

lemma submitted_by_work: "work_step e (fk_workers s) c \<Longrightarrow> submitted_by s \<subseteq> submitted_by (s\<lparr>fk_workers := c\<rparr>)"
  by (auto simp: submitted_by_def elim!: work_stepE act_stepE)

lemma net_reachable_inv: "net_reachable lib nodes r N \<Longrightarrow> net_inv lib nodes r N"
proof (induction rule: net_reachable.induct)
  case empty
  show ?case by (simp add: net_inv_def raw_free_def)
next
  case (step N N')
  from step.hyps(2) show ?case
  proof cases
    case (author parent b)
    with step.IH show ?thesis by (auto simp: net_inv_def submitted_calls_def raw_free_snoc)
  next
    case (follows i parent S b new_best)
    let ?s = "net_nodes N ! i"
    have s: "fork_reachable True lib nodes r ?s" "set (fk_chains ?s) \<subseteq> set (net_chains N)"
      using step.IH follows(2) by (simp_all add: net_inv_def)
    have b: "list_all (includable_call (env_origins (nl_env lib))) b" "length parent + 1 < 2 ^ 32"
        "no_raw_writes lib (of_nat (length parent) + 1) b"
      using step.IH follows(4) by (fastforce simp: net_inv_def raw_free_snoc)+
    from fork_reachable.step [OF s(1) fork [OF follows(3) b]] s(2) follows(4) show ?thesis
      unfolding follows(1) by (intro net_inv_update [OF step.IH follows(2)]) (auto simp: fork_import_def Let_def submitted_by_import [unfolded fork_import_def Let_def])
  next
    case (acts i c)
    have s: "fork_reachable True lib nodes r (net_nodes N ! i)" "set (fk_chains (net_nodes N ! i)) \<subseteq> set (net_chains N)"
      using step.IH acts(2) by (simp_all add: net_inv_def)
    from fork_reachable.step [OF s(1) busy [OF acts(3)]] s(2) show ?thesis
      unfolding acts(1) by (intro net_inv_update [OF step.IH acts(2) _ _ submitted_by_work [OF acts(3)]]) simp_all
  next
    case joins
    with step.IH fork_reachable.genesis [of True lib nodes r] show ?thesis
      by (fastforce simp: net_inv_def fork_genesis_def submitted_calls_def intro: from_workers_mono)
  qed
qed

section \<open>Where the prices of the chain come from\<close>

lemma execute_block_events:
  "no_raw_writes lib n b \<Longrightarrow> client_events (light_client_module (execute_block lib n b S)) = client_events (light_client_module S) @
     List.map_filter (\<lambda>((org, bn), c). call_event (runtime_client_config (nl_env lib)) org c) (block_client_calls n b)"
  by (simp add: execute_block_client run_client_events)

lemma block_client_call_in: "((org, n), c) \<in> set (block_client_calls n b) \<Longrightarrow> (org, LightClient c) \<in> set b"
  by (auto simp: block_client_calls_def block_calls_def elim!: client_calls.elims dest!: in_map_filterD)

text \<open>A price event on a chain was caused by an unsigned submission in one of its blocks.\<close>

lemma block_price_events:
  assumes "SubmitEthereumPrice who p \<in> set (client_events (light_client_module (execute_block lib n b S)))"
    and "SubmitEthereumPrice who p \<notin> set (client_events (light_client_module S))" "no_raw_writes lib n b"
  shows "who = None \<and> (\<exists>org. (org, LightClient (Call_submit_ethereum_price p)) \<in> set b \<and> fo_none (env_origins (nl_env lib)) org)"
proof -
  obtain org bn c where x: "((org, bn), c) \<in> set (block_client_calls n b)" "call_event (runtime_client_config (nl_env lib)) org c = Some (SubmitEthereumPrice who p)"
    using assms by (auto simp: execute_block_events dest!: in_map_filterD)
  then have "c = Call_submit_ethereum_price p" "who = None" "fo_none (env_origins (nl_env lib)) org"
    by (cases c; auto simp: runtime_client_config_def split: if_splits)+
  moreover have "(org, LightClient c) \<in> set b"
    using x(1) block_client_calls_number [OF x(1)] block_client_call_in [of org n c b] by simp
  ultimately show ?thesis by auto
qed

lemma chain_price_events:
  assumes "SubmitEthereumPrice who p \<in> set (client_events (light_client_module (chain_state lib 0 bs (genesis_runtime nodes r))))" "raw_free lib bs"
  shows "who = None \<and> (\<exists>b \<in> set bs. \<exists>org. (org, LightClient (Call_submit_ethereum_price p)) \<in> set b \<and> fo_none (env_origins (nl_env lib)) org)"
  using assms
proof (induction bs rule: rev_induct)
  case Nil
  then show ?case by (simp add: genesis_runtime_def empty_client_state_def)
next
  case (snoc b bs)
  let ?S = "forget_index (chain_state lib 0 bs (genesis_runtime nodes r))"
  show ?case
  proof (cases "SubmitEthereumPrice who p \<in> set (client_events (light_client_module ?S))")
    case True
    with snoc.IH snoc.prems(2) show ?thesis by (auto simp: raw_free_snoc)
  next
    case False
    from block_price_events [OF snoc.prems(1) [unfolded chain_state_snoc] False] snoc.prems(2) show ?thesis by (auto simp: raw_free_snoc)
  qed
qed

section \<open>Properties\<close>

text \<open>
  C5. In a network whose blocks hold no unsigned client call but the submissions of its own nodes' workers, and no raw write of the storage, on whatever forks, whatever the
  interleaving of blocks, imports and workers and even when locks expire under their holders: a price event on any chain that a node has imported
  carries the text 0, or a price that the exchange answered to a worker of some node before; and two nodes that have imported the same chain
  have the same storage in all pallets after it.
\<close>

theorem network_prices_were_fetched:
  assumes "net_reachable lib nodes r N" "codec_roundtrip (env_codec (nl_env lib))" "s \<in> set (net_nodes N)" "(bs, S) \<in> set (fk_blocks s)"
  shows "(\<forall>who p. SubmitEthereumPrice who p \<in> set (client_events (light_client_module S)) \<longrightarrow>
      who = None \<and> (p = lit ''0'' \<or>
        (\<exists>t \<in> set (net_nodes N). \<exists>res d. (Ask ticker_request, Body res) \<in> set (co_log (fk_workers t)) \<and>
           fetched_client (nl_json lib) res = Ok d \<and> p = lc_price d))) \<and>
    (\<forall>t \<in> set (net_nodes N). \<forall>T. (bs, T) \<in> set (fk_blocks t) \<longrightarrow> T = S)"
proof (intro conjI allI impI ballI)
  note inv = net_reachable_inv [OF assms(1)]
  have reach: "fork_reachable True lib nodes r t" if "t \<in> set (net_nodes N)" for t
    using inv that by (simp add: net_inv_def)
  note S = fork_reachable_states [OF reach [OF assms(3)] assms(4)]
  show "T = S" if "t \<in> set (net_nodes N)" "(bs, T) \<in> set (fk_blocks t)" for t T
    using fork_reachable_states [OF reach [OF that(1)] that(2)] S by simp
  fix who p
  assume ev: "SubmitEthereumPrice who p \<in> set (client_events (light_client_module S))"
  have bs: "bs \<in> set (net_chains N)" using inv assms(3,4) by (force simp: net_inv_def)
  from inv bs have "raw_free lib bs" by (simp add: net_inv_def)
  from chain_price_events [OF ev [unfolded S] this] obtain b org where b: "who = None" "b \<in> set bs"
    "(org, LightClient (Call_submit_ethereum_price p)) \<in> set b" "fo_none (env_origins (nl_env lib)) org" by blast
  then show "who = None" by simp
  from inv bs b(2) have "from_workers (env_origins (nl_env lib)) (submitted_calls N) b" by (simp add: net_inv_def)
  with b have "LightClient (Call_submit_ethereum_price p) \<in> submitted_calls N" by (auto simp: from_workers_def)
  then obtain t where t: "t \<in> set (net_nodes N)" "(Submit (Call_submit_ethereum_price p), Accepted True) \<in> set (co_log (fk_workers t))"
    by (auto simp: submitted_calls_def submitted_by_def into_call_def)
  from submitted_prices_were_fetched [OF fork_reachable_workers [OF reach [OF t(1)]] assms(2) t(2)] t(1)
  show "p = lit ''0'' \<or> (\<exists>t \<in> set (net_nodes N). \<exists>res d. (Ask ticker_request, Body res) \<in> set (co_log (fk_workers t)) \<and>
      fetched_client (nl_json lib) res = Ok d \<and> p = lc_price d)"
    by auto
qed

text \<open>
  A network of one node that imports a request on one fork; the submission of its worker goes into a block of another fork.
\<close>

lemma work_step_weaken: "work_step False c c' \<Longrightarrow> work_step True c c'"
  by (auto elim!: work_stepE intro: action)

lemma net_works:
  assumes "(work_step False)\<^sup>*\<^sup>* c c'" "net_reachable lib nodes r \<lparr>net_chains = bs, net_nodes = [s]\<rparr>" "fk_workers s = c"
  shows "net_reachable lib nodes r \<lparr>net_chains = bs, net_nodes = [s\<lparr>fk_workers := c'\<rparr>]\<rparr>"
  using assms
proof (induction rule: rtranclp_induct)
  case base
  then show ?case by (cases s) simp
next
  case (step c1 c2)
  from net_reachable.step [OF step.IH [OF step.prems] acts [of 0 _ c2]] work_step_weaken [OF step.hyps(2)] show ?case by simp
qed

lemma net_follows:
  assumes "net_reachable lib nodes r \<lparr>net_chains = cs, net_nodes = [s]\<rparr>" "(parent, S) \<in> set (fk_blocks s)" "parent @ [b] \<in> set cs"
  shows "net_reachable lib nodes r \<lparr>net_chains = cs, net_nodes = [fork_import lib new_best parent S b s]\<rparr>"
  using net_reachable.step [OF assms(1) follows [of 0 _ parent S b]] assms(2,3) by simp

abbreviation price_block :: "(raw_origin \<times> (nat, unit) runtime_call) list" where
  "price_block \<equiv> [(Unsigned, LightClient (Call_submit_ethereum_price [49]))]"

text \<open>The worker of the request runs to its end and has submitted the price.\<close>

lemma helpful_honest: "honest_lock helpful_host (\<lambda>w. \<not> w)"
  by (simp add: honest_lock_def helpful_host_def)

lemma example_starts:
  "\<exists>c. co_holder c = None \<and> co_log c = [] \<and>
     fk_workers (fork_import example_lib True [] (genesis_runtime [] ()) request_block (fork_genesis [] ())) =
       c\<lparr>co_progs := [worker_prog marked_codec echo_json (prefixed [104]) (prefixed [102]) (prefixed [116])]\<rparr>"
proof -
  let ?S = "execute_block example_lib 1 request_block (forget_index (genesis_runtime [] ()))"
  let ?c = "(conc_start Map.empty)\<lparr>co_storage := offchain_index (light_client_module ?S)\<rparr>"
  have "offchain_index (light_client_module ?S) (derived_key marked_codec 1) =
      block_entry marked_codec (runtime_client_config example_env) 1 (block_client_calls 1 request_block)"
    using index_of_block [of example_lib 1 request_block "genesis_runtime [] ()" 1] by (simp add: marked_codec_laws)
  from pending_of_block [where pre = "[]" and storage = "offchain_index (light_client_module ?S)", OF _ _ this]
  have "pending_update marked_codec 1 (co_storage ?c) = Some ([104], [102], [116])"
    by (simp add: example_request_accepted marked_codec_laws)
  then show ?thesis
    by (intro exI [of _ ?c]) (simp add: fork_import_def fork_genesis_def Let_def start_worker_eq conc_start_def)
qed

lemma example_worker:
  "\<exists>c. (work_step False)\<^sup>*\<^sup>* (fk_workers (fork_import example_lib True [] (genesis_runtime [] ()) request_block (fork_genesis [] ()))) c \<and>
     (Submit (Call_submit_ethereum_price [49]), Accepted True) \<in> set (co_log c)"
proof -
  let ?p = "worker_prog marked_codec echo_json (prefixed [104]) (prefixed [102]) (prefixed [116])"
  obtain c where c: "co_holder c = None" "co_log c = []"
    "fk_workers (fork_import example_lib True [] (genesis_runtime [] ()) request_block (fork_genesis [] ())) = c\<lparr>co_progs := [?p]\<rparr>"
    using example_starts by blast
  let ?st = "\<lparr>os_world = False, os_storage = co_storage c, os_trace = []\<rparr>"
  have "True" "\<not> os_world ?st" by simp_all
  from worker_reliable [OF helpful_reliable this helpful_answers echo_json_prints echo_json_valid marked_codec_roundtrip
      utf8_valid_prefixed [of "[102]"] utf8_valid_prefixed [of "[116]"]]
  obtain st' tr where w: "run_prog helpful_host ?p ?st = (Ok (), st')"
    "os_trace st' = tr @ [Submitted (Call_submit_ethereum_price [49]) True]"
    unfolding run_worker_prog by (metis append_Nil light_client.select_convs(1) ocw_state.select_convs(3))
  from run_is_schedule [OF disciplined_worker helpful_honest, of "c\<lparr>co_progs := [?p]\<rparr>" 0 ?st, OF _ _ _ _ _ w(1)] c
  obtain c' where c': "(work_step False)\<^sup>*\<^sup>* (c\<lparr>co_progs := [?p]\<rparr>) c'"
    "List.map_filter submission (os_trace st') = List.map_filter submit_action (co_log c')"
    by (auto simp: map_filter_simps)
  from c'(2) w(2) have "(Call_submit_ethereum_price [49], True) \<in> set (List.map_filter submit_action (co_log c'))"
    by (auto simp: map_filter_append map_filter_simps dest: sym)
  then have "(Submit (Call_submit_ethereum_price [49]), Accepted True) \<in> set (co_log c')"
    by (auto elim!: submit_action.elims dest!: in_map_filterD)
  with c' c(3) show ?thesis by metis
qed

lemma example_network:
  "\<exists>s S. net_reachable example_lib [] () \<lparr>net_chains = [[], [request_block], [[]], [[], price_block]], net_nodes = [s]\<rparr> \<and>
     ([[], price_block], S) \<in> set (fk_blocks s) \<and> SubmitEthereumPrice None [49] \<in> set (client_events (light_client_module S))"
proof -
  let ?g = "fork_genesis [] () :: (raw_origin, nat, unit, unit) fork_node" and ?S0 = "genesis_runtime [] () :: (nat, unit) runtime_state"
  let ?f = "fork_import example_lib True [] ?S0 request_block ?g"
  obtain c where c: "(work_step False)\<^sup>*\<^sup>* (fk_workers ?f) c" "(Submit (Call_submit_ethereum_price [49]), Accepted True) \<in> set (co_log c)"
    using example_worker by blast
  let ?s = "?f\<lparr>fk_workers := c\<rparr>"
  let ?S1 = "execute_block example_lib 1 [] (forget_index ?S0)"
  let ?S2 = "execute_block example_lib 2 price_block (forget_index ?S1)"
  have "net_reachable example_lib [] () \<lparr>net_chains = [[]], net_nodes = [?g]\<rparr>"
    using net_reachable.step [OF net_reachable.empty joins, of example_lib "[]" "()"] by simp
  from net_reachable.step [OF this author [of "[]" _ _ request_block]]
  have "net_reachable example_lib [] () \<lparr>net_chains = [[], [request_block]], net_nodes = [?g]\<rparr>"
    by (simp add: from_workers_def raw_origins_def)
  from net_reachable.step [OF this author [of "[]" _ _ "[]"]]
  have "net_reachable example_lib [] () \<lparr>net_chains = [[], [request_block], [[]]], net_nodes = [?g]\<rparr>"
    by (simp add: from_workers_def)
  from net_works [OF c(1) net_follows [OF this, of "[]" ?S0]]
  have s: "net_reachable example_lib [] () \<lparr>net_chains = [[], [request_block], [[]]], net_nodes = [?s]\<rparr>"
    by (simp add: fork_genesis_def)
  have "from_workers raw_origins (submitted_calls \<lparr>net_chains = [[], [request_block], [[]]], net_nodes = [?s]\<rparr>) price_block"
    using c(2) by (auto simp: from_workers_def submitted_calls_def submitted_by_def into_call_def)
  with net_reachable.step [OF s author [of "[[]]" _ _ price_block]]
  have "net_reachable example_lib [] () \<lparr>net_chains = [[], [request_block], [[]], [[], price_block]], net_nodes = [?s]\<rparr>"
    by (simp add: validate_unsigned_def)
  from net_follows [OF net_follows [OF this, of "[]" ?S0 "[]" False], of "[[]]" ?S1 price_block True]
  have "net_reachable example_lib [] () \<lparr>net_chains = [[], [request_block], [[]], [[], price_block]],
      net_nodes = [fork_import example_lib True [[]] ?S1 price_block (fork_import example_lib False [] ?S0 [] ?s)]\<rparr>"
    by (simp add: fork_import_def fork_genesis_def Let_def)
  moreover have "SubmitEthereumPrice None [49] \<in> set (client_events (light_client_module ?S2))"
    by (rule block_deposits_price) (simp_all add: raw_origins_def)
  moreover have "([[], price_block], ?S2) \<in> set (fk_blocks (fork_import example_lib True [[]] ?S1 price_block (fork_import example_lib False [] ?S0 [] ?s)))"
    by (simp add: fork_import_def Let_def)
  ultimately show ?thesis by blast
qed

theorem network_prices_were_fetched_witness:
  "\<exists>s S. net_reachable example_lib [] () \<lparr>net_chains = [[], [request_block], [[]], [[], price_block]], net_nodes = [s]\<rparr> \<and>
     ([[], price_block], S) \<in> set (fk_blocks s) \<and> SubmitEthereumPrice None [49] \<in> set (client_events (light_client_module S)) \<and>
     (\<exists>res d. (Ask ticker_request, Body res) \<in> set (co_log (fk_workers s)) \<and> fetched_client echo_json res = Ok d \<and> lc_price d = [49])"
proof -
  from example_network obtain s S where s: "net_reachable example_lib [] () \<lparr>net_chains = [[], [request_block], [[]], [[], price_block]], net_nodes = [s]\<rparr>"
    "([[], price_block], S) \<in> set (fk_blocks s)" "SubmitEthereumPrice None [49] \<in> set (client_events (light_client_module S))" by blast
  from network_prices_were_fetched [OF s(1) _ _ s(2), THEN conjunct1, rule_format, OF _ _ s(3)]
  have "\<exists>res d. (Ask ticker_request, Body res) \<in> set (co_log (fk_workers s)) \<and> fetched_client echo_json res = Ok d \<and> [49] = lc_price d"
    by (simp add: marked_codec_laws lit_def)
  with s show ?thesis by metis
qed

end
