(* ===== verification/Chain_Spec.thy ===== *)
theory Chain_Spec
  imports Runtime
begin

text \<open>
  The chain specifications, \<^verbatim>\<open>node/src/chain_spec.rs\<close>: keys and accounts from seeds, the two
  preset chains and the genesis configuration they share. Key derivation and base58 are
  library code and arguments.
\<close>

section \<open>Keys\<close>

record ('aura, 'grandpa, 'sr, 'acc) node_crypto =
  aura_from_string :: "str \<Rightarrow> 'aura option"
  grandpa_from_string :: "str \<Rightarrow> 'grandpa option"
  sr25519_from_string :: "str \<Rightarrow> 'sr option"
  into_account :: "'sr \<Rightarrow> 'acc"
  bs58_decode :: "str \<Rightarrow> bytes option"

text \<open>\<open>from_string\<close> is \<^verbatim>\<open>Pair::from_string(_, None)\<close> followed by \<^verbatim>\<open>public\<close>.\<close>

definition get_from_seed :: "(str \<Rightarrow> 'pub option) \<Rightarrow> str \<Rightarrow> ('pub, 'e) outcome" where
  "get_from_seed from_string seed = unwrap_option (from_string (lit ''//'' @ seed))"

definition get_account_id_from_seed ::
  "('aura, 'grandpa, 'sr, 'acc) node_crypto \<Rightarrow> str \<Rightarrow> ('acc, 'e) outcome" where
  "get_account_id_from_seed cr seed =
     obind (get_from_seed (sr25519_from_string cr) seed) (\<lambda>p. Ok (into_account cr p))"

definition authority_keys_from_seed ::
  "('aura, 'grandpa, 'sr, 'acc) node_crypto \<Rightarrow> str \<Rightarrow> ('aura \<times> 'grandpa, 'e) outcome" where
  "authority_keys_from_seed cr s =
     obind (get_from_seed (aura_from_string cr) s) (\<lambda>a.
     obind (get_from_seed (grandpa_from_string cr) s) (\<lambda>g. Ok (a, g)))"

text \<open>A \<^verbatim>\<open>vec!\<close> of computed elements, and \<^verbatim>\<open>v[i]\<close>.\<close>

fun all_ok :: "('a \<Rightarrow> ('b, 'e) outcome) \<Rightarrow> 'a list \<Rightarrow> ('b list, 'e) outcome" where
  "all_ok f [] = Ok []"
| "all_ok f (x # xs) = obind (f x) (\<lambda>y. obind (all_ok f xs) (\<lambda>ys. Ok (y # ys)))"

definition vec_index :: "'a list \<Rightarrow> nat \<Rightarrow> ('a, 'e) outcome" where
  "vec_index xs i = (if i < length xs then Ok (xs ! i) else Panic)"

section \<open>Genesis\<close>

record ('aura, 'grandpa, 'acc) genesis_config =
  g_code :: bytes
  g_balances :: "('acc \<times> u128) list"
  g_aura :: "'aura list"
  g_grandpa :: "('grandpa \<times> u64) list"
  g_sudo :: 'acc
  g_nodes :: "(peer_id \<times> 'acc) list"

definition FIRST_PEER :: str where
  "FIRST_PEER = lit ''12D3KooWBmAwcd4PJNJvfV89HwE48nwkRmAgo8Vy3uQEyNNHBox2''"

definition SECOND_PEER :: str where
  "SECOND_PEER = lit ''12D3KooWQYV9dGMFoRzNStwpXztXaBUjtPqi6aU76ZgUriHhKust''"

definition testnet_genesis ::
  "('aura, 'grandpa, 'sr, 'acc) node_crypto \<Rightarrow> bytes \<Rightarrow> ('aura \<times> 'grandpa) list \<Rightarrow> 'acc \<Rightarrow> 'acc list \<Rightarrow> bool \<Rightarrow>
     (('aura, 'grandpa, 'acc) genesis_config, 'e) outcome" where
  "testnet_genesis cr wasm_binary initial_authorities root_key endowed_accounts enable_println =
     obind (unwrap_option (bs58_decode cr FIRST_PEER)) (\<lambda>p0.
     obind (vec_index endowed_accounts 0) (\<lambda>a0.
     obind (unwrap_option (bs58_decode cr SECOND_PEER)) (\<lambda>p1.
     obind (vec_index endowed_accounts 1) (\<lambda>a1.
       Ok \<lparr>g_code = wasm_binary,
           g_balances = map (\<lambda>k. (k, push_bit 60 1)) endowed_accounts,
           g_aura = map (\<lambda>x. fst x) initial_authorities,
           g_grandpa = map (\<lambda>x. (snd x, 1)) initial_authorities,
           g_sudo = root_key,
           g_nodes = [(PeerId p0, a0), (PeerId p1, a1)]\<rparr>))))"

datatype chain_type = Development | Local_Testnet

text \<open>The genesis of a specification is a closure, called when the chain is built.\<close>

record ('aura, 'grandpa, 'acc, 'e) chain_spec =
  cs_name :: str
  cs_id :: str
  cs_type :: chain_type
  cs_genesis :: "unit \<Rightarrow> (('aura, 'grandpa, 'acc) genesis_config, 'e) outcome"
  cs_boot_nodes :: "str list"

definition preset_genesis ::
  "('aura, 'grandpa, 'sr, 'acc) node_crypto \<Rightarrow> bytes \<Rightarrow> str list \<Rightarrow> str list \<Rightarrow>
     (('aura, 'grandpa, 'acc) genesis_config, 'e) outcome" where
  "preset_genesis cr wasm_binary authorities endowed =
     obind (all_ok (authority_keys_from_seed cr) authorities) (\<lambda>initial_authorities.
     obind (get_account_id_from_seed cr (lit ''Alice'')) (\<lambda>root_key.
     obind (all_ok (get_account_id_from_seed cr) endowed) (\<lambda>endowed_accounts.
       testnet_genesis cr wasm_binary initial_authorities root_key endowed_accounts True)))"

definition dev_endowed :: "str list" where
  "dev_endowed = map lit [''Alice'', ''Bob'', ''Alice//stash'', ''Bob//stash'']"

definition local_endowed :: "str list" where
  "local_endowed = map lit [''Alice'', ''Bob'', ''Charlie'', ''Dave'', ''Eve'', ''Ferdie'',
     ''Alice//stash'', ''Bob//stash'', ''Charlie//stash'', ''Dave//stash'', ''Eve//stash'', ''Ferdie//stash'']"

definition development_config ::
  "('aura, 'grandpa, 'sr, 'acc) node_crypto \<Rightarrow> bytes option \<Rightarrow> str + ('aura, 'grandpa, 'acc, 'e) chain_spec" where
  "development_config cr WASM_BINARY =
     (case WASM_BINARY of
        None \<Rightarrow> Inl (lit ''Development wasm not available'')
      | Some wasm_binary \<Rightarrow> Inr
          \<lparr>cs_name = lit ''Development'', cs_id = lit ''dev'', cs_type = Development,
           cs_genesis = (\<lambda>_. preset_genesis cr wasm_binary [lit ''Alice''] dev_endowed),
           cs_boot_nodes = []\<rparr>)"

definition local_testnet_config ::
  "('aura, 'grandpa, 'sr, 'acc) node_crypto \<Rightarrow> bytes option \<Rightarrow> str + ('aura, 'grandpa, 'acc, 'e) chain_spec" where
  "local_testnet_config cr WASM_BINARY =
     (case WASM_BINARY of
        None \<Rightarrow> Inl (lit ''Development wasm not available'')
      | Some wasm_binary \<Rightarrow> Inr
          \<lparr>cs_name = lit ''Local Testnet'', cs_id = lit ''local_testnet'', cs_type = Local_Testnet,
           cs_genesis = (\<lambda>_. preset_genesis cr wasm_binary [lit ''Alice'', lit ''Bob''] local_endowed),
           cs_boot_nodes = []\<rparr>)"

section \<open>What the presets contain\<close>

text \<open>The library accepts every derivation path \<^verbatim>\<open>//seed\<close> and the two base58 texts.\<close>

definition seeds_derive :: "('aura, 'grandpa, 'sr, 'acc) node_crypto \<Rightarrow> bool" where
  "seeds_derive cr \<longleftrightarrow> (\<forall>s \<in> set local_endowed.
     aura_from_string cr (lit ''//'' @ s) \<noteq> None \<and> grandpa_from_string cr (lit ''//'' @ s) \<noteq> None \<and>
     sr25519_from_string cr (lit ''//'' @ s) \<noteq> None)"

definition peers_decode :: "('aura, 'grandpa, 'sr, 'acc) node_crypto \<Rightarrow> bool" where
  "peers_decode cr \<longleftrightarrow> (\<forall>s \<in> {FIRST_PEER, SECOND_PEER}. \<exists>bs. bs58_decode cr s = Some bs \<and> length bs \<le> length s)"

definition account_of :: "('aura, 'grandpa, 'sr, 'acc) node_crypto \<Rightarrow> str \<Rightarrow> 'acc" where
  "account_of cr s = into_account cr (the (sr25519_from_string cr (lit ''//'' @ s)))"

definition authority_of :: "('aura, 'grandpa, 'sr, 'acc) node_crypto \<Rightarrow> str \<Rightarrow> 'aura \<times> 'grandpa" where
  "authority_of cr s = (the (aura_from_string cr (lit ''//'' @ s)), the (grandpa_from_string cr (lit ''//'' @ s)))"

lemma all_ok_map: "(\<And>x. x \<in> set xs \<Longrightarrow> f x = Ok (g x)) \<Longrightarrow> all_ok f xs = Ok (map g xs)"
  by (induction xs) auto

lemma account_from_seed: "seeds_derive cr \<Longrightarrow> s \<in> set local_endowed \<Longrightarrow> get_account_id_from_seed cr s = Ok (account_of cr s)"
  by (force simp: seeds_derive_def get_account_id_from_seed_def get_from_seed_def account_of_def)

lemma authority_from_seed: "seeds_derive cr \<Longrightarrow> s \<in> set local_endowed \<Longrightarrow> authority_keys_from_seed cr s = Ok (authority_of cr s)"
  by (force simp: seeds_derive_def authority_keys_from_seed_def get_from_seed_def authority_of_def)

lemma preset_genesis_ok:
  fixes cr :: "('aura, 'grandpa, 'sr, 'acc) node_crypto"
  assumes "seeds_derive cr" "peers_decode cr" "set authorities \<subseteq> set local_endowed" "set endowed \<subseteq> set local_endowed"
    and "2 \<le> length endowed"
  obtains p0 p1 where "bs58_decode cr FIRST_PEER = Some p0" "bs58_decode cr SECOND_PEER = Some p1"
    "length p0 \<le> length FIRST_PEER" "length p1 \<le> length SECOND_PEER"
    "(preset_genesis cr wasm authorities endowed :: (('aura, 'grandpa, 'acc) genesis_config, 'e) outcome) = Ok
       \<lparr>g_code = wasm, g_balances = map (\<lambda>s. (account_of cr s, push_bit 60 1)) endowed,
        g_aura = map (\<lambda>s. fst (authority_of cr s)) authorities,
        g_grandpa = map (\<lambda>s. (snd (authority_of cr s), 1)) authorities,
        g_sudo = account_of cr (lit ''Alice''),
        g_nodes = [(PeerId p0, account_of cr (endowed ! 0)), (PeerId p1, account_of cr (endowed ! 1))]\<rparr>"
proof -
  obtain p0 p1 where p: "bs58_decode cr FIRST_PEER = Some p0" "bs58_decode cr SECOND_PEER = Some p1"
    "length p0 \<le> length FIRST_PEER" "length p1 \<le> length SECOND_PEER"
    using assms(2) by (auto simp: peers_decode_def)
  have "lit ''Alice'' \<in> set local_endowed" by (simp add: local_endowed_def)
  moreover have "(all_ok (get_account_id_from_seed cr) endowed :: ('acc list, 'e) outcome) = Ok (map (account_of cr) endowed)"
    using assms by (intro all_ok_map) (auto intro: account_from_seed)
  moreover have "(all_ok (authority_keys_from_seed cr) authorities :: (('aura \<times> 'grandpa) list, 'e) outcome) = Ok (map (authority_of cr) authorities)"
    using assms by (intro all_ok_map) (auto intro: authority_from_seed)
  ultimately show ?thesis
    using assms(1,5) p
    by (intro that [OF p]) (auto simp: preset_genesis_def testnet_genesis_def account_from_seed vec_index_def comp_def)
qed

text \<open>The hypotheses hold together: keys are their own text, base58 is copied.\<close>

definition plain_crypto :: "(str, str, str, str) node_crypto" where
  "plain_crypto = \<lparr>aura_from_string = Some, grandpa_from_string = Some, sr25519_from_string = Some,
     into_account = (\<lambda>p. p), bs58_decode = Some\<rparr>"

lemma plain_crypto_laws: "seeds_derive plain_crypto" "peers_decode plain_crypto"
  by (simp_all add: seeds_derive_def peers_decode_def plain_crypto_def)

lemma sum_list_replicate_word: "sum_list (replicate n (x :: u128)) = of_nat n * x"
  by (induction n) (simp_all add: algebra_simps)

lemma unat_endowment:
  assumes "n < 2 ^ 68"
  shows "unat (sum_list (replicate n (push_bit 60 1 :: u128))) = n * 2 ^ 60"
proof -
  have "n * 2 ^ 60 < (2 :: nat) ^ 128" using assms by simp
  then have "n * 2 ^ 60 = unat (of_nat (n * 2 ^ 60) :: u128)"
    by (simp only: unat_of_nat) (simp add: unsigned_of_nat take_bit_nat_eq_self)
  also have "(of_nat (n * 2 ^ 60) :: u128) = sum_list (replicate n (push_bit 60 1))"
    by (simp add: sum_list_replicate_word)
  finally show ?thesis by simp
qed

lemma preset_genesis_facts:
  fixes cr :: "('aura, 'grandpa, 'sr, 'acc) node_crypto"
  assumes "seeds_derive cr" "peers_decode cr" "set authorities \<subseteq> set local_endowed" "set endowed \<subseteq> set local_endowed"
    and "2 \<le> length endowed" "length endowed < 2 ^ 68"
  shows "\<exists>g. (preset_genesis cr wasm authorities endowed :: (('aura, 'grandpa, 'acc) genesis_config, 'e) outcome) = Ok g \<and>
       g_code g = wasm \<and> length (g_balances g) = length endowed \<and>
       unat (sum_list (map snd (g_balances g))) = length endowed * 2 ^ 60 \<and>
       list_all (\<lambda>(a, b). ExistentialDeposit \<le> b) (g_balances g) \<and>
       length (g_aura g) = length authorities \<and> length (g_grandpa g) = length authorities \<and>
       g_sudo g = account_of cr (lit ''Alice'') \<and> map snd (g_nodes g) = take 2 (map fst (g_balances g))"
proof (rule preset_genesis_ok [OF assms(1-5), of wasm])
  fix p0 p1
  assume g: "(preset_genesis cr wasm authorities endowed :: (('aura, 'grandpa, 'acc) genesis_config, 'e) outcome) = Ok
       \<lparr>g_code = wasm, g_balances = map (\<lambda>s. (account_of cr s, push_bit 60 1)) endowed,
        g_aura = map (\<lambda>s. fst (authority_of cr s)) authorities,
        g_grandpa = map (\<lambda>s. (snd (authority_of cr s), 1)) authorities,
        g_sudo = account_of cr (lit ''Alice''),
        g_nodes = [(PeerId p0, account_of cr (endowed ! 0)), (PeerId p1, account_of cr (endowed ! 1))]\<rparr>"
  have "map snd (map (\<lambda>s. (account_of cr s, push_bit 60 1 :: u128)) endowed) = replicate (length endowed) (push_bit 60 1)"
    by (simp add: comp_def map_replicate_const)
  then have "unat (sum_list (map snd (map (\<lambda>s. (account_of cr s, push_bit 60 1 :: u128)) endowed))) = length endowed * 2 ^ 60"
    using unat_endowment [OF assms(6)] by (simp only:)
  moreover obtain e0 e1 rest where "endowed = e0 # e1 # rest"
    using assms(5) by (cases endowed; cases "tl endowed") auto
  ultimately show ?thesis
    unfolding g by - (intro exI conjI, rule refl, auto simp: ExistentialDeposit_def list_all_iff)
qed

text \<open>
  C30. With the runtime binary, both preset chains have a genesis that builds without panic:
  four (twelve) endowed accounts whose balances of 2 to the 60th add up without overflow of
  the 128-bit balance and exceed the existential deposit, one (two) authorities that have the same number
  of block and finality keys, Alice as the sudo account, and two well known nodes owned by the first two accounts.
  Without the binary both give the same error.
\<close>

theorem preset_chains_build:
  fixes cr :: "('aura, 'grandpa, 'sr, 'acc) node_crypto"
  assumes "seeds_derive cr" "peers_decode cr"
    and "(config, authorities, endowed) \<in> {(development_config cr, 1, 4), (local_testnet_config cr, 2, 12)}"
  shows "config None = Inl (lit ''Development wasm not available'') \<and>
    (\<exists>spec g. config (Some wasm) = Inr (spec :: ('aura, 'grandpa, 'acc, 'e) chain_spec) \<and> cs_genesis spec () = Ok g \<and>
       g_code g = wasm \<and> length (g_balances g) = endowed \<and>
       unat (sum_list (map snd (g_balances g))) = endowed * 2 ^ 60 \<and>
       list_all (\<lambda>(a, b). ExistentialDeposit \<le> b) (g_balances g) \<and>
       length (g_aura g) = authorities \<and> length (g_grandpa g) = authorities \<and>
       g_sudo g = account_of cr (lit ''Alice'') \<and> map snd (g_nodes g) = take 2 (map fst (g_balances g)))"
proof -
  have sub: "set dev_endowed \<subseteq> set local_endowed" "set [lit ''Alice'', lit ''Bob''] \<subseteq> set local_endowed"
    "set [lit ''Alice''] \<subseteq> set local_endowed" "length dev_endowed = 4" "length local_endowed = 12"
    by (simp_all add: dev_endowed_def local_endowed_def)
  have dev: "\<exists>g. (preset_genesis cr wasm [lit ''Alice''] dev_endowed :: (('aura, 'grandpa, 'acc) genesis_config, 'e) outcome) = Ok g \<and>
       g_code g = wasm \<and> length (g_balances g) = 4 \<and> unat (sum_list (map snd (g_balances g))) = 4 * 2 ^ 60 \<and>
       list_all (\<lambda>(a, b). ExistentialDeposit \<le> b) (g_balances g) \<and> length (g_aura g) = 1 \<and> length (g_grandpa g) = 1 \<and>
       g_sudo g = account_of cr (lit ''Alice'') \<and> map snd (g_nodes g) = take 2 (map fst (g_balances g))"
    using preset_genesis_facts [OF assms(1,2) sub(3,1), of wasm] by (simp add: sub(4))
  have loc: "\<exists>g. (preset_genesis cr wasm [lit ''Alice'', lit ''Bob''] local_endowed :: (('aura, 'grandpa, 'acc) genesis_config, 'e) outcome) = Ok g \<and>
       g_code g = wasm \<and> length (g_balances g) = 12 \<and> unat (sum_list (map snd (g_balances g))) = 12 * 2 ^ 60 \<and>
       list_all (\<lambda>(a, b). ExistentialDeposit \<le> b) (g_balances g) \<and> length (g_aura g) = 2 \<and> length (g_grandpa g) = 2 \<and>
       g_sudo g = account_of cr (lit ''Alice'') \<and> map snd (g_nodes g) = take 2 (map fst (g_balances g))"
    using preset_genesis_facts [OF assms(1,2) sub(2) subset_refl, of wasm]
    by (simp add: sub(5) flip: numeral_2_eq_2)
  from assms(3) show ?thesis
    using dev loc by (auto simp: development_config_def local_testnet_config_def)
qed

theorem preset_chains_build_witness:
  "\<exists>spec g. local_testnet_config plain_crypto (Some [0]) = Inr (spec :: (str, str, str, unit) chain_spec) \<and>
     cs_genesis spec () = Ok g \<and> unat (sum_list (map snd (g_balances g))) = 12 * 2 ^ 60"
  using preset_chains_build [OF plain_crypto_laws, of "local_testnet_config plain_crypto" 2 12 "[0]"] by blast

text \<open>
  On a runtime started from the genesis of a preset chain, after any calls but raw writes of the storage, there are
  at most eight well known nodes, all owned; and at the start the root origin can remove each of the two
  nodes, since their ids are shorter than the limit that the genesis itself does not check.
\<close>

lemma preset_chain_nodes_governed:
  fixes cr :: "('aura, 'grandpa, 'sr, 'acc) node_crypto"
  assumes "peers_decode cr"
    and "preset_genesis cr wasm authorities endowed = (Ok g :: (('aura, 'grandpa, 'acc) genesis_config, 'e) outcome)"
    and "supra_authorization S = auth_genesis (g_nodes g)" and "fo_root (env_origins env) org"
    and "list_all (keeps_pallets other) cs"
  shows "btree_len (WellKnownNodes (supra_authorization (run_calls (runtime_dispatch env other) cs S))) \<le> 8 \<and>
    list_all (\<lambda>(n, a). fst (runtime_dispatch env other (org, bn) (SupraAuthorization (Call_remove_well_known_node n)) S) = Inr ())
      (g_nodes g)"
proof -
  obtain p0 a0 p1 a1 where n: "g_nodes g = [(PeerId p0, a0), (PeerId p1, a1)]"
    and p: "bs58_decode cr FIRST_PEER = Some p0" "bs58_decode cr SECOND_PEER = Some p1"
    using assms(2) by (auto simp: preset_genesis_def testnet_genesis_def obind_Ok_iff unwrap_option_def split: option.splits)
  have len: "length p0 < 128" "length p1 < 128"
    using assms(1) p by (auto simp: peers_decode_def FIRST_PEER_def SECOND_PEER_def lit_def)
  let ?A = "auth_genesis (g_nodes g)"
  have "btree_len (WellKnownNodes (supra_authorization (run_calls (runtime_dispatch env other) cs S))) \<le> 8"
    using runtime_auth_bound [OF assms(3) _ assms(5), of env] by (simp add: n)
  moreover have "fst (auth_dispatch (runtime_auth_config env) org (Call_remove_well_known_node m) ?A) = Inr ()"
    if "m \<in> {PeerId p0, PeerId p1}" for m
  proof -
    have "m \<in> set (WellKnownNodes ?A)" "peer_id_fits (runtime_auth_config env) m"
      using that len by (auto simp: n auth_genesis_def initialize_nodes_def Let_def peer_id_fits_def
          runtime_auth_config_def RuntimeMaxPeerIdLength_def)
    then have "\<exists>st'. remove_well_known_node (runtime_auth_config env) org m ?A = (Inr (), st')"
      using assms(4) by (auto simp: remove_well_known_node_ok runtime_auth_config_def)
    then show ?thesis by auto
  qed
  ultimately show ?thesis
    by (simp add: n assms(3) in_pallet_ok_iff)
qed

lemma preset_chain_nodes_governed_example:
  "\<exists>g. preset_genesis plain_crypto [0] [lit ''Alice''] dev_endowed = (Ok g :: ((str, str, str) genesis_config, unit) outcome) \<and>
     list_all (\<lambda>(n, a). fst (runtime_dispatch \<lparr>env_origins = \<lparr>fo_root = (\<lambda>_. True), fo_signed = (\<lambda>_. None), fo_none = (\<lambda>_. False)\<rparr>,
          env_codec = marked_codec, env_default_account = []\<rparr>
          (\<lambda>_ _ s. (Inl (), s)) ((), 1) (SupraAuthorization (Call_remove_well_known_node n) :: (str, unit) runtime_call)
          \<lparr>template_module = empty_template_state, light_client_module = empty_client_state,
           supra_authorization = auth_genesis (g_nodes g), other_pallets = ()\<rparr>) = Inr ()) (g_nodes g)"
proof -
  have "set dev_endowed \<subseteq> set local_endowed" "set [lit ''Alice''] \<subseteq> set local_endowed" "2 \<le> length dev_endowed" "length dev_endowed < 2 ^ 68"
    by (simp_all add: dev_endowed_def local_endowed_def)
  from preset_genesis_facts [OF plain_crypto_laws this(2,1,3,4), of "[0]"]
  obtain g where g: "preset_genesis plain_crypto [0] [lit ''Alice''] dev_endowed = (Ok g :: ((str, str, str) genesis_config, unit) outcome)"
    by blast
  show ?thesis
    by (intro exI conjI, rule g, rule preset_chain_nodes_governed [where cs = "[]", OF plain_crypto_laws(2) g, THEN conjunct2])
      simp_all
qed

end
