(* ===== verification/Runtime_Api.thy ===== *)
theory Runtime_Api
  imports Chain_System Chain_Spec
begin

text \<open>
  The rest of \<^verbatim>\<open>runtime/src/lib.rs\<close>: the configurations of the FRAME pallets, the table of
  \<^verbatim>\<open>construct_runtime!\<close>, and the runtime APIs that the node calls. The library code behind a
  configuration or an API is a field of a record.
\<close>

section \<open>Configurations of the library's pallets\<close>

definition SS58Prefix :: u8 where
  "SS58Prefix = 42"

definition MaxLocks :: u32 where
  "MaxLocks = 50"

definition TransactionByteFee :: balance where
  "TransactionByteFee = 1"

text \<open>Ratios, weights and limits of the library.\<close>

record ('ratio, 'weights, 'len, 'db) frame_limits =
  from_percent :: "u32 \<Rightarrow> 'ratio"
  weight_per_second :: u64
  with_sensible_defaults :: "u64 \<Rightarrow> 'ratio \<Rightarrow> 'weights"
  max_with_normal_ratio :: "u32 \<Rightarrow> 'ratio \<Rightarrow> 'len"
  rocks_db_weight :: 'db

definition NORMAL_DISPATCH_RATIO :: "('ratio, 'weights, 'len, 'db) frame_limits \<Rightarrow> 'ratio" where
  "NORMAL_DISPATCH_RATIO fl = from_percent fl 75"

definition BlockWeights :: "('ratio, 'weights, 'len, 'db) frame_limits \<Rightarrow> 'weights" where
  "BlockWeights fl = with_sensible_defaults fl (2 * weight_per_second fl) (NORMAL_DISPATCH_RATIO fl)"

definition BlockLength :: "('ratio, 'weights, 'len, 'db) frame_limits \<Rightarrow> 'len" where
  "BlockLength fl = max_with_normal_ratio fl (5 * 1024 * 1024) (NORMAL_DISPATCH_RATIO fl)"

text \<open>\<^verbatim>\<open>frame_system::Config\<close>; the filter \<^verbatim>\<open>()\<close> lets every call pass, the account hooks do nothing.\<close>

record ('call, 'weights, 'len, 'db, 'bn) system_config =
  sc_base_call_filter :: "'call \<Rightarrow> bool"
  sc_block_weights :: 'weights
  sc_block_length :: 'len
  sc_block_hash_count :: 'bn
  sc_db_weight :: 'db
  sc_version :: "runtime_version option"
  sc_ss58_prefix :: u8

definition runtime_system_config ::
  "('ratio, 'weights, 'len, 'db) frame_limits \<Rightarrow> (('acc, 'x) runtime_call, 'weights, 'len, 'db, u32) system_config" where
  "runtime_system_config fl =
     \<lparr>sc_base_call_filter = (\<lambda>_. True), sc_block_weights = BlockWeights fl, sc_block_length = BlockLength fl,
      sc_block_hash_count = BlockHashCount, sc_db_weight = rocks_db_weight fl, sc_version = Some VERSION,
      sc_ss58_prefix = SS58Prefix\<rparr>"

record timestamp_config =
  tc_minimum_period :: u64

definition runtime_timestamp_config :: timestamp_config where
  "runtime_timestamp_config = \<lparr>tc_minimum_period = MinimumPeriod\<rparr>"

record balances_config =
  bc_max_locks :: u32
  bc_existential_deposit :: balance

definition runtime_balances_config :: balances_config where
  "runtime_balances_config = \<lparr>bc_max_locks = MaxLocks, bc_existential_deposit = ExistentialDeposit\<rparr>"

text \<open>\<^verbatim>\<open>IdentityFee\<close> converts a weight to the fee of the same number.\<close>

record payment_config =
  pc_byte_fee :: balance
  pc_weight_to_fee :: "u64 \<Rightarrow> balance"

definition runtime_payment_config :: payment_config where
  "runtime_payment_config = \<lparr>pc_byte_fee = TransactionByteFee, pc_weight_to_fee = ucast\<rparr>"

section \<open>The table of the runtime\<close>

datatype pallet_name =
    P_System | P_RandomnessCollectiveFlip | P_Timestamp | P_Aura | P_Grandpa | P_Balances
  | P_TransactionPayment | P_Sudo | P_TemplateModule | P_LightClient | P_SupraAuthorization

datatype pallet_part = Part_Module | Part_Call | Part_Config | Part_Storage | Part_Event | Part_Inherent | Part_ValidateUnsigned

definition construct_runtime :: "(pallet_name \<times> pallet_part list) list" where
  "construct_runtime =
     [(P_System, [Part_Module, Part_Call, Part_Config, Part_Storage, Part_Event]),
      (P_RandomnessCollectiveFlip, [Part_Module, Part_Call, Part_Storage]),
      (P_Timestamp, [Part_Module, Part_Call, Part_Storage, Part_Inherent]),
      (P_Aura, [Part_Module, Part_Config]),
      (P_Grandpa, [Part_Module, Part_Call, Part_Storage, Part_Config, Part_Event]),
      (P_Balances, [Part_Module, Part_Call, Part_Storage, Part_Config, Part_Event]),
      (P_TransactionPayment, [Part_Module, Part_Storage]),
      (P_Sudo, [Part_Module, Part_Call, Part_Config, Part_Storage, Part_Event]),
      (P_TemplateModule, [Part_Module, Part_Call, Part_Storage, Part_Event]),
      (P_LightClient, [Part_Module, Part_Call, Part_Storage, Part_Event, Part_ValidateUnsigned]),
      (P_SupraAuthorization, [Part_Module, Part_Call, Part_Storage, Part_Event, Part_Config])]"

definition pallets_with :: "pallet_part \<Rightarrow> pallet_name list" where
  "pallets_with p = map fst (filter (\<lambda>x. p \<in> set (snd x)) construct_runtime)"

text \<open>The pallet of a call, where it is one of this repository.\<close>

fun call_pallet :: "('acc, 'x) runtime_call \<Rightarrow> pallet_name option" where
  "call_pallet (TemplateModule c) = Some P_TemplateModule"
| "call_pallet (LightClient c) = Some P_LightClient"
| "call_pallet (SupraAuthorization c) = Some P_SupraAuthorization"
| "call_pallet (OtherPallet x) = None"

lemma pallets_with_eq:
  "pallets_with Part_ValidateUnsigned = [P_LightClient]"
  "pallets_with Part_Inherent = [P_Timestamp]"
  "pallets_with Part_Config = [P_System, P_Aura, P_Grandpa, P_Balances, P_Sudo, P_SupraAuthorization]"
  by (simp_all add: pallets_with_def construct_runtime_def)

lemma validated_calls_in_table:
  "runtime_validate_unsigned src c = NoUnsignedValidator \<or> (\<exists>p. call_pallet c = Some p \<and> p \<in> set (pallets_with Part_ValidateUnsigned))"
  by (cases c) (simp_all add: pallets_with_eq)

section \<open>Runtime APIs\<close>

record native_version_info =
  nv_runtime_version :: runtime_version
  nv_can_author_with :: "u32 set"

definition native_version :: native_version_info where
  "native_version = \<lparr>nv_runtime_version = VERSION, nv_can_author_with = {}\<rparr>"

text \<open>\<^verbatim>\<open>Executive\<close>: storage in, storage out; executing a block may panic.\<close>

record ('s, 'b, 'h, 'x, 'res, 'val) executive =
  ex_execute_block :: "'b \<Rightarrow> 's \<Rightarrow> 's option"
  ex_initialize_block :: "'h \<Rightarrow> 's \<Rightarrow> 's"
  ex_apply_extrinsic :: "'x \<Rightarrow> 's \<Rightarrow> 'res \<times> 's"
  ex_finalize_block :: "'s \<Rightarrow> 'h \<times> 's"
  ex_validate_transaction :: "transaction_source \<Rightarrow> 'x \<Rightarrow> 's \<Rightarrow> 'val"
  ex_offchain_worker :: "'h \<Rightarrow> 's \<Rightarrow> 's"

text \<open>The session keys of an authority, one for each consensus pallet.\<close>

record ('aid, 'gid) session_keys =
  sk_aura :: 'aid
  sk_grandpa :: 'gid

text \<open>What the pallets of the library answer.\<close>

record ('s, 'b, 'x, 'inh, 'chk, 'hash, 'aid, 'gid, 'acc, 'info, 'fee) pallet_lib =
  pl_metadata :: bytes
  pl_create_extrinsics :: "'inh \<Rightarrow> 's \<Rightarrow> 'x list"
  pl_check_extrinsics :: "'inh \<Rightarrow> 'b \<Rightarrow> 's \<Rightarrow> 'chk"
  pl_random_seed :: "'s \<Rightarrow> 'hash"
  pl_aura_slot_duration :: "timestamp_config \<Rightarrow> u64"
  pl_aura_authorities :: "'s \<Rightarrow> 'aid list"
  pl_aura_generate :: "bytes option \<Rightarrow> 'aid"
  pl_grandpa_generate :: "bytes option \<Rightarrow> 'gid"
  pl_keys_encode :: "('aid, 'gid) session_keys \<Rightarrow> bytes"
  pl_keys_decode :: "bytes \<Rightarrow> ('aid, 'gid) session_keys option"
  pl_aura_raw :: "'aid \<Rightarrow> bytes"
  pl_grandpa_raw :: "'gid \<Rightarrow> bytes"
  pl_grandpa_authorities :: "'s \<Rightarrow> ('gid \<times> u64) list"
  pl_account_nonce :: "'acc \<Rightarrow> 's \<Rightarrow> tx_index"
  pl_query_info :: "'x \<Rightarrow> u32 \<Rightarrow> payment_config \<Rightarrow> 's \<Rightarrow> 'info"
  pl_query_fee_details :: "'x \<Rightarrow> u32 \<Rightarrow> payment_config \<Rightarrow> 's \<Rightarrow> 'fee"

record ('s, 'b, 'h) core_api =
  core_version :: runtime_version
  core_execute_block :: "'b \<Rightarrow> 's \<Rightarrow> 's option"
  core_initialize_block :: "'h \<Rightarrow> 's \<Rightarrow> 's"

definition runtime_core_api :: "('s, 'b, 'h, 'x, 'res, 'val) executive \<Rightarrow> ('s, 'b, 'h) core_api" where
  "runtime_core_api ex =
     \<lparr>core_version = VERSION, core_execute_block = ex_execute_block ex, core_initialize_block = ex_initialize_block ex\<rparr>"

record ('s, 'b, 'h, 'x, 'res, 'inh, 'chk, 'hash) block_builder_api =
  bb_apply_extrinsic :: "'x \<Rightarrow> 's \<Rightarrow> 'res \<times> 's"
  bb_finalize_block :: "'s \<Rightarrow> 'h \<times> 's"
  bb_inherent_extrinsics :: "'inh \<Rightarrow> 's \<Rightarrow> 'x list"
  bb_check_inherents :: "'b \<Rightarrow> 'inh \<Rightarrow> 's \<Rightarrow> 'chk"
  bb_random_seed :: "'s \<Rightarrow> 'hash"

definition runtime_block_builder_api ::
  "('s, 'b, 'h, 'x, 'res, 'val) executive \<Rightarrow> ('s, 'b, 'x, 'inh, 'chk, 'hash, 'aid, 'gid, 'acc, 'info, 'fee) pallet_lib \<Rightarrow>
     ('s, 'b, 'h, 'x, 'res, 'inh, 'chk, 'hash) block_builder_api" where
  "runtime_block_builder_api ex pl =
     \<lparr>bb_apply_extrinsic = ex_apply_extrinsic ex, bb_finalize_block = ex_finalize_block ex,
      bb_inherent_extrinsics = pl_create_extrinsics pl, bb_check_inherents = (\<lambda>block data. pl_check_extrinsics pl data block),
      bb_random_seed = pl_random_seed pl\<rparr>"

definition metadata :: "('s, 'b, 'x, 'inh, 'chk, 'hash, 'aid, 'gid, 'acc, 'info, 'fee) pallet_lib \<Rightarrow> bytes" where
  "metadata pl = pl_metadata pl"

definition validate_transaction :: "('s, 'b, 'h, 'x, 'res, 'val) executive \<Rightarrow> transaction_source \<Rightarrow> 'x \<Rightarrow> 's \<Rightarrow> 'val" where
  "validate_transaction ex source tx = ex_validate_transaction ex source tx"

definition api_offchain_worker :: "('s, 'b, 'h, 'x, 'res, 'val) executive \<Rightarrow> 'h \<Rightarrow> 's \<Rightarrow> 's" where
  "api_offchain_worker ex header = ex_offchain_worker ex header"

definition slot_duration :: "('s, 'b, 'x, 'inh, 'chk, 'hash, 'aid, 'gid, 'acc, 'info, 'fee) pallet_lib \<Rightarrow> u64" where
  "slot_duration pl = pl_aura_slot_duration pl runtime_timestamp_config"

definition authorities :: "('s, 'b, 'x, 'inh, 'chk, 'hash, 'aid, 'gid, 'acc, 'info, 'fee) pallet_lib \<Rightarrow> 's \<Rightarrow> 'aid list" where
  "authorities pl = pl_aura_authorities pl"

text \<open>
  \<^verbatim>\<open>impl_opaque_keys!\<close>: a key for each field from the same seed, encoded together; decoding gives the raw key of each
  field with its key type.
\<close>

definition generate_session_keys :: "('s, 'b, 'x, 'inh, 'chk, 'hash, 'aid, 'gid, 'acc, 'info, 'fee) pallet_lib \<Rightarrow> bytes option \<Rightarrow> bytes" where
  "generate_session_keys pl seed =
     pl_keys_encode pl \<lparr>sk_aura = pl_aura_generate pl seed, sk_grandpa = pl_grandpa_generate pl seed\<rparr>"

definition decode_session_keys ::
  "('s, 'b, 'x, 'inh, 'chk, 'hash, 'aid, 'gid, 'acc, 'info, 'fee) pallet_lib \<Rightarrow> bytes \<Rightarrow> (bytes \<times> bytes) list option" where
  "decode_session_keys pl encoded =
     map_option (\<lambda>keys. [(pl_aura_raw pl (sk_aura keys), lit ''aura''), (pl_grandpa_raw pl (sk_grandpa keys), lit ''gran'')])
       (pl_keys_decode pl encoded)"

lemma session_keys_roundtrip:
  assumes "\<And>keys. pl_keys_decode pl (pl_keys_encode pl keys) = Some keys"
  shows "decode_session_keys pl (generate_session_keys pl seed) =
    Some [(pl_aura_raw pl (pl_aura_generate pl seed), lit ''aura''), (pl_grandpa_raw pl (pl_grandpa_generate pl seed), lit ''gran'')]"
  by (simp add: decode_session_keys_def generate_session_keys_def assms)

record ('s, 'gid, 'proof, 'opaque) grandpa_api =
  ga_authorities :: "'s \<Rightarrow> ('gid \<times> u64) list"
  ga_submit_report_equivocation :: "'proof \<Rightarrow> 'opaque \<Rightarrow> unit option"
  ga_generate_key_ownership_proof :: "u64 \<Rightarrow> 'gid \<Rightarrow> 'opaque option"

definition runtime_grandpa_api ::
  "('s, 'b, 'x, 'inh, 'chk, 'hash, 'aid, 'gid, 'acc, 'info, 'fee) pallet_lib \<Rightarrow> ('s, 'gid, 'proof, 'opaque) grandpa_api" where
  "runtime_grandpa_api pl =
     \<lparr>ga_authorities = pl_grandpa_authorities pl, ga_submit_report_equivocation = (\<lambda>_ _. None),
      ga_generate_key_ownership_proof = (\<lambda>_ _. None)\<rparr>"

definition account_nonce :: "('s, 'b, 'x, 'inh, 'chk, 'hash, 'aid, 'gid, 'acc, 'info, 'fee) pallet_lib \<Rightarrow> 'acc \<Rightarrow> 's \<Rightarrow> tx_index" where
  "account_nonce pl account = pl_account_nonce pl account"

definition query_info :: "('s, 'b, 'x, 'inh, 'chk, 'hash, 'aid, 'gid, 'acc, 'info, 'fee) pallet_lib \<Rightarrow> 'x \<Rightarrow> u32 \<Rightarrow> 's \<Rightarrow> 'info" where
  "query_info pl uxt len = pl_query_info pl uxt len runtime_payment_config"

definition query_fee_details :: "('s, 'b, 'x, 'inh, 'chk, 'hash, 'aid, 'gid, 'acc, 'info, 'fee) pallet_lib \<Rightarrow> 'x \<Rightarrow> u32 \<Rightarrow> 's \<Rightarrow> 'fee" where
  "query_fee_details pl uxt len = pl_query_fee_details pl uxt len runtime_payment_config"

section \<open>Benchmarks\<close>

text \<open>\<^verbatim>\<open>hex_literal::hex!\<close> on a literal of digits.\<close>

fun hex_pairs :: "nat list \<Rightarrow> bytes" where
  "hex_pairs (a # b # ds) = of_nat (16 * a + b) # hex_pairs ds"
| "hex_pairs _ = []"

definition hex_literal :: "string \<Rightarrow> bytes" where
  "hex_literal s = hex_pairs (the (hex_digits_of (lit s)))"

definition benchmark_whitelist :: "bytes list" where
  "benchmark_whitelist = map hex_literal
     [''26aa394eea5630e07c48ae0c9558cef702a5c1b19ab7a04f536c519aca4983ac'',
      ''c2261276cc9d1f8598ea4b6a74b15c2f57c875e4cff74148e4628f264b974c80'',
      ''26aa394eea5630e07c48ae0c9558cef7ff553b5a9862a516939d82b3d3d8661a'',
      ''26aa394eea5630e07c48ae0c9558cef70a98fdbe9ce6c55837576c60c7af3850'',
      ''26aa394eea5630e07c48ae0c9558cef780d41e5e16056765bc8461851072c9d7'']"

definition benchmarked_pallets :: "str list" where
  "benchmarked_pallets = map lit [''frame_system'', ''pallet_balances'', ''pallet_timestamp'', ''pallet_template'']"

text \<open>
  \<^verbatim>\<open>add_benchmark!\<close> appends the batches of one pallet, or leaves the function with an error;
  what it appends for a configuration is the library's.
\<close>

fun add_benchmarks :: "(str \<Rightarrow> str + 'batch list) \<Rightarrow> str list \<Rightarrow> 'batch list \<Rightarrow> str + 'batch list" where
  "add_benchmarks run [] batches = Inr batches"
| "add_benchmarks run (name # names) batches =
     (case run name of Inl e \<Rightarrow> Inl e | Inr new \<Rightarrow> add_benchmarks run names (batches @ new))"

definition dispatch_benchmark :: "('cfg \<Rightarrow> bytes list \<Rightarrow> str \<Rightarrow> str + 'batch list) \<Rightarrow> 'cfg \<Rightarrow> str + 'batch list" where
  "dispatch_benchmark run config =
     (case add_benchmarks (run config benchmark_whitelist) benchmarked_pallets [] of
        Inl e \<Rightarrow> Inl e
      | Inr batches \<Rightarrow> if batches = [] then Inl (lit ''Benchmark not found for this pallet.'') else Inr batches)"

section \<open>Properties\<close>

text \<open>
  The benchmark API never answers with an empty list: it gives the batches of the four pallets in their order, or the
  first error among them, and when no pallet has a batch for the configuration it gives the error text of its own.
\<close>

lemma benchmark_dispatch_result:
  "dispatch_benchmark run config =
     (case filter isl (map (run config benchmark_whitelist) benchmarked_pallets) of
        e # _ \<Rightarrow> e
      | [] \<Rightarrow> (let batches = concat (map (\<lambda>n. projr (run config benchmark_whitelist n)) benchmarked_pallets)
              in if batches = [] then Inl (lit ''Benchmark not found for this pallet.'') else Inr batches))"
proof -
  have "add_benchmarks f names acc =
      (case filter isl (map f names) of e # _ \<Rightarrow> e | [] \<Rightarrow> Inr (acc @ concat (map (\<lambda>n. projr (f n)) names)))"
    for f :: "str \<Rightarrow> str + 'a list" and names acc
  proof (induction names arbitrary: acc)
    case (Cons n names)
    then show ?case by (cases "f n") (simp_all split: list.split)
  qed simp
  then have eq: "add_benchmarks (run config benchmark_whitelist) benchmarked_pallets [] =
      (case filter isl (map (run config benchmark_whitelist) benchmarked_pallets) of
         e # _ \<Rightarrow> e | [] \<Rightarrow> Inr (concat (map (\<lambda>n. projr (run config benchmark_whitelist n)) benchmarked_pallets)))"
    by (simp split: list.split)
  show ?thesis
  proof (cases "filter isl (map (run config benchmark_whitelist) benchmarked_pallets)")
    case (Cons e es)
    then have "isl e" by (metis filter_eq_ConsD)
    with Cons show ?thesis by (auto simp: dispatch_benchmark_def eq isl_def)
  qed (simp add: dispatch_benchmark_def eq)
qed

text \<open>
  When the aura pallet takes twice the minimum period of the timestamp pallet as its slot, the slot duration the
  node is told is the block time of the runtime, the halving loses nothing, and the constants for a minute, an hour
  and a day are exactly these times in blocks, within their 32 bits.
\<close>

lemma slot_duration_is_block_time:
  assumes "pl_aura_slot_duration pl runtime_timestamp_config = 2 * tc_minimum_period runtime_timestamp_config"
  shows "slot_duration pl = MILLISECS_PER_BLOCK \<and>
     unat MINUTES * unat (slot_duration pl) = 60 * 1000 \<and> unat HOURS * unat (slot_duration pl) = 60 * 60 * 1000 \<and>
     unat DAYS * unat (slot_duration pl) = 24 * 60 * 60 * 1000"
proof -
  have "unat (slot_duration pl) = 6000"
    using assms by (simp add: slot_duration_def runtime_timestamp_config_def time_constants)
  then show ?thesis
    by (simp add: time_constants MILLISECS_PER_BLOCK_def word_unat_eq_iff)
qed

text \<open>A library whose aura pallet does so, and answers nothing else.\<close>

definition doubling_lib :: "(unit, unit, unit, unit, unit, unit, unit, unit, unit, unit, unit) pallet_lib" where
  "doubling_lib = \<lparr>pl_metadata = [], pl_create_extrinsics = (\<lambda>_ _. []), pl_check_extrinsics = (\<lambda>_ _ _. ()), pl_random_seed = (\<lambda>_. ()),
     pl_aura_slot_duration = (\<lambda>tc. 2 * tc_minimum_period tc),
     pl_aura_authorities = (\<lambda>_. []), pl_aura_generate = (\<lambda>_. ()), pl_grandpa_generate = (\<lambda>_. ()),
     pl_keys_encode = (\<lambda>_. []), pl_keys_decode = (\<lambda>_. None), pl_aura_raw = (\<lambda>_. []), pl_grandpa_raw = (\<lambda>_. []),
     pl_grandpa_authorities = (\<lambda>_. []), pl_account_nonce = (\<lambda>_ _. 0), pl_query_info = (\<lambda>_ _ _ _. ()), pl_query_fee_details = (\<lambda>_ _ _ _. ())\<rparr>"

lemma slot_duration_example: "slot_duration doubling_lib = 6000"
  using slot_duration_is_block_time [of doubling_lib] by (simp add: doubling_lib_def MILLISECS_PER_BLOCK_def)

end
