(* ===== verification/Template_Mock.thy ===== *)
theory Template_Mock
  imports Runtime_Api
begin

text \<open>
  The mock runtime of the template pallet, \<^verbatim>\<open>pallets/template/src/mock.rs\<close>: two pallets, accounts and
  block numbers of 64 bits, empty storage at genesis. The unit tests and the benchmark beside it call
  \<^verbatim>\<open>do_something\<close>, which the pallet does not have; the run below exercises the calls it has.
\<close>

definition mock_BlockHashCount :: u64 where
  "mock_BlockHashCount = 250"

definition mock_SS58Prefix :: u8 where
  "mock_SS58Prefix = 42"

definition mock_construct_runtime :: "(pallet_name \<times> pallet_part list) list" where
  "mock_construct_runtime =
     [(P_System, [Part_Module, Part_Call, Part_Config, Part_Storage, Part_Event]),
      (P_TemplateModule, [Part_Module, Part_Call, Part_Storage, Part_Event])]"

text \<open>The unit types for weights, length, database weight and version leave the defaults of the library.\<close>

definition mock_system_config :: "('call, unit, unit, unit, u64) system_config" where
  "mock_system_config =
     \<lparr>sc_base_call_filter = (\<lambda>_. True), sc_block_weights = (), sc_block_length = (), sc_block_hash_count = mock_BlockHashCount,
      sc_db_weight = (), sc_version = None, sc_ss58_prefix = mock_SS58Prefix\<rparr>"

datatype mock_origin = Mock_Root | Mock_Signed u64 | Mock_None

definition mock_template_config :: "(mock_origin, u64, u64) template_config" where
  "mock_template_config =
     \<lparr>t_ensure_signed = (\<lambda>org. case org of Mock_Signed a \<Rightarrow> Some a | _ \<Rightarrow> None), t_default = (0, 0)\<rparr>"

definition mock_new_test_ext :: "(u64, u64) template_state" where
  "mock_new_test_ext = empty_template_state"

definition mock_run :: "(mock_origin \<times> template_call) list \<Rightarrow> (u64, u64) template_state" where
  "mock_run cs = run_calls (template_dispatch mock_template_config) (map (\<lambda>(org, c). ((org, 1), c)) cs) mock_new_test_ext"

lemma mock_claims_work:
  "Proofs (mock_run [(Mock_Signed 1, Call_create_claim [7])]) = [[7] \<mapsto> (1, 1)]"
  "fst (template_dispatch mock_template_config (Mock_Signed 2, 2) (Call_create_claim [7]) (mock_run [(Mock_Signed 1, Call_create_claim [7])])) =
     Inl ProofAlreadyClaimed"
  "fst (template_dispatch mock_template_config (Mock_Signed 2, 2) (Call_revoke_claim [7]) (mock_run [(Mock_Signed 1, Call_create_claim [7])])) =
     Inl NotProofOwner"
  "fst (template_dispatch mock_template_config (Mock_None, 2) (Call_revoke_claim [7]) (mock_run [(Mock_Signed 1, Call_create_claim [7])])) =
     Inl TemplateBadOrigin"
  "fst (template_dispatch mock_template_config (Mock_Signed 2, 2) (Call_revoke_claim [8]) (mock_run [])) = Inl NoSuchProof"
  "mock_run [(Mock_Signed 1, Call_create_claim [7]), (Mock_Signed 1, Call_revoke_claim [7])] =
     \<lparr>Proofs = Map.empty, template_events = [ClaimCreated 1 [7], ClaimRevoked 1 [7]]\<rparr>"
  by (simp_all add: mock_run_def mock_new_test_ext_def empty_template_state_def mock_template_config_def
      create_claim_def revoke_claim_def template_deposit_def proofs_get_def Let_def)

end
