(* ===== verification/Node_Service.thy ===== *)
theory Node_Service
  imports Rust_Str
begin

text \<open>
  The construction of the node, \<^verbatim>\<open>node/src/service.rs\<close>: the inherent data provider, the parts
  shared by all commands, and the full and the light service. The calls into the Substrate
  libraries are the actions of a trace; which of them fail after which others, and with what, is an argument, and
  so are the finalized block the client reports (its number is read once with the partial parts and once for the record of the DHT) and
  the predicates on roles.
\<close>

section \<open>The DHT record\<close>

record data_map =
  dm_key :: bytes
  dm_value :: bytes

definition data_map_new :: "bytes \<Rightarrow> data_map" where
  "data_map_new key = \<lparr>dm_key = key, dm_value = []\<rparr>"

definition INHERENT_IDENTIFIER :: bytes where
  "INHERENT_IDENTIFIER = lit ''dhtdataM''"

text \<open>\<open>put_data\<close> is the library's; the identifier does not depend on the record.\<close>

definition inherent_identifier :: "data_map \<Rightarrow> bytes" where
  "inherent_identifier dm = INHERENT_IDENTIFIER"

definition provide_inherent_data :: "(bytes \<Rightarrow> bytes \<Rightarrow> 'd \<Rightarrow> 'e + 'd) \<Rightarrow> data_map \<Rightarrow> 'd \<Rightarrow> 'e + 'd" where
  "provide_inherent_data put_data dm inherent_data = put_data INHERENT_IDENTIFIER (dm_value dm) inherent_data"

definition on_register :: "data_map \<Rightarrow> 'providers \<Rightarrow> 'e + unit" where
  "on_register dm providers = Inr ()"

text \<open>The text of an encoded error, where it decodes.\<close>

definition error_to_string :: "(bytes \<Rightarrow> 'err option) \<Rightarrow> ('err \<Rightarrow> str) \<Rightarrow> data_map \<Rightarrow> bytes \<Rightarrow> str option" where
  "error_to_string decode into_string dm error = map_option into_string (decode error)"

record dht_local_storage =
  dls_path :: str

section \<open>Configuration and actions\<close>

datatype peers_set = OtherSet nat | GrandpaSet

record network_config =
  node_name :: str
  extra_sets :: "peers_set list"
  enable_dht_random_walk :: bool

record 'r configuration =
  keystore_remote :: "str option"
  offchain_worker_enabled :: bool
  role :: 'r
  force_authoring :: bool
  disable_grandpa :: bool
  network :: network_config

text \<open>The settings handed to the block author and to the finality voter.\<close>

record grandpa_config =
  gossip_duration_ms :: u64
  justification_period :: u32
  voter_name :: str
  observer_enabled :: bool
  voter_has_keystore :: bool
  voter_is_authority :: bool

datatype node_action =
    NewFullParts
  | NewLightParts
  | RegisterProvider data_map
  | NewPool bool
  | NewLightPool
  | GrandpaBlockImport
  | AuraBlockImport
  | SlotDuration
  | ImportQueue "data_map list"
  | BuildNetwork network_config
  | BuildOffchainWorkers
  | PutValue bytes bytes
  | GetValue bytes
  | SpawnTasks network_config
  | StartAura "data_map list" bool
  | SpawnAura
  | RunGrandpaVoter grandpa_config
  | SpawnGrandpa
  | StartNetwork

datatype 'e service_error = ServiceOther str | ServiceLib 'e

record ('r, 'e) node_env =
  fails :: "node_action list \<Rightarrow> node_action \<Rightarrow> 'e option"
  initial_number :: u32
  finalized_number :: u32
  finalized_hash :: str
  is_authority :: "'r \<Rightarrow> bool"
  is_network_authority :: "'r \<Rightarrow> bool"

type_synonym ('a, 'e) build = "('e service_error, 'a, node_action list) dispatchable"

text \<open>A fallible library call with \<^verbatim>\<open>?\<close>, one that cannot fail, and sequencing.\<close>

definition attempt :: "('r, 'e) node_env \<Rightarrow> node_action \<Rightarrow> (unit, 'e) build" where
  "attempt env a tr = (case fails env tr a of None \<Rightarrow> (Inr (), tr @ [a]) | Some e \<Rightarrow> (Inl (ServiceLib e), tr @ [a]))"

definition perform :: "node_action \<Rightarrow> (unit, 'e) build" where
  "perform a tr = (Inr (), tr @ [a])"

definition bbind :: "('a, 'e) build \<Rightarrow> ('a \<Rightarrow> ('b, 'e) build) \<Rightarrow> ('b, 'e) build" where
  "bbind m f tr = (case m tr of (Inl e, tr') \<Rightarrow> (Inl e, tr') | (Inr x, tr') \<Rightarrow> f x tr')"

definition bthen :: "(unit, 'e) build \<Rightarrow> ('b, 'e) build \<Rightarrow> ('b, 'e) build" where
  "bthen m k = bbind m (\<lambda>_. k)"

definition bwhen :: "bool \<Rightarrow> (unit, 'e) build \<Rightarrow> (unit, 'e) build" where
  "bwhen b m = (if b then m else (\<lambda>tr. (Inr (), tr)))"

definition breturn :: "'a \<Rightarrow> ('a, 'e) build" where
  "breturn x tr = (Inr x, tr)"

definition bfail :: "'e service_error \<Rightarrow> ('a, 'e) build" where
  "bfail e tr = (Inl e, tr)"

section \<open>Building\<close>

definition build_inherent_data_providers :: "('r, 'e) node_env \<Rightarrow> str \<Rightarrow> (data_map list, 'e) build" where
  "build_inherent_data_providers env key =
     (let dm = data_map_new key
      in bthen (attempt env (RegisterProvider dm)) (breturn [dm]))"

text \<open>The providers are the only component of the partial parts that carries data here.\<close>

definition new_partial :: "('r, 'e) node_env \<Rightarrow> 'r configuration \<Rightarrow> (data_map list, 'e) build" where
  "new_partial env config =
     (if keystore_remote config \<noteq> None
      then bfail (ServiceOther (lit ''Remote Keystores are not supported.''))
      else
        bthen (attempt env NewFullParts) (
        bbind (build_inherent_data_providers env (fmt_dec (unat (initial_number env)))) (\<lambda>inherent_data_providers.
        bthen (perform (NewPool (is_authority env (role config)))) (
        bthen (attempt env GrandpaBlockImport) (
        bthen (perform AuraBlockImport) (
        bthen (attempt env SlotDuration) (
        bthen (attempt env (ImportQueue inherent_data_providers)) (
        breturn inherent_data_providers))))))))"

definition remote_keystore :: "str \<Rightarrow> str + unit" where
  "remote_keystore url = Inl (lit ''Remote Keystore not supported.'')"

definition hook_remote_keystore :: "'r configuration \<Rightarrow> (unit, 'e) build" where
  "hook_remote_keystore config =
     (case keystore_remote config of
        None \<Rightarrow> breturn ()
      | Some url \<Rightarrow>
          (case remote_keystore url of
             Inr k \<Rightarrow> breturn ()
           | Inl e \<Rightarrow> bfail (ServiceOther (lit ''Error hooking up remote keystore for '' @ url @ lit '': '' @ e))))"

definition push_grandpa_set :: "'r configuration \<Rightarrow> 'r configuration" where
  "push_grandpa_set config =
     config\<lparr>network := (network config)\<lparr>extra_sets := extra_sets (network config) @ [GrandpaSet]\<rparr>\<rparr>"

definition enable_random_walk :: "'r configuration \<Rightarrow> 'r configuration" where
  "enable_random_walk config = config\<lparr>network := (network config)\<lparr>enable_dht_random_walk := True\<rparr>\<rparr>"

text \<open>The record of the last finalized block.\<close>

definition dht_record :: "('r, 'e) node_env \<Rightarrow> data_map" where
  "dht_record env = \<lparr>dm_key = fmt_dec (unat (finalized_number env)), dm_value = finalized_hash env\<rparr>"

definition start_author :: "('r, 'e) node_env \<Rightarrow> data_map list \<Rightarrow> bool \<Rightarrow> (unit, 'e) build" where
  "start_author env providers force =
     bthen (attempt env SlotDuration) (
     bthen (attempt env (StartAura providers force)) (
     perform SpawnAura))"

definition voter_config :: "('r, 'e) node_env \<Rightarrow> 'r configuration \<Rightarrow> grandpa_config" where
  "voter_config env config =
     \<lparr>gossip_duration_ms = 333, justification_period = 512, voter_name = node_name (network config),
      observer_enabled = False, voter_has_keystore = is_authority env (role config),
      voter_is_authority = is_network_authority env (role config)\<rparr>"

definition start_voter :: "('r, 'e) node_env \<Rightarrow> grandpa_config \<Rightarrow> (unit, 'e) build" where
  "start_voter env gc = bthen (attempt env (RunGrandpaVoter gc)) (perform SpawnGrandpa)"

definition new_full :: "('r, 'e) node_env \<Rightarrow> 'r configuration \<Rightarrow> (unit, 'e) build" where
  "new_full env config =
     bbind (new_partial env config) (\<lambda>inherent_data_providers.
     bthen (hook_remote_keystore config) (
     let config = push_grandpa_set config in
     bthen (attempt env (BuildNetwork (network config))) (
     bthen (bwhen (offchain_worker_enabled config) (perform BuildOffchainWorkers)) (
     let config = enable_random_walk config;
         data = dht_record env
     in
     bthen (perform (PutValue (dm_key data) (dm_value data))) (
     bthen (perform (GetValue (dm_key data))) (
     bthen (attempt env (SpawnTasks (network config))) (
     bthen (bwhen (is_authority env (role config))
       (start_author env inherent_data_providers (force_authoring config))) (
     bthen (bwhen (\<not> disable_grandpa config) (start_voter env (voter_config env config))) (
     perform StartNetwork)))))))))"

text \<open>
  The light service, built without the feature \<^verbatim>\<open>light-client\<close>: the key that the source
  generates under it uses names that are not in scope there, so the crate does not compile with it.
\<close>

definition new_light :: "('r, 'e) node_env \<Rightarrow> 'r configuration \<Rightarrow> (unit, 'e) build" where
  "new_light env config =
     bthen (attempt env NewLightParts) (
     let config = push_grandpa_set config in
     bthen (perform NewLightPool) (
     bthen (attempt env GrandpaBlockImport) (
     bthen (perform AuraBlockImport) (
     bthen (attempt env SlotDuration) (
     bthen (attempt env (ImportQueue [])) (
     bthen (attempt env (BuildNetwork (network config))) (
     bthen (bwhen (offchain_worker_enabled config) (perform BuildOffchainWorkers)) (
     bthen (attempt env (SpawnTasks (network config))) (
     perform StartNetwork)))))))))"

section \<open>Runs\<close>

text \<open>
  A build either goes through, doing exactly a list of actions, or stops at the first action
  that fails: \<open>plan\<close> runs a list of actions.
\<close>

fun run_plan :: "('r, 'e) node_env \<Rightarrow> (node_action \<times> bool) list \<Rightarrow> (unit, 'e) build" where
  "run_plan env [] tr = (Inr (), tr)"
| "run_plan env ((a, fallible) # as) tr =
     (case if fallible then fails env tr a else None of
        None \<Rightarrow> run_plan env as (tr @ [a])
      | Some e \<Rightarrow> (Inl (ServiceLib e), tr @ [a]))"

lemma run_plan_append: "run_plan env (as @ bs) tr = bbind (run_plan env as) (\<lambda>_. run_plan env bs) tr"
  by (induction env as tr rule: run_plan.induct) (auto simp: bbind_def split: option.split)

lemma bthen_attempt [simp]: "bthen (attempt env a) (run_plan env as) = run_plan env ((a, True) # as)"
  by (rule ext) (simp add: bthen_def bbind_def attempt_def split: option.split)

lemma bthen_perform [simp]: "bthen (perform a) (run_plan env as) = run_plan env ((a, False) # as)"
  by (rule ext) (simp add: bthen_def bbind_def perform_def)

lemma bthen_plan [simp]: "bthen (run_plan env as) (run_plan env bs) = run_plan env (as @ bs)"
  by (rule ext) (simp add: bthen_def run_plan_append)

lemma attempt_plan: "attempt env a = run_plan env [(a, True)]"
  by (rule ext) (simp add: attempt_def split: option.split)

lemma perform_plan: "perform a = run_plan env [(a, False)]"
  by (rule ext) (simp add: perform_def)

lemma bwhen_plan: "bwhen b (run_plan env as) = run_plan env (if b then as else [])"
  by (rule ext) (simp add: bwhen_def)

lemma run_plan_ok: "run_plan env as tr = (Inr (), tr') \<Longrightarrow> tr' = tr @ map fst as"
  by (induction env as tr rule: run_plan.induct) (auto split: option.splits)

lemma run_plan_actions: "set (snd (run_plan env as tr)) \<subseteq> set tr \<union> fst ` set as"
  by (induction env as tr rule: run_plan.induct) (auto split: option.split)

text \<open>The library calls that return a result and are followed by \<^verbatim>\<open>?\<close> in the source.\<close>

fun fallible :: "node_action \<Rightarrow> bool" where
  "fallible NewFullParts = True"
| "fallible NewLightParts = True"
| "fallible (RegisterProvider dm) = True"
| "fallible GrandpaBlockImport = True"
| "fallible SlotDuration = True"
| "fallible (ImportQueue ps) = True"
| "fallible (BuildNetwork net) = True"
| "fallible (SpawnTasks net) = True"
| "fallible (StartAura ps force) = True"
| "fallible (RunGrandpaVoter gc) = True"
| "fallible _ = False"

text \<open>None of the fallible calls of a trace failed after the calls before it.\<close>

definition no_failure :: "('r, 'e) node_env \<Rightarrow> node_action list \<Rightarrow> bool" where
  "no_failure env tr \<longleftrightarrow> (\<forall>i < length tr. fallible (tr ! i) \<longrightarrow> fails env (take i tr) (tr ! i) = None)"

lemma no_failure_snoc: "no_failure env (tr @ [a]) \<longleftrightarrow> no_failure env tr \<and> (fallible a \<longrightarrow> fails env tr a = None)"
  by (auto simp: no_failure_def nth_append less_Suc_eq)

text \<open>A plan whose fallible actions are the fallible calls is run up to its first failing call.\<close>

lemma run_plan_clean:
  assumes "run_plan env as tr = (r, tr')" "list_all (\<lambda>(a, b). b = fallible a) as" "no_failure env tr"
  shows "(case r of
      Inr _ \<Rightarrow> tr' = tr @ map fst as \<and> no_failure env tr'
    | Inl e \<Rightarrow> \<exists>pre a post e'. map fst as = pre @ a # post \<and> tr' = tr @ pre @ [a] \<and> fallible a \<and>
        no_failure env (tr @ pre) \<and> fails env (tr @ pre) a = Some e' \<and> e = ServiceLib e')"
  using assms
proof (induction env as tr rule: run_plan.induct)
  case (2 env a b as tr)
  show ?case
  proof (cases "if b then fails env tr a else None")
    case None
    with 2(4,3) have "no_failure env (tr @ [a])" by (auto simp: no_failure_snoc split: if_splits)
    note IH = 2(1) [OF None _ _ this]
    show ?thesis
    proof (cases r)
      case (Inr u)
      with IH 2(2,3) None show ?thesis by auto
    next
      case (Inl e)
      with IH 2(2,3) None obtain pre c post e' where "map fst as = pre @ c # post" "tr' = tr @ [a] @ pre @ [c]" "fallible c"
        "no_failure env (tr @ [a] @ pre)" "fails env (tr @ [a] @ pre) c = Some e'" "e = ServiceLib e'" by auto
      then have "map fst ((a, b) # as) = (a # pre) @ c # post \<and> tr' = tr @ (a # pre) @ [c] \<and> fallible c \<and>
          no_failure env (tr @ a # pre) \<and> fails env (tr @ a # pre) c = Some e' \<and> e = ServiceLib e'" by simp
      then show ?thesis unfolding Inl sum.case by blast
    qed
  next
    case (Some e')
    with 2(2-4) show ?thesis by (auto split: if_splits intro!: exI [of _ "[]"])
  qed
qed auto

section \<open>Starts that stop at the first failure\<close>

text \<open>The actions that need the network, and the one that needs the import queue.\<close>

fun uses_network :: "node_action \<Rightarrow> bool" where
  "uses_network BuildOffchainWorkers = True"
| "uses_network (PutValue k v) = True"
| "uses_network (GetValue k) = True"
| "uses_network (SpawnTasks net) = True"
| "uses_network (StartAura ps force) = True"
| "uses_network (RunGrandpaVoter gc) = True"
| "uses_network StartNetwork = True"
| "uses_network _ = False"

fun wired :: "bool \<Rightarrow> bool \<Rightarrow> node_action list \<Rightarrow> bool" where
  "wired queue net [] \<longleftrightarrow> True"
| "wired queue net (a # as) \<longleftrightarrow> (uses_network a \<longrightarrow> net) \<and> (case a of BuildNetwork n \<Rightarrow> queue | _ \<Rightarrow> True) \<and>
     wired (queue \<or> (case a of ImportQueue ps \<Rightarrow> True | _ \<Rightarrow> False)) (net \<or> (case a of BuildNetwork n \<Rightarrow> True | _ \<Rightarrow> False)) as"

lemma wired_prefix: "wired q n (xs @ ys) \<Longrightarrow> wired q n xs"
  by (induction xs arbitrary: q n) auto

text \<open>
  What a start does is in order: the import queue comes before the network that takes it, and the network before what is handed
  a handle of it. A start that succeeds saw no failure and ends with its only start of the network; one that fails ends with the first call that
  failed, returns the error of that call, and has not started the network.
\<close>

definition clean_start :: "('r, 'e) node_env \<Rightarrow> ('e service_error + unit) \<times> node_action list \<Rightarrow> bool" where
  "clean_start env res \<longleftrightarrow> wired False False (snd res) \<and>
     (case res of
        (Inr _, tr) \<Rightarrow> no_failure env tr \<and> last tr = StartNetwork \<and> count_list tr StartNetwork = 1
      | (Inl e, tr) \<Rightarrow> StartNetwork \<notin> set tr \<and> no_failure env (butlast tr) \<and> tr \<noteq> [] \<and> fallible (last tr) \<and>
          map_option ServiceLib (fails env (butlast tr) (last tr)) = Some e)"

section \<open>The plans of the two services\<close>

definition partial_plan :: "('r, 'e) node_env \<Rightarrow> 'r configuration \<Rightarrow> (node_action \<times> bool) list" where
  "partial_plan env config =
     (let dm = data_map_new (fmt_dec (unat (initial_number env)))
      in [(NewFullParts, True), (RegisterProvider dm, True), (NewPool (is_authority env (role config)), False),
          (GrandpaBlockImport, True), (AuraBlockImport, False), (SlotDuration, True), (ImportQueue [dm], True)])"

definition full_plan :: "('r, 'e) node_env \<Rightarrow> 'r configuration \<Rightarrow> (node_action \<times> bool) list" where
  "full_plan env config =
     (let dm = data_map_new (fmt_dec (unat (initial_number env)));
          net = network (push_grandpa_set config)
      in partial_plan env config @ [(BuildNetwork net, True)] @
         (if offchain_worker_enabled config then [(BuildOffchainWorkers, False)] else []) @
         [(PutValue (dm_key (dht_record env)) (dm_value (dht_record env)), False), (GetValue (dm_key (dht_record env)), False),
          (SpawnTasks (net\<lparr>enable_dht_random_walk := True\<rparr>), True)] @
         (if is_authority env (role config)
          then [(SlotDuration, True), (StartAura [dm] (force_authoring config), True), (SpawnAura, False)] else []) @
         (if disable_grandpa config then []
          else [(RunGrandpaVoter (voter_config env config), True), (SpawnGrandpa, False)]) @
         [(StartNetwork, False)])"

definition light_plan :: "'r configuration \<Rightarrow> (node_action \<times> bool) list" where
  "light_plan config =
     [(NewLightParts, True), (NewLightPool, False), (GrandpaBlockImport, True), (AuraBlockImport, False),
      (SlotDuration, True), (ImportQueue [], True), (BuildNetwork (network (push_grandpa_set config)), True)] @
     (if offchain_worker_enabled config then [(BuildOffchainWorkers, False)] else []) @
     [(SpawnTasks (network (push_grandpa_set config)), True), (StartNetwork, False)]"

lemma config_steps [simp]:
  "offchain_worker_enabled (push_grandpa_set config) = offchain_worker_enabled config"
  "role (push_grandpa_set config) = role config" "force_authoring (push_grandpa_set config) = force_authoring config"
  "disable_grandpa (push_grandpa_set config) = disable_grandpa config"
  "node_name (network (push_grandpa_set config)) = node_name (network config)"
  "role (enable_random_walk config) = role config" "force_authoring (enable_random_walk config) = force_authoring config"
  "disable_grandpa (enable_random_walk config) = disable_grandpa config"
  "network (enable_random_walk config) = (network config)\<lparr>enable_dht_random_walk := True\<rparr>"
  by (simp_all add: push_grandpa_set_def enable_random_walk_def)

lemma voter_config_steps [simp]: "voter_config env (enable_random_walk (push_grandpa_set config)) = voter_config env config"
  by (simp add: voter_config_def)

lemma new_partial_plan:
  assumes "keystore_remote config = None"
  shows "new_partial env config =
    bbind (run_plan env (partial_plan env config)) (\<lambda>_. breturn [data_map_new (fmt_dec (unat (initial_number env)))])"
  by (rule ext) (simp add: assms new_partial_def partial_plan_def build_inherent_data_providers_def bthen_def bbind_def
      attempt_def perform_def breturn_def Let_def split: option.split)

lemma new_full_plan:
  assumes "keystore_remote config = None"
  shows "new_full env config = run_plan env (full_plan env config)"
proof -
  let ?dm = "data_map_new (fmt_dec (unat (initial_number env)))"
  have b: "bbind (bbind (run_plan env as) (\<lambda>_. breturn x)) f = bbind (run_plan env as) (\<lambda>_. f x)" for as x
      and f :: "data_map list \<Rightarrow> (unit, 'b) build"
    by (rule ext) (auto simp: bbind_def breturn_def split: prod.split sum.split)
  have h: "bthen (hook_remote_keystore config) k = k" for k :: "(unit, 'b) build"
    by (rule ext) (simp add: hook_remote_keystore_def assms bthen_def bbind_def breturn_def)
  have author: "start_author env ps force = run_plan env [(SlotDuration, True), (StartAura ps force, True), (SpawnAura, False)]" for ps force
    by (simp add: start_author_def perform_plan [of _ env])
  have voter: "start_voter env gc = run_plan env [(RunGrandpaVoter gc, True), (SpawnGrandpa, False)]" for gc
    by (simp add: start_voter_def perform_plan [of _ env])
  show ?thesis
    unfolding new_full_def new_partial_plan [OF assms] b h Let_def author voter full_plan_def
    by (simp add: perform_plan [of BuildOffchainWorkers env] perform_plan [of StartNetwork env] bwhen_plan flip: bthen_def)
qed

lemma new_light_plan: "new_light env config = run_plan env (light_plan config)"
  unfolding new_light_def light_plan_def Let_def
  by (simp add: perform_plan [of BuildOffchainWorkers env] perform_plan [of StartNetwork env] bwhen_plan)

lemma full_plan_last:
  "\<exists>as. full_plan env config = as @ [(StartNetwork, False)] \<and> StartNetwork \<notin> fst ` set as"
  by (auto simp: full_plan_def partial_plan_def Let_def)

lemma full_plan_shape:
  "list_all (\<lambda>(a, b). b = fallible a) (full_plan env config)" "wired False False (map fst (full_plan env config))"
  by (simp_all add: full_plan_def partial_plan_def Let_def)

lemma light_plan_last:
  "\<exists>as. light_plan config = as @ [(StartNetwork, False)] \<and> StartNetwork \<notin> fst ` set as"
  by (auto simp: light_plan_def)

lemma light_plan_shape:
  "list_all (\<lambda>(a, b). b = fallible a) (light_plan config)" "wired False False (map fst (light_plan config))"
  by (simp_all add: light_plan_def)

lemma run_plan_clean_start:
  assumes "\<exists>bs. as = bs @ [(StartNetwork, False)] \<and> StartNetwork \<notin> fst ` set bs"
    and "list_all (\<lambda>(a, b). b = fallible a) as" "wired False False (map fst as)"
  shows "clean_start env (run_plan env as [])"
proof -
  obtain bs where bs: "as = bs @ [(StartNetwork, False)]" "StartNetwork \<notin> fst ` set bs" using assms(1) by blast
  obtain r tr where r: "run_plan env as [] = (r, tr)" by (rule prod.exhaust)
  from run_plan_clean [OF r assms(2)] have clean: "case r of Inr _ \<Rightarrow> tr = map fst as \<and> no_failure env tr
    | Inl e \<Rightarrow> \<exists>pre a post e'. map fst as = pre @ a # post \<and> tr = pre @ [a] \<and> fallible a \<and>
        no_failure env pre \<and> fails env pre a = Some e' \<and> e = ServiceLib e'"
    by (simp add: no_failure_def split: sum.split_asm cong: sum.case_cong)
  show ?thesis
  proof (cases r)
    case (Inr u)
    have "count_list (map fst bs) StartNetwork = 0" using bs(2) by (simp add: count_list_0_iff)
    with clean r Inr bs(1) assms(3) show ?thesis by (auto simp: clean_start_def)
  next
    case (Inl e)
    with clean obtain pre a post e' where p: "map fst as = pre @ a # post" "tr = pre @ [a]" "fallible a"
      "no_failure env pre" "fails env pre a = Some e'" "e = ServiceLib e'" by auto
    have "StartNetwork \<notin> set tr"
      using p(1,3) bs unfolding p(2) by (cases post rule: rev_cases) (auto simp flip: list.set_map)
    moreover have "wired False False tr" using assms(3) wired_prefix [of False False tr post] by (simp add: p(1,2))
    ultimately show ?thesis using r Inl p by (simp add: clean_start_def)
  qed
qed

lemma new_full_remote:
  "keystore_remote config \<noteq> None \<Longrightarrow>
     new_full env config tr = (Inl (ServiceOther (lit ''Remote Keystores are not supported.'')), tr)"
  by (simp add: new_full_def new_partial_def bbind_def bfail_def)

lemma started_full_plan:
  assumes "new_full env config [] = (Inr (), tr)"
  shows "tr = map fst (full_plan env config)"
proof -
  have "keystore_remote config = None"
    using assms new_full_remote [of config env "[]"] by (cases "keystore_remote config") auto
  then show ?thesis
    using assms by (auto simp: new_full_plan dest: run_plan_ok)
qed

section \<open>Properties\<close>

text \<open>
  C14. Starting a full node with a remote keystore is refused before anything is built. Otherwise the start makes its calls in an order in which the
  import queue exists before the network that takes it and the network before whatever uses it. It succeeds only when no fallible
  library call failed, and its last and only start of the network is its last act; when it fails, its last call was the first one that failed, the
  error is that call's, and the network is not started. A light node starts in the same way, whatever the keystore.
\<close>

theorem node_start_all_or_nothing:
  "(if keystore_remote config \<noteq> None
    then new_full env config [] = (Inl (ServiceOther (lit ''Remote Keystores are not supported.'')), [])
    else clean_start env (new_full env config [])) \<and>
   clean_start env (new_light env config [])"
  by (simp add: new_full_remote new_full_plan new_light_plan run_plan_clean_start full_plan_last full_plan_shape
      light_plan_last light_plan_shape)

text \<open>
  C35. In a full node that started, the author task runs exactly on an authority, the finality
  voter exactly when it is not disabled, the off-chain workers exactly when they are enabled; the
  block author and the import queue are given a provider whose inherent data is empty, whatever the chain.
\<close>

theorem full_node_tasks:
  assumes "new_full env config [] = (Inr (), tr)"
  shows "(SpawnAura \<in> set tr \<longleftrightarrow> is_authority env (role config)) \<and>
    (SpawnGrandpa \<in> set tr \<longleftrightarrow> \<not> disable_grandpa config) \<and>
    (BuildOffchainWorkers \<in> set tr \<longleftrightarrow> offchain_worker_enabled config) \<and>
    {ps. ImportQueue ps \<in> set tr \<or> (\<exists>force. StartAura ps force \<in> set tr)} =
      {[\<lparr>dm_key = fmt_dec (unat (initial_number env)), dm_value = []\<rparr>]}"
proof -
  from assms have "tr = map fst (full_plan env config)" by (rule started_full_plan)
  then show ?thesis
    by (cases "is_authority env (role config)"; cases "disable_grandpa config"; cases "offchain_worker_enabled config")
      (auto simp: full_plan_def partial_plan_def Let_def data_map_new_def)
qed

text \<open>A concrete node: an authority on which every library call succeeds.\<close>

definition healthy_env :: "(bool, unit) node_env" where
  "healthy_env = \<lparr>fails = (\<lambda>_ _. None), initial_number = 119, finalized_number = 120, finalized_hash = [48, 120],
     is_authority = (\<lambda>r. r), is_network_authority = (\<lambda>r. r)\<rparr>"

definition authority_config :: "bool configuration" where
  "authority_config = \<lparr>keystore_remote = None, offchain_worker_enabled = True, role = True, force_authoring = False,
     disable_grandpa = False, network = \<lparr>node_name = [110], extra_sets = [], enable_dht_random_walk = False\<rparr>\<rparr>"

lemma run_plan_healthy: "run_plan healthy_env as tr = (Inr (), tr @ map fst as)"
  by (induction as arbitrary: tr) (auto simp: healthy_env_def)

lemma healthy_start: "new_full healthy_env authority_config [] = (Inr (), map fst (full_plan healthy_env authority_config))"
  by (simp add: new_full_plan authority_config_def run_plan_healthy)

theorem full_node_tasks_witness:
  "SpawnAura \<in> set (snd (new_full healthy_env authority_config [])) \<and>
   SpawnGrandpa \<in> set (snd (new_full healthy_env authority_config []))"
  using full_node_tasks [OF healthy_start]
  unfolding healthy_start by (simp add: healthy_env_def authority_config_def)

lemma digit_byte_inj: "d < 10 \<Longrightarrow> e < 10 \<Longrightarrow> digit_byte d = digit_byte e \<longleftrightarrow> d = e"
proof -
  assume "d < 10" "e < 10"
  then have "d \<in> set [0..<10]" "e \<in> set [0..<10]" by simp_all
  moreover have "\<forall>d \<in> set [0..<10]. \<forall>e \<in> set [0..<10]. digit_byte d = digit_byte e \<longleftrightarrow> d = e"
    by (simp add: digit_byte_def upt_rec)
  ultimately show ?thesis by blast
qed

lemma fmt_dec_inj: "fmt_dec m = fmt_dec n \<longleftrightarrow> m = n"
proof
  assume "fmt_dec m = fmt_dec n"
  then have "map digit_byte (digits 10 m) = map digit_byte (digits 10 n)" by (simp add: fmt_dec_def)
  moreover have "inj_on digit_byte (set (digits 10 m) \<union> set (digits 10 n))"
    by (rule inj_onI) (auto simp: digit_byte_inj dest!: digits_lt [of 10, simplified])
  ultimately have "digits 10 m = digits 10 n" by (rule map_inj_on)
  then have "digits_value 10 (digits 10 m) = digits_value 10 (digits 10 n)" by simp
  then show "m = n" by (simp add: digits_value_digits del: digits_value.simps)
qed simp

text \<open>
  C36. A full node that started has put exactly one record in the DHT, the decimal text of the
  finalized block number with the text of the finalized hash, and has asked for the same key; nodes at
  different finalized blocks use different keys.
\<close>

theorem dht_record_of_finalized_block:
  assumes "new_full env config [] = (Inr (), tr)"
  shows "{(k, v). PutValue k v \<in> set tr} = {(fmt_dec (unat (finalized_number env)), finalized_hash env)} \<and>
    {k. GetValue k \<in> set tr} = {fmt_dec (unat (finalized_number env))} \<and>
    (dm_key (dht_record env) = dm_key (dht_record env') \<longleftrightarrow> finalized_number env = finalized_number env')"
proof -
  from assms have "tr = map fst (full_plan env config)" by (rule started_full_plan)
  then show ?thesis
    by (cases "is_authority env (role config)"; cases "disable_grandpa config"; cases "offchain_worker_enabled config")
      (auto simp: full_plan_def partial_plan_def dht_record_def fmt_dec_inj word_unat_eq_iff Let_def)
qed

theorem dht_record_of_finalized_block_witness:
  "{k. GetValue k \<in> set (snd (new_full healthy_env authority_config []))} = {fmt_dec 120}"
  using dht_record_of_finalized_block [OF healthy_start, of healthy_env]
  unfolding healthy_start by (simp add: healthy_env_def)

text \<open>
  C37. The network of a full node is built with the random-walk setting of the given
  configuration: the setting that \<open>new_full\<close> turns on comes after the network is built, and only
  the tasks spawned later see it.
\<close>

theorem random_walk_set_too_late:
  assumes "new_full env config [] = (Inr (), tr)"
  shows "{enable_dht_random_walk net | net. BuildNetwork net \<in> set tr} = {enable_dht_random_walk (network config)} \<and>
    {enable_dht_random_walk net | net. SpawnTasks net \<in> set tr} = {True}"
proof -
  from assms have "tr = map fst (full_plan env config)" by (rule started_full_plan)
  then show ?thesis
    by (cases "is_authority env (role config)"; cases "disable_grandpa config"; cases "offchain_worker_enabled config")
      (auto simp: full_plan_def partial_plan_def push_grandpa_set_def Let_def)
qed

theorem random_walk_set_too_late_witness:
  "{enable_dht_random_walk net | net. BuildNetwork net \<in> set (snd (new_full healthy_env authority_config []))} = {False}"
  using random_walk_set_too_late [OF healthy_start]
  unfolding healthy_start by (simp add: authority_config_def)

end
