(* ===== verification/Node_Rpc.thy ===== *)
theory Node_Rpc
  imports Node_Service
begin

text \<open>
  The RPC extensions of the node, \<^verbatim>\<open>node/src/rpc.rs\<close>, and the builder that
  \<^verbatim>\<open>node/src/service.rs\<close> hands to the RPC servers. The handler table and the
  delegates of the two libraries are arguments.
\<close>

section \<open>The handler table\<close>

datatype deny_unsafe = Deny | Allow

record ('c, 'p) full_deps =
  fd_client :: 'c
  fd_pool :: 'p
  fd_deny_unsafe :: deny_unsafe

text \<open>
  The handler table of \<^verbatim>\<open>jsonrpc_core\<close>, empty at first and extended by the methods of a delegate, and the delegates
  of \<^verbatim>\<open>FullSystem\<close> and of \<^verbatim>\<open>TransactionPayment\<close>.
\<close>

record ('c, 'p, 'dg, 'io) rpc_lib =
  system_delegate :: "'c \<Rightarrow> 'p \<Rightarrow> deny_unsafe \<Rightarrow> 'dg"
  payment_delegate :: "'c \<Rightarrow> 'dg"
  io_default :: 'io
  extend_with :: "'io \<Rightarrow> 'dg \<Rightarrow> 'io"

definition create_full :: "('c, 'p, 'dg, 'io) rpc_lib \<Rightarrow> ('c, 'p) full_deps \<Rightarrow> 'io" where
  "create_full lib deps =
     (let io = io_default lib;
          client = fd_client deps;
          pool = fd_pool deps;
          deny = fd_deny_unsafe deps;
          io = extend_with lib io (system_delegate lib client pool deny);
          io = extend_with lib io (payment_delegate lib client)
      in io)"

text \<open>The closure is called for each connection, with the policy of its server.\<close>

definition rpc_extensions_builder :: "('c, 'p, 'dg, 'io) rpc_lib \<Rightarrow> 'c \<Rightarrow> 'p \<Rightarrow> deny_unsafe \<Rightarrow> 'sub \<Rightarrow> 'io" where
  "rpc_extensions_builder lib client pool deny sub =
     create_full lib \<lparr>fd_client = client, fd_pool = pool, fd_deny_unsafe = deny\<rparr>"

definition light_rpc_extensions :: "deny_unsafe \<Rightarrow> 'sub \<Rightarrow> unit" where
  "light_rpc_extensions deny sub = ()"

end
