(* ===== verification/Node_Command.thy ===== *)
theory Node_Command
  imports Node_Rpc Runtime_Api
begin

text \<open>
  The command line, \<^verbatim>\<open>node/src/cli.rs\<close>, \<^verbatim>\<open>node/src/command.rs\<close> and
  \<^verbatim>\<open>node/src/supra_subcommands.rs\<close>: the subcommands, the choice of the chain specification,
  what each subcommand builds and runs, and the tool that turns a key into a peer id. The
  commands of the Substrate libraries, runners and key codecs are arguments.
\<close>

section \<open>Chain specifications\<close>

definition load_spec ::
  "('aura, 'grandpa, 'sr, 'acc) node_crypto \<Rightarrow> bytes option \<Rightarrow>
     (str \<Rightarrow> str + ('aura, 'grandpa, 'acc, 'e) chain_spec) \<Rightarrow> str \<Rightarrow> str + ('aura, 'grandpa, 'acc, 'e) chain_spec" where
  "load_spec cr wasm from_json_file name =
     (if name = lit ''dev'' then development_config cr wasm
      else if name = [] \<or> name = lit ''local'' then local_testnet_config cr wasm
      else from_json_file name)"

text \<open>
  What the binary says of itself. Version, description and authors are set by the build; the native runtime
  is that of the runtime crate, whatever the chain specification.
\<close>

record cli_texts =
  impl_name_text :: str
  impl_version_text :: str
  description_text :: str
  author_text :: str
  support_url_text :: str
  copyright_year :: int

definition cli_info :: "str \<Rightarrow> str \<Rightarrow> str \<Rightarrow> cli_texts" where
  "cli_info substrate_cli_impl_version cargo_pkg_description cargo_pkg_authors =
     \<lparr>impl_name_text = lit ''Supra Node'', impl_version_text = substrate_cli_impl_version,
      description_text = cargo_pkg_description, author_text = cargo_pkg_authors,
      support_url_text = lit ''support.anonymous.an'', copyright_year = 2021\<rparr>"

definition native_runtime_version :: "('aura, 'grandpa, 'acc, 'e) chain_spec \<Rightarrow> runtime_version" where
  "native_runtime_version spec = VERSION"

lemma one_runtime_version:
  "native_runtime_version spec = nv_runtime_version native_version"
  "native_runtime_version spec = core_version (runtime_core_api ex)"
  "Some (native_runtime_version spec) = sc_version (runtime_system_config fl)"
  by (simp_all add: native_runtime_version_def native_version_def runtime_core_api_def runtime_system_config_def)

section \<open>Peer ids\<close>

record ('sk, 'peer) peer_api =
  hex_decode :: "str \<Rightarrow> bytes option"
  hex_encode :: "bytes \<Rightarrow> str"
  secret_from_bytes :: "bytes \<Rightarrow> 'sk option"
  secret_bytes :: "'sk \<Rightarrow> bytes"
  peer_of :: "'sk \<Rightarrow> 'peer"
  peer_to_base58 :: "'peer \<Rightarrow> str"
  peer_to_string :: "'peer \<Rightarrow> str"
  base58_decode :: "str \<Rightarrow> bytes option"

text \<open>The debug text of a byte vector.\<close>

definition debug_bytes :: "bytes \<Rightarrow> str" where
  "debug_bytes bs = fst (debug_vec (\<lambda>b. (fmt_dec (unat b), True)) bs)"

text \<open>The lines printed; each \<^verbatim>\<open>unwrap\<close> may panic.\<close>

definition get_peerid :: "('sk, 'peer) peer_api \<Rightarrow> str \<Rightarrow> (str list, 'e) outcome" where
  "get_peerid pa public_key =
     obind (unwrap_option (hex_decode pa public_key)) (\<lambda>bytes.
     obind (unwrap_option (secret_from_bytes pa bytes)) (\<lambda>secret.
     let node_key = hex_encode pa (secret_bytes pa secret);
         peer_id = peer_of pa secret
     in obind (unwrap_option (base58_decode pa (peer_to_base58 pa peer_id))) (\<lambda>vec_of_peer.
        Ok [lit ''Node Key: '' @ node_key,
            lit ''PeerId: '' @ peer_to_string pa peer_id,
            lit ''PeerId Hex: '' @ hex_encode pa vec_of_peer,
            lit ''PeerId Vector: '' @ debug_bytes vec_of_peer])))"

section \<open>Commands\<close>

datatype subcommand =
    Key
  | BuildSpec
  | CheckBlock
  | ExportBlocks
  | ExportState
  | ImportBlocks
  | PurgeChain
  | Revert
  | Benchmark
  | PeerID str

text \<open>What a command's \<^verbatim>\<open>run\<close> is given.\<close>

datatype command_args =
    CliOnly
  | SpecAndNetwork
  | ClientAndQueue
  | ClientAndDatabase
  | ClientAndSpec
  | DatabaseOnly
  | ClientAndBackend
  | ConfigOnly

record ('r, 'e, 'c, 'sk, 'peer) cli_env =
  create_runner :: "subcommand option \<Rightarrow> 'c + 'r configuration"
  command_run :: "subcommand \<Rightarrow> command_args \<Rightarrow> 'c + unit"
  until_exit :: "'c + unit"
  benchmarks_enabled :: bool
  benchmarks_missing :: 'c
  service_failed :: "'e service_error \<Rightarrow> 'c"
  is_light :: "'r \<Rightarrow> bool"
  node :: "('r, 'e) node_env"
  peers :: "('sk, 'peer) peer_api"

record cli_trace =
  built :: "node_action list"
  commands :: "(subcommand \<times> command_args) list"
  printed :: "str list"

type_synonym 'c cli = "cli_trace \<Rightarrow> (unit, 'c) outcome \<times> cli_trace"

fun result_of :: "'c + unit \<Rightarrow> (unit, 'c) outcome" where
  "result_of (Inl e) = Err e"
| "result_of (Inr u) = Ok ()"

definition do_command :: "('r, 'e, 'c, 'sk, 'peer) cli_env \<Rightarrow> subcommand \<Rightarrow> command_args \<Rightarrow> 'c cli" where
  "do_command env cmd args tr =
     (result_of (command_run env cmd args), tr\<lparr>commands := commands tr @ [(cmd, args)]\<rparr>)"

text \<open>\<^verbatim>\<open>let runner = cli.create_runner(cmd)?; runner.run(|config| ...)\<close>.\<close>

definition with_runner ::
  "('r, 'e, 'c, 'sk, 'peer) cli_env \<Rightarrow> subcommand option \<Rightarrow> ('r configuration \<Rightarrow> 'c cli) \<Rightarrow> 'c cli" where
  "with_runner env cmd k tr = (case create_runner env cmd of Inl e \<Rightarrow> (Err e, tr) | Inr config \<Rightarrow> k config tr)"

definition with_partial ::
  "('r, 'e, 'c, 'sk, 'peer) cli_env \<Rightarrow> 'r configuration \<Rightarrow> 'c cli \<Rightarrow> 'c cli" where
  "with_partial env config k tr =
     (case new_partial (node env) config (built tr) of
        (Inl e, b) \<Rightarrow> (Err (service_failed env e), tr\<lparr>built := b\<rparr>)
      | (Inr _, b) \<Rightarrow> k (tr\<lparr>built := b\<rparr>))"

definition run_node :: "('r, 'e, 'c, 'sk, 'peer) cli_env \<Rightarrow> 'r configuration \<Rightarrow> 'c cli" where
  "run_node env config tr =
     (case (if is_light env (role config) then new_light (node env) config (built tr)
            else new_full (node env) config (built tr)) of
        (Inl e, b) \<Rightarrow> (Err (service_failed env e), tr\<lparr>built := b\<rparr>)
      | (Inr _, b) \<Rightarrow> (result_of (until_exit env), tr\<lparr>built := b\<rparr>))"

fun run :: "('r, 'e, 'c, 'sk, 'peer) cli_env \<Rightarrow> subcommand option \<Rightarrow> 'c cli" where
  "run env (Some Key) = do_command env Key CliOnly"
| "run env (Some BuildSpec) =
     with_runner env (Some BuildSpec) (\<lambda>config. do_command env BuildSpec SpecAndNetwork)"
| "run env (Some CheckBlock) =
     with_runner env (Some CheckBlock) (\<lambda>config. with_partial env config (do_command env CheckBlock ClientAndQueue))"
| "run env (Some ExportBlocks) =
     with_runner env (Some ExportBlocks) (\<lambda>config. with_partial env config (do_command env ExportBlocks ClientAndDatabase))"
| "run env (Some ExportState) =
     with_runner env (Some ExportState) (\<lambda>config. with_partial env config (do_command env ExportState ClientAndSpec))"
| "run env (Some ImportBlocks) =
     with_runner env (Some ImportBlocks) (\<lambda>config. with_partial env config (do_command env ImportBlocks ClientAndQueue))"
| "run env (Some PurgeChain) =
     with_runner env (Some PurgeChain) (\<lambda>config. do_command env PurgeChain DatabaseOnly)"
| "run env (Some Revert) =
     with_runner env (Some Revert) (\<lambda>config. with_partial env config (do_command env Revert ClientAndBackend))"
| "run env (Some Benchmark) =
     (if benchmarks_enabled env
      then with_runner env (Some Benchmark) (\<lambda>config. do_command env Benchmark ConfigOnly)
      else (\<lambda>tr. (Err (benchmarks_missing env), tr)))"
| "run env (Some (PeerID key)) =
     (\<lambda>tr. case get_peerid (peers env) key of
        Ok out \<Rightarrow> (Ok (), tr\<lparr>printed := printed tr @ out\<rparr>)
      | Err e \<Rightarrow> (Err e, tr)
      | Panic \<Rightarrow> (Panic, tr))"
| "run env None = with_runner env None (run_node env)"

text \<open>
  The parsed command line and the entry point; the parser is the one that \<^verbatim>\<open>structopt\<close> derives, and the options of a plain run reach the
  runner.
\<close>

record 'run cli_options =
  cli_subcommand :: "subcommand option"
  cli_run :: 'run

definition node_main ::
  "('run \<Rightarrow> ('r, 'e, 'c, 'sk, 'peer) cli_env) \<Rightarrow> (str list \<Rightarrow> 'run cli_options) \<Rightarrow> str list \<Rightarrow> 'c cli" where
  "node_main env from_args args = (let cli = from_args args in run (env (cli_run cli)) (cli_subcommand cli))"

definition empty_cli_trace :: cli_trace where
  "empty_cli_trace = \<lparr>built = [], commands = [], printed = []\<rparr>"

section \<open>Properties\<close>

text \<open>The commands that open the chain's database through the service.\<close>

definition opens_chain :: "subcommand \<Rightarrow> bool" where
  "opens_chain cmd \<longleftrightarrow> cmd \<in> {CheckBlock, ExportBlocks, ExportState, ImportBlocks, Revert}"

lemma partial_actions: "set (snd (new_partial env config tr)) \<subseteq> set tr \<union> fst ` set (partial_plan env config)"
proof (cases "keystore_remote config")
  case None
  obtain r tr' where r: "run_plan env (partial_plan env config) tr = (r, tr')" by (rule prod.exhaust)
  with run_plan_actions [of env "partial_plan env config" tr] have "set tr' \<subseteq> set tr \<union> fst ` set (partial_plan env config)" by simp
  then show ?thesis
    by (auto simp: new_partial_plan [OF None] bbind_def r breturn_def split: sum.splits)
qed (simp add: new_partial_def bfail_def)

lemma partial_starts_nothing: "StartNetwork \<notin> set tr \<Longrightarrow> StartNetwork \<notin> set (snd (new_partial env config tr))"
  using partial_actions [of env config tr] by (auto simp: partial_plan_def Let_def)

definition own_command_only :: "subcommand \<Rightarrow> cli_trace \<Rightarrow> bool" where
  "own_command_only cmd tr \<longleftrightarrow>
     StartNetwork \<notin> set (built tr) \<and> (commands tr = [] \<or> (\<exists>args. commands tr = [(cmd, args)]))"

lemma own_command_empty: "own_command_only cmd empty_cli_trace"
  by (simp add: own_command_only_def empty_cli_trace_def)

lemma own_command_do:
  "StartNetwork \<notin> set (built tr) \<Longrightarrow> commands tr = [] \<Longrightarrow> own_command_only cmd (snd (do_command env cmd args tr))"
  by (simp add: own_command_only_def do_command_def)

lemma own_command_runner:
  "(\<And>config. own_command_only cmd (snd (k config empty_cli_trace))) \<Longrightarrow>
     own_command_only cmd (snd (with_runner env c k empty_cli_trace))"
  by (simp add: with_runner_def own_command_empty split: sum.split)

lemma own_command_partial: "own_command_only cmd (snd (with_partial env config (do_command env cmd args) empty_cli_trace))"
proof -
  obtain r b where b: "new_partial (node env) config [] = (r, b)" by (rule prod.exhaust)
  then have "StartNetwork \<notin> set b" using partial_starts_nothing [of "[]" "node env" config] by simp
  then show ?thesis
    by (simp add: with_partial_def empty_cli_trace_def b own_command_only_def do_command_def split: sum.split)
qed

lemma run_own_command: "own_command_only cmd (snd (run env (Some cmd) empty_cli_trace))"
proof (cases cmd)
  case (PeerID key)
  then show ?thesis by (simp add: own_command_only_def empty_cli_trace_def split: outcome.split)
qed (auto simp: own_command_empty empty_cli_trace_def [THEN arg_cong [where f = built]]
     intro!: own_command_runner own_command_partial own_command_do, simp_all add: empty_cli_trace_def)

text \<open>
  C38. A subcommand never starts the node's network and runs at most its own command, once;
  without a subcommand no command runs.
\<close>

theorem subcommands_do_not_start_node:
  "case sub of
     None \<Rightarrow> commands (snd (run env None empty_cli_trace)) = []
   | Some cmd \<Rightarrow> own_command_only cmd (snd (run env (Some cmd) empty_cli_trace))"
  by (auto simp: empty_cli_trace_def with_runner_def run_node_def
      split: option.split sum.splits prod.splits intro: run_own_command [unfolded empty_cli_trace_def])

text \<open>
  A command that opens the chain is not run, and nothing is built, when the configuration
  names a remote keystore: the service's error is all that comes out.
\<close>

lemma chain_commands_need_local_keystore:
  assumes "opens_chain cmd" "create_runner env (Some cmd) = Inr config" "keystore_remote config \<noteq> None"
  shows "run env (Some cmd) tr =
       (Err (service_failed env (ServiceOther (lit ''Remote Keystores are not supported.''))), tr)"
  using assms by (auto simp: opens_chain_def with_runner_def with_partial_def new_partial_def bfail_def)

definition remote_cli :: "(bool, unit, unit service_error, unit, unit) cli_env" where
  "remote_cli = \<lparr>create_runner = (\<lambda>_. Inr (authority_config\<lparr>keystore_remote := Some [117]\<rparr>)),
     command_run = (\<lambda>_ _. Inr ()), until_exit = Inr (), benchmarks_enabled = False, benchmarks_missing = ServiceLib (),
     service_failed = (\<lambda>e. e), is_light = (\<lambda>_. False), node = healthy_env,
     peers = \<lparr>hex_decode = (\<lambda>_. None), hex_encode = (\<lambda>b. b), secret_from_bytes = (\<lambda>_. None), secret_bytes = (\<lambda>_. []),
       peer_of = (\<lambda>_. ()), peer_to_base58 = (\<lambda>_. []), peer_to_string = (\<lambda>_. []), base58_decode = Some\<rparr>\<rparr>"

lemma chain_commands_need_local_keystore_example:
  "run remote_cli (Some Revert) empty_cli_trace =
     (Err (ServiceOther (lit ''Remote Keystores are not supported.'')), empty_cli_trace)"
  using chain_commands_need_local_keystore [of Revert remote_cli "authority_config\<lparr>keystore_remote := Some [117]\<rparr>" empty_cli_trace]
  by (simp add: opens_chain_def remote_cli_def)

text \<open>
  C39. The tool that prints a peer id panics exactly when its argument is not the hexadecimal text of a
  secret key; otherwise it prints four lines, and the node key on the first of them
  decodes to the very bytes of the argument: the argument is the secret key.
\<close>

theorem get_peerid_prints_its_secret:
  assumes "\<And>b. hex_decode pa (hex_encode pa b) = Some b"
    and "\<And>b s. secret_from_bytes pa b = Some s \<Longrightarrow> secret_bytes pa s = b"
    and "\<And>p. base58_decode pa (peer_to_base58 pa p) \<noteq> None"
  shows "(get_peerid pa key = Panic \<longleftrightarrow> Option.bind (hex_decode pa key) (secret_from_bytes pa) = None) \<and>
    (get_peerid pa key \<noteq> Panic \<longrightarrow>
      (\<exists>node_key out. get_peerid pa key = Ok ((lit ''Node Key: '' @ node_key) # out) \<and> length out = 3 \<and>
         hex_decode pa node_key = hex_decode pa key))"
proof (cases "Option.bind (hex_decode pa key) (secret_from_bytes pa)")
  case None
  then show ?thesis
    by (auto simp: get_peerid_def unwrap_option_def bind_eq_None_conv split: option.split)
next
  case (Some s)
  then obtain b where b: "hex_decode pa key = Some b" "secret_from_bytes pa b = Some s"
    by (auto simp: bind_eq_Some_conv)
  obtain v where "base58_decode pa (peer_to_base58 pa (peer_of pa s)) = Some v" using assms(3) by blast
  then show ?thesis
    using b assms(1,2) by (simp add: get_peerid_def Let_def)
qed

definition plain_peers :: "(bytes, bytes) peer_api" where
  "plain_peers = \<lparr>hex_decode = Some, hex_encode = (\<lambda>b. b),
     secret_from_bytes = (\<lambda>b. if length b = 32 then Some b else None), secret_bytes = (\<lambda>s. s),
     peer_of = (\<lambda>s. s), peer_to_base58 = (\<lambda>p. p), peer_to_string = (\<lambda>p. p), base58_decode = Some\<rparr>"

theorem get_peerid_prints_its_secret_witness:
  "get_peerid plain_peers [1, 2] = (Panic :: (str list, unit) outcome) \<and>
   (get_peerid plain_peers (replicate 32 7) :: (str list, unit) outcome) \<noteq> Panic"
proof -
  have laws: "hex_decode plain_peers (hex_encode plain_peers b) = Some b"
    "secret_from_bytes plain_peers b = Some s \<Longrightarrow> secret_bytes plain_peers s = b"
    "base58_decode plain_peers (peer_to_base58 plain_peers p) \<noteq> None" for b s p
    by (auto simp: plain_peers_def split: if_splits)
  have "(get_peerid plain_peers k :: (str list, unit) outcome) = Panic \<longleftrightarrow>
      Option.bind (hex_decode plain_peers k) (secret_from_bytes plain_peers) = None" for k
    by (rule get_peerid_prints_its_secret [OF laws, THEN conjunct1])
  then show ?thesis by (simp add: plain_peers_def)
qed

end
