(* ===== verification/Spec2Isabelle.thy ===== *)
theory Spec2Isabelle
  imports Authorization_Tests Client_Wire Oracle_Network Template_Mock Node_Command
begin

text \<open>
  This development models the Supra node, a Substrate chain with three pallets of its own, and
  proves what its components promise. It is a shallow embedding: the Rust functions are HOL
  functions over records and datatypes with the names of the source, machine integers are words,
  every early return, error and panic is a branch, and what lies in other repositories (FRAME,
  SCALE, serde_json, HTTP, keys, base58, the Substrate services) is a parameter: a field of a record
  of functions that the definitions take, with the laws the code relies on as named hypotheses.

  \<^bold>\<open>The program.\<close> The runtime (\<^verbatim>\<open>runtime/src/lib.rs\<close>) composes the pallets. The node
  authorization pallet (\<^verbatim>\<open>authorization/src/lib.rs\<close>) keeps the well known nodes, the owners of
  nodes and their additional connections, and its off-chain worker tells the network which peers to
  accept. The template pallet (\<^verbatim>\<open>pallets/template/src/lib.rs\<close>) records who claimed which proof.
  The client pallet (\<^verbatim>\<open>client/src/lib.rs\<close>) is an oracle: a signed call leaves a request in the
  off-chain index under a key derived from the block number; the off-chain worker of that block fetches
  the price of ether under a lock, sends it to a contract by JSON-RPC and submits it back to the chain as
  an unsigned transaction. The node (\<^verbatim>\<open>node/src\<close>) builds the genesis, starts the services and
  has the command line.

  \<^bold>\<open>Theories.\<close>
  \<^item> \<open>Supra_Prelude\<close>: machine types, the guards \<open>ensure\<close> and \<open>try_let\<close>, runs of calls and
    reachable states, and the interfaces as locales: a machine that keeps an invariant
    (\<open>dispatch_machine\<close>), one whose failures change nothing (\<open>atomic_machine\<close>), one whose events
    record its storage (\<open>event_log\<close>). \<open>Ownership\<close> has the locale of registries in which
    a key belongs to one account at a time.
  \<^item> \<open>BTree_Set\<close>: \<^verbatim>\<open>BTreeSet\<close> as a sorted list without repetitions, behind the
    locale \<open>ordered_set\<close>.
  \<^item> \<open>Authorization\<close>: the authorization pallet, call by call, with its genesis and off-chain
    worker. \<open>Authorization_Policy\<close>: the storage invariant and the bound in every reachable state,
    the refinement of an abstract policy over sets and maps, isolation of owners, the event log,
    what is authorized, and the limits that differ between calls. \<open>Authorization_Tests\<close>: the
    assertions of the pallet's unit tests, replayed on the model.
  \<^item> \<open>Template_Pallet\<close>: the template pallet, an instance of the same registry and log interfaces.
  \<^item> \<open>Rust_Str\<close> and \<open>Rust_F32\<close>: the parts of Rust's standard library that the client pallet
    computes with: results with panics, UTF-8 validation, integer formatting, parsing of decimal
    text to 32-bit floats with round half to even, and the saturating cast to an integer.
  \<^item> \<open>Client_Types\<close>: the structs, their serialization, debug text and deserialization.
    \<open>Client_Pallet\<close>: the two calls, the off-chain index and the validation of unsigned transactions.
    \<open>Client_Worker\<close>: the off-chain worker over an opaque world on which the host acts, with
    a trace of what it asked for. \<open>Client_Protocol\<close>: the order of those effects as a state machine.
    \<open>Client_Handoff\<close>: from the price text to the call data, from a block to its worker, and when
    the worker panics. \<open>Client_Liveness\<close>: a bound on the effects of the worker, its success on a host
    that gives a free lock and serves its addresses, its failure on one that serves HTTP URLs only, and what it reports when the lock is taken.
    \<open>Client_Wire\<close>: the requests against the types of the Ethereum interface and against
    the derived readers of the same structs, which read borrowed texts. \<open>Client_Concurrent\<close>: the worker as a program of atomic
    actions on the host, proved to be the function when run alone, and any number of such programs interleaved over
    one storage and one lock: mutual exclusion, a bound on the actions of each worker, and where a submitted price comes from. \<open>Client_Lock\<close>: the
    same with a clock, which shows for which delays of the host the deadline of the lock is long enough, and that the read of the body, which has
    no deadline, can outlast it. \<open>Client_Schedule\<close>: the worker that a block starts, and the function on a host with an honest lock as a schedule of
    the interleaved program.
  \<^item> \<open>Runtime\<close>: constants, configurations, the composed calls and storage, each pallet as a
    component of the whole (locale \<open>component_machine\<close>), and signed transactions of workers.
    \<open>Chain_System\<close>: a node that imports block after block, with the off-chain workers of both pallets and a
    world that changes in between, as a step relation; its invariants by induction on reachability, and the
    cycle of a request. \<open>Chain_Forks\<close>: a node that imports blocks on several forks while workers run, with one off-chain storage for all.
    \<open>Oracle_Network\<close>: any number of such nodes, and the origin of every price on every fork. The imports of these three theories are the
    environment of the pallets and not code of this repository. \<open>Runtime_Api\<close>: the configurations of the library's pallets, the pallet table, the runtime APIs and the
    benchmark dispatch. \<open>Template_Mock\<close>: the mock runtime of the template pallet.
  \<^item> \<open>Chain_Spec\<close>: the preset chains and their genesis. \<open>Node_Service\<close>: the steps
    of starting a full and a light node as sequences of library calls that may fail, stopped by the first failure. \<open>Node_Rpc\<close>: the
    extension of the RPC handlers. \<open>Node_Command\<close>: the command line and the peer-id tool.
  \<^item> This theory: the path of a price through runtime, worker and runtime again.

  \<^bold>\<open>State and calls.\<close> A dispatchable maps the storage of its pallet to a result and the storage
  it leaves, on the error branch too, so that atomicity of failures is proved and not assumed. The
  origin comes with each call, paired with the block number where the code reads it. Storage maps are
  partial functions; a read of a missing key gives the default of the configuration.

  \<^bold>\<open>Recursion and bounds.\<close> Every function is total; no fuel is used. The loops of the source go
  over lists. UTF-8 validation and digit extraction recurse on the rest of the text and on the
  quotient. The exponent search of the float rounding goes over the 254 exponents of the format. Block
  numbers are 32-bit words; a chain imports blocks while the next number does not wrap around. The price worker
  has no loop; that its protocol ends is proved by a rank on its phases, and that interleaved workers end by a bound on
  the actions of a program.

  \<^bold>\<open>Environment.\<close> The FRAME pallets (system, balances, aura, grandpa, sudo, timestamp, transaction payment) are one opaque component of the
  runtime, whose calls act on the whole storage: the system pallet lets root write raw storage, that of the three pallets too. The theorems on runs of
  the runtime are about calls that do not (\<open>keeps_pallets\<close>), or about calls without the root origin (\<open>raw_writes_need_root\<close>), and the steps of the
  chain theories take blocks without such writes (\<open>no_raw_writes\<close>). A call made through the sudo pallet appears as the inner call with the root origin.
  When the workers run is decided by the Substrate client: here off-chain indexing and workers are enabled, what a block wrote to the index reaches
  the off-chain storage with the import of the block, and the workers of a block start after it (on forks: when it becomes the best block).

  \<^bold>\<open>Not modelled.\<close> Logging; weights are data only. The lock of
  the off-chain storage lives in the opaque world of a single worker, and is a holder among the interleaved ones. The order in which \<^verbatim>\<open>Executive\<close> runs a block
  (calls, then off-chain workers) is that of FRAME; the transaction pool is seen only through validation and the worker's
  submissions. The storage lock is the library's: in \<open>Client_Lock\<close> when it expires is an argument. Which fork is the best chain
  is decided by the library, and is open in the model; block headers are left out. Type aliases and bindings of key types have no counterpart. The build scripts only call
  libraries. The tests and the benchmark of the template pallet call functions it does not have. A response body is read with an operation of its own, which has
  no deadline and gives bytes; that the read may never end is seen only through the clock of \<open>Client_Lock\<close>. The pinned Rust release refuses decimal texts
  of several hundred digits, which \<open>parse_f32\<close> rounds like any other. In
  \<^verbatim>\<open>node/src/service.rs\<close> the objects passed between library calls are left out, the order,
  conditions and failures of the calls are kept.
\<close>

section \<open>A price from request to chain\<close>

lemma worker_success:
  assumes "update_ethereum_price_worker k api host h f t ws = (Ok (), ws')"
  shows "os_trace ws' \<noteq> [] \<and>
    last (os_trace ws') = Submitted (Call_submit_ethereum_price (stored_price k (os_storage ws'))) True"
  using worker_effects [of k api host h f t ws] assms by (auto simp: Let_def reported_def)

text \<open>
  C8. When a request accepted as the last client call of a block without raw writes has been indexed, the
  off-chain worker of that block runs for it; when the worker's work succeeds, its last act was to
  submit the stored price, that submission is valid for the pool whatever its source, and in any later block it is
  executed without a signer, deposits the event with exactly that price, and changes neither of the other pallets.
\<close>

theorem price_from_request_to_chain:
  assumes "codec_roundtrip (env_codec env)" "codec_block_inj (env_codec env)" "fo_none (env_origins env) org"
    and "list_all (keeps_pallets other) cs" "accepted (runtime_client_config env) bn (List.map_filter client_calls cs) =
      pre @ [Call_update_ethereum_price h f t]"
    and "os_storage ws = offchain_index (light_client_module (run_calls (runtime_dispatch env other) cs S))"
    and "update_ethereum_price_worker (env_codec env) api host (prefixed h) (prefixed f) (prefixed t) ws = (Ok (), ws')"
  shows "client_offchain_worker (env_codec env) api host bn ws = (Ok (), ws') \<and>
    (let price = stored_price (env_codec env) (os_storage ws');
         (r, S'') = runtime_dispatch env other (org, bn') (LightClient (Call_submit_ethereum_price price)) S'
     in last (os_trace ws') = Submitted (Call_submit_ethereum_price price) True \<and>
        (\<exists>v. runtime_validate_unsigned src (LightClient (Call_submit_ethereum_price price) :: ('acc, 'x) runtime_call) =
           Validated (Inr v)) \<and>
        r = Inr () \<and>
        client_events (light_client_module S'') = client_events (light_client_module S') @ [SubmitEthereumPrice None price] \<and>
        supra_authorization S'' = supra_authorization S' \<and> template_module S'' = template_module S')"
proof -
  have "pending_update (env_codec env) bn (os_storage ws) = Some (h, f, t)"
    using assms(1) unfolding assms(6) rt_client.run_component [OF assms(4)]
    by (simp add: pending_update_def run_index [OF assms(2)] assms(5) codec_roundtrip_def)
  then have w: "client_offchain_worker (env_codec env) api host bn ws = (Ok (), ws')"
    using assms(7) by (simp add: offchain_worker_eq)
  have c: "call_event (runtime_client_config env) org (Call_submit_ethereum_price p) = Some (SubmitEthereumPrice None p)" for p
    using assms(3) by (simp add: runtime_client_config_def)
  show ?thesis
    using w worker_success [OF assms(7)]
    by (simp add: validate_unsigned_def in_pallet_def client_dispatch_eq c Let_def del: client_dispatch.simps call_event.simps)
qed

section \<open>The example of that cycle\<close>

definition indexed :: "script \<Rightarrow> script ocw_state" where
  "indexed w = \<lparr>os_world = w, os_storage = offchain_index (light_client_module
     (run_calls (runtime_dispatch example_env no_other)
       [((Signed 1, 7), LightClient (Call_update_ethereum_price [104] [102] [116]))] example_state)), os_trace = []\<rparr>"

theorem price_from_request_to_chain_witness:
  "\<exists>ws'. client_offchain_worker marked_codec echo_json scripted_host 7 (indexed [(Response 200, [49]), (Response 200, [50])]) = (Ok (), ws') \<and>
     last (os_trace ws') = Submitted (Call_submit_ethereum_price (stored_price marked_codec (os_storage ws'))) True"
proof -
  let ?ws = "indexed [(Response 200, [49]), (Response 200, [50])]"
  have "os_storage ?ws INFO_KEY = None"
    by (simp add: indexed_def example_env_def raw_origins_def runtime_client_config_def example_state_def empty_client_state_def
        in_pallet_def client_dispatch_eq keys_distinct del: client_dispatch.simps)
  then obtain ws' where ws': "update_ethereum_price_worker marked_codec echo_json scripted_host
      (prefixed [104]) (prefixed [102]) (prefixed [116]) ?ws = (Ok (), ws')"
    using scripted_success [of "prefixed [102]" "prefixed [116]" ?ws] by (fastforce simp: indexed_def)
  have laws: "codec_roundtrip (env_codec example_env)" "codec_block_inj (env_codec example_env)" "fo_none (env_origins example_env) Unsigned"
    by (simp_all add: example_env_def raw_origins_def marked_codec_laws)
  have acc: "accepted (runtime_client_config example_env) 7 (List.map_filter client_calls
      [((Signed 1, 7), LightClient (Call_update_ethereum_price [104] [102] [116]) :: (nat, unit) runtime_call)]) =
      [] @ [Call_update_ethereum_price [104] [102] [116]]"
    by (simp add: accepted_def runtime_client_config_def example_env_def raw_origins_def map_filter_simps)
  have st: "os_storage ?ws = offchain_index (light_client_module (run_calls (runtime_dispatch example_env no_other)
       [((Signed 1, 7), LightClient (Call_update_ethereum_price [104] [102] [116]))] example_state))"
    by (simp add: indexed_def)
  have e: "env_codec example_env = marked_codec" by (simp add: example_env_def)
  have keeps: "list_all (keeps_pallets no_other) [((Signed 1, 7), LightClient (Call_update_ethereum_price [104] [102] [116]))]" by simp
  from price_from_request_to_chain [OF laws keeps acc st, where bn' = 8 and S' = example_state and src = Local] ws' show ?thesis
    by (auto simp: e Let_def split: prod.splits)
qed

end
